theory Spec2Isabelle
  imports Complex_Main "HOL-Library.Word"
begin

unbundle bit_operations_syntax

section \<open>The window manager's model (dynamd.c)\<close>

text \<open>
  A shallow embedding of the state machine of \<^verbatim>\<open>dynamd.c\<close>: the \<^verbatim>\<open>Client\<close>, \<^verbatim>\<open>Monitor\<close>,
  \<^verbatim>\<open>Pertag\<close> and \<^verbatim>\<open>Layout\<close> structs as records, the global variables as one record that
  every operation takes and returns, and the operations as functions on it.

  Conventions of the embedding.
  \<^item> Every \<^verbatim>\<open>Client\<close> struct lives in a store \<open>g_clients\<close> indexed by a client id (its
    address); a \<^verbatim>\<open>Client *\<close> is a \<open>cid option\<close>. The two intrusive lists of a monitor
    (\<^verbatim>\<open>clients\<close> linked by \<^verbatim>\<open>next\<close>, \<^verbatim>\<open>stack\<close> linked by \<^verbatim>\<open>snext\<close>) are the lists of ids
    in chain order, a pointer into a chain is the remaining suffix. \<^verbatim>\<open>free\<close> leaves the
    store as it is.
  \<^item> \<^verbatim>\<open>int\<close> is \<open>int\<close>: signed overflow (undefined in C) is outside the model.
    Where the C code computes in \<^verbatim>\<open>unsigned int\<close> the wrap-around is written out with
    \<open>u32\<close>, and \<open>s32\<close> where such a value is stored into an \<^verbatim>\<open>int\<close>. Loop counters of
    type \<^verbatim>\<open>unsigned int\<close> are \<open>nat\<close>. Tag bit masks are 32-bit words.
  \<^item> \<^verbatim>\<open>float\<close> and \<^verbatim>\<open>double\<close> values are the real numbers they denote and their
    arithmetic is exact; a conversion to \<^verbatim>\<open>int\<close> truncates towards zero (\<open>ftoi\<close>).
    Rounding, infinities and NaN are outside the model.
  \<^item> Requests to the X server that change a window's geometry, stacking, mapping or state
    properties are appended to the trace \<open>g_xlog\<close>. Drawing, grabs, border colours, input
    focus, synthetic events, root-window properties and synchronisation do not touch the
    manager's model and are left out. What the server answers (window titles, class hints)
    is read from \<open>g_xtitle\<close> and \<open>g_xclass\<close>.
  \<^item> Fields that only the bar and tab renderer uses (\<^verbatim>\<open>ntabs\<close>, \<^verbatim>\<open>tab_widths\<close>) are left out.
\<close>

type_synonym cid = nat
type_synonym mid = nat
type_synonym window = nat
type_synonym tagmask = "32 word"

subsection \<open>Structs\<close>

record Client =
  c_name :: string
  c_mina :: real
  c_maxa :: real
  c_x :: int
  c_y :: int
  c_w :: int
  c_h :: int
  c_oldx :: int
  c_oldy :: int
  c_oldw :: int
  c_oldh :: int
  c_basew :: int
  c_baseh :: int
  c_incw :: int
  c_inch :: int
  c_maxw :: int
  c_maxh :: int
  c_minw :: int
  c_minh :: int
  c_bw :: int
  c_oldbw :: int
  c_tags :: tagmask
  c_isfixed :: int
  c_isfloating :: int
  c_isurgent :: int
  c_neverfocus :: int
  c_oldstate :: int
  c_isfullscreen :: int
  c_isterminal :: int
  c_noswallow :: int
  c_pid :: int
  c_swallowing :: "cid option"
  c_mon :: mid
  c_win :: window

text \<open>
  The arrange functions a \<^verbatim>\<open>Layout\<close> can point to; the null pointer of the floating layout
  is \<open>None\<close>.
\<close>

datatype arrange_fn =
  Centeredmaster | Monocle | Tile | Deck | Dwindle | Spiral | Grid | Horizgrid
  | Gaplessgrid | Bstack | Bstackhoriz | Centeredfloatingmaster

text \<open>
  The sentinel entry \<^verbatim>\<open>{ NULL, NULL }\<close> that ends the \<^verbatim>\<open>layouts\<close> table is never the layout
  of a monitor, so the symbol of a layout is a string.
\<close>

record Layout =
  lt_symbol :: string
  lt_arrange :: "arrange_fn option"

record Pertag =
  pt_curtag :: nat
  pt_prevtag :: nat
  pt_nmasters :: "nat \<Rightarrow> int"
  pt_mfacts :: "nat \<Rightarrow> real"
  pt_sellts :: "nat \<Rightarrow> nat"
  pt_ltidxs :: "nat \<Rightarrow> nat \<Rightarrow> Layout"
  pt_showbars :: "nat \<Rightarrow> int"

record Monitor =
  m_ltsymbol :: string
  m_mfact :: real
  m_nmaster :: int
  m_num :: int
  m_by :: int
  m_ty :: int
  m_mx :: int
  m_my :: int
  m_mw :: int
  m_mh :: int
  m_wx :: int
  m_wy :: int
  m_ww :: int
  m_wh :: int
  m_gappih :: int
  m_gappiv :: int
  m_gappoh :: int
  m_gappov :: int
  m_seltags :: nat
  m_sellt :: nat
  m_tagset :: "nat \<Rightarrow> tagmask"
  m_showbar :: int
  m_showtab :: int
  m_topbar :: int
  m_toptab :: int
  m_clients :: "cid list"
  m_sel :: "cid option"
  m_stack :: "cid list"
  m_barwin :: window
  m_tabwin :: window
  m_lt :: "nat \<Rightarrow> Layout"
  m_pertag :: Pertag

record Rule =
  r_class :: "string option"
  r_instance :: "string option"
  r_title :: "string option"
  r_tags :: tagmask
  r_isfloating :: int
  r_isterminal :: int
  r_noswallow :: int
  r_monitor :: int

datatype wmstate = WithdrawnState | NormalState | IconicState

datatype xreq =
    XMapWindow window
  | XUnmapWindow window
  | XRaiseWindow window
  | XMoveWindow window int int
  | XMoveResizeWindow window int int int int
  | XConfigureWindow window int int int int int
  | XStackBelow window window
  | SetWMState window wmstate
  | SetNetWMState window bool

text \<open>
  \<open>XConfigureWindow w x y width height border\<close> is the request of \<^verbatim>\<open>resizeclient\<close>
  (mask \<^verbatim>\<open>CWX|CWY|CWWidth|CWHeight|CWBorderWidth\<close>), \<open>XStackBelow w sibling\<close> the one of
  \<^verbatim>\<open>restack\<close> (mask \<^verbatim>\<open>CWSibling|CWStackMode\<close>, mode \<^verbatim>\<open>Below\<close>), \<open>SetWMState\<close> the
  \<^verbatim>\<open>WM_STATE\<close> property written by \<^verbatim>\<open>setclientstate\<close>, and \<open>SetNetWMState w b\<close> the
  \<^verbatim>\<open>_NET_WM_STATE\<close> property written by \<^verbatim>\<open>setfullscreen\<close> (fullscreen atom when \<open>b\<close>,
  empty otherwise).
\<close>

record wm =
  g_clients :: "cid \<Rightarrow> Client"
  g_monitors :: "mid \<Rightarrow> Monitor"
  g_mons :: "mid list"
  g_selmon :: mid
  g_bh :: int
  g_th :: int
  g_sw :: int
  g_sh :: int
  g_enablegaps :: int
  g_xlog :: "xreq list"
  g_xtitle :: "window \<Rightarrow> string"
  g_xclass :: "window \<Rightarrow> string option \<times> string option"

subsection \<open>C arithmetic\<close>

definition u32 :: "int \<Rightarrow> int" where
  "u32 a = a mod 2 ^ 32"

definition s32 :: "int \<Rightarrow> int" where
  "s32 a = (a + 2 ^ 31) mod 2 ^ 32 - 2 ^ 31"

text \<open>Integer division and remainder of C99: the quotient is truncated towards zero.\<close>

definition c_div :: "int \<Rightarrow> int \<Rightarrow> int" where
  "c_div a b = sgn a * sgn b * (\<bar>a\<bar> div \<bar>b\<bar>)"

definition c_mod :: "int \<Rightarrow> int \<Rightarrow> int" where
  "c_mod a b = a - b * c_div a b"

definition ftoi :: "real \<Rightarrow> int" where
  "ftoi r = (if 0 \<le> r then \<lfloor>r\<rfloor> else \<lceil>r\<rceil>)"

definition b2i :: "bool \<Rightarrow> int" where
  "b2i b = (if b then 1 else 0)"

text \<open>
  Modelled from the spec: \<^verbatim>\<open>util.h\<close>, which defines the macros \<^verbatim>\<open>MIN\<close> and \<^verbatim>\<open>MAX\<close>, is not
  among the sources; they are the usual \<^verbatim>\<open>((A) < (B) ? (A) : (B))\<close> and
  \<^verbatim>\<open>((A) > (B) ? (A) : (B))\<close>.
\<close>

definition MIN_macro :: "'a::linorder \<Rightarrow> 'a \<Rightarrow> 'a" where
  "MIN_macro a b = (if a < b then a else b)"

definition MAX_macro :: "'a::linorder \<Rightarrow> 'a \<Rightarrow> 'a" where
  "MAX_macro a b = (if a > b then a else b)"

text \<open>\<^verbatim>\<open>LENGTH(tags)\<close> of config.h and \<^verbatim>\<open>TAGMASK = (1 << LENGTH(tags)) - 1\<close>.\<close>

definition NTAGS :: nat where
  "NTAGS = 25"

definition TAGMASK :: tagmask where
  "TAGMASK = push_bit NTAGS 1 - 1"

subsection \<open>Access to the store\<close>

definition xdo :: "xreq \<Rightarrow> wm \<Rightarrow> wm" where
  "xdo r s = s\<lparr>g_xlog := g_xlog s @ [r]\<rparr>"

definition upd_client :: "cid \<Rightarrow> (Client \<Rightarrow> Client) \<Rightarrow> wm \<Rightarrow> wm" where
  "upd_client c f s = s\<lparr>g_clients := (g_clients s)(c := f (g_clients s c))\<rparr>"

definition upd_mon :: "mid \<Rightarrow> (Monitor \<Rightarrow> Monitor) \<Rightarrow> wm \<Rightarrow> wm" where
  "upd_mon m f s = s\<lparr>g_monitors := (g_monitors s)(m := f (g_monitors s m))\<rparr>"

text \<open>The layout \<^verbatim>\<open>m -> lt[m -> sellt]\<close> and the tag set \<^verbatim>\<open>m -> tagset[m -> seltags]\<close>.\<close>

definition cur_lt :: "Monitor \<Rightarrow> Layout" where
  "cur_lt M = m_lt M (m_sellt M)"

definition cur_tagset :: "Monitor \<Rightarrow> tagmask" where
  "cur_tagset M = m_tagset M (m_seltags M)"

definition ISVISIBLE :: "wm \<Rightarrow> cid \<Rightarrow> bool" where
  "ISVISIBLE s c =
     (c_tags (g_clients s c) AND cur_tagset (g_monitors s (c_mon (g_clients s c))) \<noteq> 0)"

definition WIDTH :: "Client \<Rightarrow> int" where
  "WIDTH C = c_w C + 2 * c_bw C"

definition HEIGHT :: "Client \<Rightarrow> int" where
  "HEIGHT C = c_h C + 2 * c_bw C"

text \<open>
  \<^verbatim>\<open>nexttiled(c)\<close>: skip floating and invisible clients. The argument and the result are
  suffixes of a client list; the client found is the head of the result.
\<close>

definition nexttiled :: "wm \<Rightarrow> cid list \<Rightarrow> cid list" where
  "nexttiled s cs =
     dropWhile (\<lambda>c. c_isfloating (g_clients s c) \<noteq> 0 \<or> \<not> ISVISIBLE s c) cs"

text \<open>The counting loop \<^verbatim>\<open>for (n = 0, c = nexttiled(m -> clients); c; c = nexttiled(c -> next), n++);\<close>\<close>

definition ntiled :: "wm \<Rightarrow> cid list \<Rightarrow> nat" where
  "ntiled s cs =
     length (filter (\<lambda>c. \<not> (c_isfloating (g_clients s c) \<noteq> 0 \<or> \<not> ISVISIBLE s c)) cs)"

subsection \<open>Size hints and resizing\<close>

text \<open>
  The two aspect tests of \<^verbatim>\<open>applysizehints\<close> divide floats. With a zero divisor the C
  quotient is an infinity (or NaN for \<^verbatim>\<open>0/0\<close>), so \<^verbatim>\<open>a < (float)p / q\<close> holds exactly when
  \<open>p\<close> is positive.
\<close>

definition flt_lt_quot :: "real \<Rightarrow> int \<Rightarrow> int \<Rightarrow> bool" where
  "flt_lt_quot a p q = (if q = 0 then 0 < p else a < real_of_int p / real_of_int q)"

definition applysizehints ::
  "wm \<Rightarrow> cid \<Rightarrow> int \<Rightarrow> int \<Rightarrow> int \<Rightarrow> int \<Rightarrow> int \<Rightarrow> bool \<times> int \<times> int \<times> int \<times> int" where
  "applysizehints s c x0 y0 w0 h0 interact =
    (let C = g_clients s c;
         M = g_monitors s (c_mon C);
         w1 = MAX_macro 1 w0;
         h1 = MAX_macro 1 h0;
         (x, y) =
           (if interact \<noteq> 0 then
              (let x1 = (if x0 > g_sw s then g_sw s - WIDTH C else x0);
                   y1 = (if y0 > g_sh s then g_sh s - HEIGHT C else y0);
                   x2 = (if x1 + w1 + 2 * c_bw C < 0 then 0 else x1);
                   y2 = (if y1 + h1 + 2 * c_bw C < 0 then 0 else y1)
               in (x2, y2))
            else
              (let x1 = (if x0 \<ge> m_wx M + m_ww M then m_wx M + m_ww M - WIDTH C else x0);
                   y1 = (if y0 \<ge> m_wy M + m_wh M then m_wy M + m_wh M - HEIGHT C else y0);
                   x2 = (if x1 + w1 + 2 * c_bw C \<le> m_wx M then m_wx M else x1);
                   y2 = (if y1 + h1 + 2 * c_bw C \<le> m_wy M then m_wy M else y1)
               in (x2, y2)));
         h2 = (if h1 < g_bh s then g_bh s else h1);
         w2 = (if w1 < g_bh s then g_bh s else w1);
         (w, h) =
           (if c_isfloating C \<noteq> 0 \<or> lt_arrange (cur_lt M) = None then
              (let baseismin = (c_basew C = c_minw C \<and> c_baseh C = c_minh C);
                   w3 = (if \<not> baseismin then w2 - c_basew C else w2);
                   h3 = (if \<not> baseismin then h2 - c_baseh C else h2);
                   (w4, h4) =
                     (if c_mina C > 0 \<and> c_maxa C > 0 then
                        (if flt_lt_quot (c_maxa C) w3 h3
                           then (ftoi (real_of_int h3 * c_maxa C + 0.5), h3)
                         else if flt_lt_quot (c_mina C) h3 w3
                           then (w3, ftoi (real_of_int w3 * c_mina C + 0.5))
                         else (w3, h3))
                      else (w3, h3));
                   w5 = (if baseismin then w4 - c_basew C else w4);
                   h5 = (if baseismin then h4 - c_baseh C else h4);
                   w6 = (if c_incw C \<noteq> 0 then w5 - c_mod w5 (c_incw C) else w5);
                   h6 = (if c_inch C \<noteq> 0 then h5 - c_mod h5 (c_inch C) else h5);
                   w7 = MAX_macro (w6 + c_basew C) (c_minw C);
                   h7 = MAX_macro (h6 + c_baseh C) (c_minh C);
                   w8 = (if c_maxw C \<noteq> 0 then MIN_macro w7 (c_maxw C) else w7);
                   h8 = (if c_maxh C \<noteq> 0 then MIN_macro h7 (c_maxh C) else h7)
               in (w8, h8))
            else (w2, h2))
     in (x \<noteq> c_x C \<or> y \<noteq> c_y C \<or> w \<noteq> c_w C \<or> h \<noteq> c_h C, x, y, w, h))"

text \<open>
  \<^verbatim>\<open>resizeclient\<close>: the rectangle is stored, the old one saved. A client that is the only
  tiled one of its monitor, or any client under the monocle layout, loses its border when
  it is neither fullscreen nor floating: width and height grow by two border widths.
\<close>

definition resizeclient :: "cid \<Rightarrow> int \<Rightarrow> int \<Rightarrow> int \<Rightarrow> int \<Rightarrow> wm \<Rightarrow> wm" where
  "resizeclient c x y w h s =
    (let s1 = upd_client c (\<lambda>C. C\<lparr>c_oldx := c_x C, c_x := x, c_oldy := c_y C, c_y := y,
                                   c_oldw := c_w C, c_w := w, c_oldh := c_h C, c_h := h\<rparr>) s;
         C1 = g_clients s1 c;
         M = g_monitors s1 (c_mon C1);
         alone = (case nexttiled s1 (m_clients M) of
                    [] \<Rightarrow> False
                  | t # rest \<Rightarrow> t = c \<and> nexttiled s1 rest = []);
         noborder = ((alone \<or> lt_arrange (cur_lt M) = Some Monocle)
                     \<and> c_isfullscreen C1 = 0 \<and> c_isfloating C1 = 0);
         wc_width = (if noborder then w + c_bw C1 * 2 else w);
         wc_height = (if noborder then h + c_bw C1 * 2 else h);
         wc_border_width = (if noborder then 0 else c_bw C1);
         s2 = (if noborder then upd_client c (\<lambda>C. C\<lparr>c_w := wc_width, c_h := wc_height\<rparr>) s1
               else s1)
     in xdo (XConfigureWindow (c_win C1) x y wc_width wc_height wc_border_width) s2)"

definition resize :: "cid \<Rightarrow> int \<Rightarrow> int \<Rightarrow> int \<Rightarrow> int \<Rightarrow> int \<Rightarrow> wm \<Rightarrow> wm" where
  "resize c x y w h interact s =
    (case applysizehints s c x y w h interact of
       (changed, x', y', w', h') \<Rightarrow> if changed then resizeclient c x' y' w' h' s else s)"


subsection \<open>The loop over the tiled clients\<close>

text \<open>
  Every layout ends in a loop
  \<^verbatim>\<open>for (i = 0, c = nexttiled(m -> clients); c; c = nexttiled(c -> next), i++)\<close> whose body
  computes a rectangle from the loop variables and the client, calls \<^verbatim>\<open>resize\<close> on it and
  then advances the loop variables, reading the client's new size. \<open>tiled_loop body step\<close>
  is that loop: \<open>body\<close> is the part before the call of \<^verbatim>\<open>resize\<close> and yields the loop
  variables and the rectangle \<open>(x, y, w, h)\<close> passed to \<^verbatim>\<open>resize\<close>, \<open>step\<close> is the part
  after the call together with the increment.
\<close>

definition resize_rect :: "cid \<Rightarrow> int \<times> int \<times> int \<times> int \<Rightarrow> wm \<Rightarrow> wm" where
  "resize_rect c r s = (case r of (x, y, w, h) \<Rightarrow> resize c x y w h 0 s)"

function tiled_loop ::
  "('v \<Rightarrow> Client \<Rightarrow> 'v \<times> int \<times> int \<times> int \<times> int) \<Rightarrow> ('v \<Rightarrow> Client \<Rightarrow> 'v)
     \<Rightarrow> 'v \<Rightarrow> cid list \<Rightarrow> wm \<Rightarrow> wm" where
  "tiled_loop body step v cs s =
     (case nexttiled s cs of
        [] \<Rightarrow> s
      | c # rest \<Rightarrow>
          tiled_loop body step
            (step (fst (body v (g_clients s c)))
                  (g_clients (resize_rect c (snd (body v (g_clients s c))) s) c))
            rest
            (resize_rect c (snd (body v (g_clients s c))) s))"
  by pat_completeness auto

termination tiled_loop
proof (relation "measure (\<lambda>(body, step, v, cs, s). length cs)", goal_cases)
  case 1
  show ?case by simp
next
  case (2 body step v cs s c rest)
  have "length (nexttiled s cs) \<le> length cs"
    unfolding nexttiled_def by (rule length_dropWhile_le)
  with 2 show ?case by simp
qed

declare tiled_loop.simps [simp del]

subsection \<open>Gaps and factors\<close>

definition getgaps :: "wm \<Rightarrow> Monitor \<Rightarrow> int \<times> int \<times> int \<times> int \<times> nat" where
  "getgaps s M =
    (let n = ntiled s (m_clients M);
         ie = u32 (g_enablegaps s);
         oe = (if n = 1 then 0 else u32 (g_enablegaps s))
     in (s32 (m_gappoh M * oe), s32 (m_gappov M * oe),
         s32 (m_gappih M * ie), s32 (m_gappiv M * ie), n))"

text \<open>
  \<^verbatim>\<open>getfacts\<close>. The counter \<^verbatim>\<open>n\<close> is unsigned, so \<^verbatim>\<open>MIN(n, m -> nmaster)\<close>,
  \<^verbatim>\<open>n - m -> nmaster\<close> and \<^verbatim>\<open>n < m -> nmaster\<close> are computed in \<^verbatim>\<open>unsigned int\<close>; the two
  factors are floats and \<^verbatim>\<open>mtotal += msize / mfacts\<close> adds in float and truncates.
\<close>

definition getfacts :: "wm \<Rightarrow> Monitor \<Rightarrow> int \<Rightarrow> int \<Rightarrow> real \<times> real \<times> int \<times> int" where
  "getfacts s M msize ssize =
    (let n = ntiled s (m_clients M);
         mfacts = real_of_int (MIN_macro (int n) (u32 (m_nmaster M)));
         sfacts = real_of_int (u32 (int n - m_nmaster M));
         (mtotal, stotal) =
           foldl (\<lambda>(mtotal, stotal) i.
                    if int i < u32 (m_nmaster M)
                    then (ftoi (real_of_int mtotal + real_of_int msize / mfacts), stotal)
                    else (mtotal, ftoi (real_of_int stotal + real_of_int ssize / sfacts)))
                 (0, 0) [0..<n]
     in (mfacts, sfacts, msize - mtotal, ssize - stotal))"

text \<open>The test \<^verbatim>\<open>m -> nmaster && n > m -> nmaster\<close> of the layouts.\<close>

definition has_stack :: "Monitor \<Rightarrow> nat \<Rightarrow> bool" where
  "has_stack M n = (m_nmaster M \<noteq> 0 \<and> int n > u32 (m_nmaster M))"

text \<open>
  The height (or width) \<^verbatim>\<open>(size / facts) + (cond ? 1 : 0) - (2 * c -> bw)\<close> that a layout
  passes to \<^verbatim>\<open>resize\<close>: a float expression, truncated by the conversion to the \<^verbatim>\<open>int\<close>
  parameter.
\<close>

definition share :: "int \<Rightarrow> real \<Rightarrow> bool \<Rightarrow> int \<Rightarrow> int" where
  "share sz facts extra bw =
     ftoi (real_of_int sz / facts + real_of_int (b2i extra) - real_of_int (2 * bw))"

subsection \<open>Layouts\<close>

text \<open>Decimal output of \<^verbatim>\<open>%d\<close>.\<close>

fun digits :: "nat \<Rightarrow> string" where
  "digits n =
     (if n < 10 then [char_of (48 + n)] else digits (n div 10) @ [char_of (48 + n mod 10)])"

declare digits.simps [simp del]

definition itoa :: "int \<Rightarrow> string" where
  "itoa i = (if i < 0 then CHR ''-'' # digits (nat (- i)) else digits (nat i))"

text \<open>
  The body of the loop of \<^verbatim>\<open>tile\<close> up to the call of \<^verbatim>\<open>resize\<close>: the rectangle of the
  \<open>i\<close>-th tiled client, a master when \<^verbatim>\<open>i < m -> nmaster\<close>.
\<close>

fun tile_body ::
  "int \<Rightarrow> int \<times> int \<times> int \<times> int \<times> int \<times> int \<Rightarrow> real \<times> real \<times> int \<times> int
     \<Rightarrow> nat \<times> int \<times> int \<Rightarrow> Client \<Rightarrow> (nat \<times> int \<times> int) \<times> int \<times> int \<times> int \<times> int" where
  "tile_body nmaster (mx, mw, mh, sx, sw, sh) (mfacts, sfacts, mrest, srest) (i, my, sy) C =
     (if int i < u32 nmaster
      then ((i, my, sy), mx, my, mw - 2 * c_bw C,
            share mh mfacts (int i < u32 mrest) (c_bw C))
      else ((i, my, sy), sx, sy, sw - 2 * c_bw C,
            share sh sfacts (u32 (int i - nmaster) < u32 srest) (c_bw C)))"

definition tile :: "mid \<Rightarrow> wm \<Rightarrow> wm" where
  "tile m s =
    (let M = g_monitors s m in
     case getgaps s M of (oh, ov, ih, iv, n) \<Rightarrow>
     if n = 0 then s
     else
      (let mx = m_wx M + ov;
           my = m_wy M + oh;
           mh = s32 (m_wh M - 2 * oh - ih * (MIN_macro (int n) (u32 (m_nmaster M)) - 1));
           sh = s32 (m_wh M - 2 * oh - ih * (int n - m_nmaster M - 1));
           mw0 = m_ww M - 2 * ov;
           sw = (if has_stack M n then ftoi (real_of_int (mw0 - iv) * (1 - m_mfact M)) else mw0);
           mw = (if has_stack M n then mw0 - iv - sw else mw0);
           sx = (if has_stack M n then mx + mw + iv else mx)
       in tiled_loop
            (tile_body (m_nmaster M) (mx, mw, mh, sx, sw, sh) (getfacts s M mh sh))
            (\<lambda>(i, my, sy) C.
               if int i < u32 (m_nmaster M) then (i + 1, my + HEIGHT C + ih, sy)
               else (i + 1, my, sy + HEIGHT C + ih))
            (0::nat, my, my) (m_clients M) s))"

definition deck :: "mid \<Rightarrow> wm \<Rightarrow> wm" where
  "deck m s =
    (let M = g_monitors s m in
     case getgaps s M of (oh, ov, ih, iv, n) \<Rightarrow>
     if n = 0 then s
     else
      (let mx = m_wx M + ov;
           my = m_wy M + oh;
           mh = s32 (m_wh M - 2 * oh - ih * (MIN_macro (int n) (u32 (m_nmaster M)) - 1));
           mw0 = m_ww M - 2 * ov;
           sw = (if has_stack M n then ftoi (real_of_int (mw0 - iv) * (1 - m_mfact M)) else mw0);
           mw = (if has_stack M n then mw0 - iv - sw else mw0);
           sx = (if has_stack M n then mx + mw + iv else mx);
           sh = (if has_stack M n then m_wh M - 2 * oh else mh)
       in case getfacts s M mh sh of (mfacts, sfacts, mrest, srest) \<Rightarrow>
          tiled_loop
            (\<lambda>(i, my) C.
               if int i < u32 (m_nmaster M)
               then ((i, my), mx, my, mw - 2 * c_bw C,
                     share mh mfacts (int i < u32 mrest) (c_bw C))
               else ((i, my), sx, m_wy M + oh, sw - 2 * c_bw C, sh - 2 * c_bw C))
            (\<lambda>(i, my) C.
               if int i < u32 (m_nmaster M) then (i + 1, my + HEIGHT C + ih)
               else (i + 1, my))
            (0::nat, my) (m_clients M)
            (if u32 (int n - m_nmaster M) > 0
             then upd_mon m (\<lambda>M. M\<lparr>m_ltsymbol :=
                    take 15 (''[D '' @ itoa (s32 (int n - m_nmaster M)) @ '']'')\<rparr>) s
             else s)))"

definition monocle :: "mid \<Rightarrow> wm \<Rightarrow> wm" where
  "monocle m s =
    (let M = g_monitors s m;
         n = length (filter (ISVISIBLE s) (m_clients M))
     in tiled_loop
          (\<lambda>(u::unit) C. (u, m_wx M, m_wy M, m_ww M - 2 * c_bw C, m_wh M - 2 * c_bw C))
          (\<lambda>u C. u)
          () (m_clients M)
          (if n > 0
           then upd_mon m (\<lambda>M. M\<lparr>m_ltsymbol := take 15 (''[M '' @ itoa (s32 (int n)) @ '']'')\<rparr>) s
           else s))"

definition bstack :: "mid \<Rightarrow> wm \<Rightarrow> wm" where
  "bstack m s =
    (let M = g_monitors s m in
     case getgaps s M of (oh, ov, ih, iv, n) \<Rightarrow>
     if n = 0 then s
     else
      (let mx = m_wx M + ov;
           my = m_wy M + oh;
           mh0 = m_wh M - 2 * oh;
           mw = s32 (m_ww M - 2 * ov - iv * (MIN_macro (int n) (u32 (m_nmaster M)) - 1));
           sw = s32 (m_ww M - 2 * ov - iv * (int n - m_nmaster M - 1));
           sh = (if has_stack M n then ftoi (real_of_int (mh0 - ih) * (1 - m_mfact M)) else mh0);
           mh = (if has_stack M n then mh0 - ih - sh else mh0);
           sy = (if has_stack M n then my + mh + ih else my)
       in case getfacts s M mw sw of (mfacts, sfacts, mrest, srest) \<Rightarrow>
          tiled_loop
            (\<lambda>(i, mx, sx) C.
               if int i < u32 (m_nmaster M)
               then ((i, mx, sx), mx, my, share mw mfacts (int i < u32 mrest) (c_bw C),
                     mh - 2 * c_bw C)
               else ((i, mx, sx), sx, sy,
                     share sw sfacts (u32 (int i - m_nmaster M) < u32 srest) (c_bw C),
                     sh - 2 * c_bw C))
            (\<lambda>(i, mx, sx) C.
               if int i < u32 (m_nmaster M) then (i + 1, mx + WIDTH C + iv, sx)
               else (i + 1, mx, sx + WIDTH C + iv))
            (0::nat, mx, mx) (m_clients M) s))"

definition bstackhoriz :: "mid \<Rightarrow> wm \<Rightarrow> wm" where
  "bstackhoriz m s =
    (let M = g_monitors s m in
     case getgaps s M of (oh, ov, ih, iv, n) \<Rightarrow>
     if n = 0 then s
     else
      (let mx = m_wx M + ov;
           my = m_wy M + oh;
           mh0 = m_wh M - 2 * oh;
           mw = s32 (m_ww M - 2 * ov - iv * (MIN_macro (int n) (u32 (m_nmaster M)) - 1));
           sw = m_ww M - 2 * ov;
           mh = (if has_stack M n
                 then mh0 - ih - ftoi (real_of_int (mh0 - ih) * (1 - m_mfact M)) else mh0);
           sy = (if has_stack M n then my + mh + ih else my);
           sh = (if has_stack M n
                 then s32 (m_wh M - mh - 2 * oh - ih * (int n - m_nmaster M))
                 else s32 (m_wh M - 2 * oh - ih * (int n - m_nmaster M - 1)))
       in case getfacts s M mw sh of (mfacts, sfacts, mrest, srest) \<Rightarrow>
          tiled_loop
            (\<lambda>(i, mx, sy) C.
               if int i < u32 (m_nmaster M)
               then ((i, mx, sy), mx, my, share mw mfacts (int i < u32 mrest) (c_bw C),
                     mh - 2 * c_bw C)
               else ((i, mx, sy), m_wx M + ov, sy, sw - 2 * c_bw C,
                     share sh sfacts (u32 (int i - m_nmaster M) < u32 srest) (c_bw C)))
            (\<lambda>(i, mx, sy) C.
               if int i < u32 (m_nmaster M) then (i + 1, mx + WIDTH C + iv, sy)
               else (i + 1, mx, sy + HEIGHT C + ih))
            (0::nat, mx, sy) (m_clients M) s))"


text \<open>
  \<^verbatim>\<open>centeredmaster\<close>. The three loops over the tiled clients that precede the resizing loop
  do not change the state; they run over the indices \<open>0..<n\<close>.
\<close>

definition centeredmaster :: "mid \<Rightarrow> wm \<Rightarrow> wm" where
  "centeredmaster m s =
    (let M = g_monitors s m in
     case getgaps s M of (oh, ov, ih, iv, n) \<Rightarrow>
     if n = 0 then s
     else
      (let nm = m_nmaster M;
           ns = u32 (int n - nm);
           my = m_wy M + oh;
           mh = s32 (m_wh M - 2 * oh
                     - ih * ((if nm = 0 then int n else MIN_macro (int n) (u32 nm)) - 1));
           mw0 = m_ww M - 2 * ov;
           lh = s32 (m_wh M - 2 * oh - ih * (ns div 2 - 1));
           rh = s32 (m_wh M - 2 * oh - ih * (ns div 2 - (if ns mod 2 \<noteq> 0 then 0 else 1)));
           mw = (if has_stack M n
                 then (if ns > 1 then ftoi (real_of_int (m_ww M - 2 * ov - 2 * iv) * m_mfact M)
                       else ftoi (real_of_int (mw0 - iv) * m_mfact M))
                 else mw0);
           lw = (if has_stack M n \<and> ns > 1 then c_div (m_ww M - mw - 2 * ov - 2 * iv) 2 else 0);
           rw = (if has_stack M n
                 then (if ns > 1 then (m_ww M - mw - 2 * ov - 2 * iv) - lw
                       else m_ww M - mw - iv - 2 * ov)
                 else 0);
           mx = (if has_stack M n \<and> ns > 1 then m_wx M + ov + (lw + iv) else m_wx M + ov);
           lx = (if has_stack M n then m_wx M + ov else 0);
           ly = (if has_stack M n then m_wy M + oh else 0);
           rx = (if has_stack M n then mx + mw + iv else 0);
           ry = (if has_stack M n then m_wy M + oh else 0);
           ismaster = (\<lambda>i::nat. nm = 0 \<or> int i < u32 nm);
           isleft = (\<lambda>i::nat. u32 (int i - nm) mod 2 \<noteq> 0);
           (mfacts, lfacts, rfacts) =
             foldl (\<lambda>(mf, lf, rf) i.
                      if ismaster i then (mf + 1, lf, rf)
                      else if isleft i then (mf, lf + 1, rf)
                      else (mf, lf, rf + 1))
                   (0::real, 0::real, 0::real) [0..<n];
           (mtotal, ltotal, rtotal) =
             foldl (\<lambda>(mt, lt, rt) i.
                      if ismaster i then (ftoi (real_of_int mt + real_of_int mh / mfacts), lt, rt)
                      else if isleft i
                        then (mt, ftoi (real_of_int lt + real_of_int lh / lfacts), rt)
                      else (mt, lt, ftoi (real_of_int rt + real_of_int rh / rfacts)))
                   (0::int, 0::int, 0::int) [0..<n];
           mrest = mh - mtotal;
           lrest = lh - ltotal;
           rrest = rh - rtotal
       in tiled_loop
            (\<lambda>(i, my, ly, ry) C.
               if ismaster i
               then ((i, my, ly, ry), mx, my, mw - 2 * c_bw C,
                     share mh mfacts (int i < u32 mrest) (c_bw C))
               else if isleft i
               then ((i, my, ly, ry), lx, ly, lw - 2 * c_bw C,
                     share lh lfacts (u32 (int i - 2 * nm) < u32 (2 * lrest)) (c_bw C))
               else ((i, my, ly, ry), rx, ry, rw - 2 * c_bw C,
                     share rh rfacts (u32 (int i - 2 * nm) < u32 (2 * rrest)) (c_bw C)))
            (\<lambda>(i, my, ly, ry) C.
               if ismaster i then (i + 1, my + HEIGHT C + ih, ly, ry)
               else if isleft i then (i + 1, my, ly + HEIGHT C + ih, ry)
               else (i + 1, my, ly, ry + HEIGHT C + ih))
            (0::nat, my, ly, ry) (m_clients M) s))"

text \<open>
  \<^verbatim>\<open>fibonacci(m, s)\<close>: the loop variables are \<^verbatim>\<open>i, nx, ny, nw, nh, hrest, wrest, r\<close>; the
  counter \<^verbatim>\<open>i\<close> advances only while \<^verbatim>\<open>r\<close> is set.
\<close>

definition fibonacci_body ::
  "wm \<Rightarrow> Monitor \<Rightarrow> int \<Rightarrow> int \<times> int \<times> int \<times> int \<times> nat
     \<Rightarrow> nat \<times> int \<times> int \<times> int \<times> int \<times> int \<times> int \<times> bool \<Rightarrow> Client
     \<Rightarrow> (nat \<times> int \<times> int \<times> int \<times> int \<times> int \<times> int \<times> bool) \<times> int \<times> int \<times> int \<times> int" where
  "fibonacci_body s M sflag gaps v C =
    (case gaps of (oh, ov, ih, iv, n) \<Rightarrow>
     case v of (i, nx, ny, nw, nh, hrest, wrest, r) \<Rightarrow>
     if \<not> r then (v, nx, ny, nw - 2 * c_bw C, nh - 2 * c_bw C)
     else
      (let r1 = \<not> ((i mod 2 \<noteq> 0 \<and> c_div (nh - ih) 2 \<le> g_bh s + 2 * c_bw C)
                    \<or> (i mod 2 = 0 \<and> c_div (nw - iv) 2 \<le> g_bh s + 2 * c_bw C));
           cut = (r1 \<and> int i < u32 (int n - 1));
           hrest1 = (if cut \<and> i mod 2 \<noteq> 0 then nh - 2 * c_div (nh - ih) 2 - ih else hrest);
           nh1 = (if cut \<and> i mod 2 \<noteq> 0 then c_div (nh - ih) 2 else nh);
           wrest1 = (if cut \<and> i mod 2 = 0 then nw - 2 * c_div (nw - iv) 2 - iv else wrest);
           nw1 = (if cut \<and> i mod 2 = 0 then c_div (nw - iv) 2 else nw);
           nx1 = (if cut \<and> i mod 4 = 2 \<and> sflag = 0 then nx + (nw1 + iv) else nx);
           ny1 = (if cut \<and> \<not> (i mod 4 = 2 \<and> sflag = 0) \<and> i mod 4 = 3 \<and> sflag = 0
                  then ny + (nh1 + ih) else ny);
           (nx2, ny2, nw2, nh2) =
             (if i mod 4 = 0 then
                (if sflag \<noteq> 0 then (nx1, ny1 + (nh1 + ih), nw1, nh1 + hrest1)
                 else (nx1, ny1 - ((nh1 - hrest1) + ih), nw1, nh1 - hrest1))
              else if i mod 4 = 1 then (nx1 + (nw1 + iv), ny1, nw1 + wrest1, nh1)
              else if i mod 4 = 2 then
                (nx1, ny1 + (nh1 + ih),
                 (if int i < u32 (int n - 1) then nw1 + wrest1 else nw1), nh1 + hrest1)
              else
                (if sflag \<noteq> 0 then (nx1 + (nw1 + iv), ny1, nw1 - wrest1, nh1)
                 else (nx1 - ((nw1 - wrest1) + iv), ny1, nw1 - wrest1, nh1 + hrest1)));
           nw3 = (if i = 0 then
                    (if n \<noteq> 1
                     then ftoi (real_of_int (m_ww M - iv - 2 * ov)
                                - real_of_int (m_ww M - iv - 2 * ov) * (1 - m_mfact M))
                     else nw2)
                  else if i = 1 then m_ww M - nw2 - iv - 2 * ov
                  else nw2);
           wrest3 = (if i = 0 \<and> n \<noteq> 1 then 0 else wrest1);
           ny3 = (if i = 0 then m_wy M + oh else ny2)
       in ((i + 1, nx2, ny3, nw3, nh2, hrest1, wrest3, r1),
           nx2, ny3, nw3 - 2 * c_bw C, nh2 - 2 * c_bw C)))"

definition fibonacci :: "mid \<Rightarrow> int \<Rightarrow> wm \<Rightarrow> wm" where
  "fibonacci m sflag s =
    (let M = g_monitors s m in
     case getgaps s M of (oh, ov, ih, iv, n) \<Rightarrow>
     if n = 0 then s
     else tiled_loop (fibonacci_body s M sflag (oh, ov, ih, iv, n)) (\<lambda>v C. v)
            (0::nat, m_wx M + ov, m_wy M + oh, m_ww M - 2 * ov, m_wh M - 2 * oh, 0, 0, True)
            (m_clients M) s)"

definition dwindle :: "mid \<Rightarrow> wm \<Rightarrow> wm" where
  "dwindle m s = fibonacci m 1 s"

definition spiral :: "mid \<Rightarrow> wm \<Rightarrow> wm" where
  "spiral m s = fibonacci m 0 s"

text \<open>
  The search \<^verbatim>\<open>for (rows = 0; rows <= n / 2; rows++) if (rows * rows >= n) break;\<close> of the
  grid layouts.
\<close>

function grid_dim :: "nat \<Rightarrow> nat \<Rightarrow> nat" where
  "grid_dim n rows =
     (if rows \<le> n div 2 then (if rows * rows \<ge> n then rows else grid_dim n (rows + 1))
      else rows)"
  by pat_completeness auto

termination grid_dim
  by (relation "measure (\<lambda>(n, rows). n div 2 + 1 - rows)") auto

declare grid_dim.simps [simp del]

definition grid :: "mid \<Rightarrow> wm \<Rightarrow> wm" where
  "grid m s =
    (let M = g_monitors s m in
     case getgaps s M of (oh, ov, ih, iv, n) \<Rightarrow>
      (let rows = int (grid_dim n 0);
           cols = (if rows \<noteq> 0 \<and> u32 ((rows - 1) * rows) \<ge> int n then rows - 1 else rows);
           ch = c_div (m_wh M - 2 * oh - ih * (rows - 1)) (if rows \<noteq> 0 then rows else 1);
           cw = c_div (m_ww M - 2 * ov - iv * (cols - 1)) (if cols \<noteq> 0 then cols else 1);
           chrest = (m_wh M - 2 * oh - ih * (rows - 1)) - ch * rows;
           cwrest = (m_ww M - 2 * ov - iv * (cols - 1)) - cw * cols
       in tiled_loop
            (\<lambda>i C.
               (let cc = s32 (int i div u32 rows);
                    cr = s32 (int i mod u32 rows);
                    cx = m_wx M + ov + cc * (cw + iv) + MIN_macro cc cwrest;
                    cy = m_wy M + oh + cr * (ch + ih) + MIN_macro cr chrest
                in (i, cx, cy, cw + b2i (cc < cwrest) - 2 * c_bw C,
                    ch + b2i (cr < chrest) - 2 * c_bw C)))
            (\<lambda>i C. i + 1)
            (0::nat) (m_clients M) s))"

definition horizgrid :: "mid \<Rightarrow> wm \<Rightarrow> wm" where
  "horizgrid m s =
    (let M = g_monitors s m in
     case getgaps s M of (oh, ov, ih, iv, n) \<Rightarrow>
     if n = 0 then s
     else
      (let ntop = (if n \<le> 2 then s32 (int n) else s32 (int n div 2));
           nbottom = (if n \<le> 2 then 1 else s32 (int n - ntop));
           mx = m_wx M + ov;
           my = m_wy M + oh;
           mh0 = m_wh M - 2 * oh;
           mw0 = m_ww M - 2 * ov;
           two = (int n > u32 ntop);
           sh = (if two then c_div (mh0 - ih) 2 else mh0);
           mh = (if two then mh0 - ih - sh else mh0);
           sy = (if two then my + mh + ih else my);
           mw = (if two then m_ww M - 2 * ov - iv * (ntop - 1) else mw0);
           sw = (if two then m_ww M - 2 * ov - iv * (nbottom - 1) else mw0);
           mfacts = real_of_int ntop;
           sfacts = real_of_int nbottom;
           mrest = mw - c_div mw ntop * ntop;
           srest = sw - c_div sw nbottom * nbottom
       in tiled_loop
            (\<lambda>(i, mx, sx) C.
               if int i < u32 ntop
               then ((i, mx, sx), mx, my, share mw mfacts (int i < u32 mrest) (c_bw C),
                     mh - 2 * c_bw C)
               else ((i, mx, sx), sx, sy,
                     share sw sfacts (u32 (int i - ntop) < u32 srest) (c_bw C),
                     sh - 2 * c_bw C))
            (\<lambda>(i, mx, sx) C.
               if int i < u32 ntop then (i + 1, mx + WIDTH C + iv, sx)
               else (i + 1, mx, sx + WIDTH C + iv))
            (0::nat, mx, mx) (m_clients M) s))"

text \<open>
  \<^verbatim>\<open>gaplessgrid\<close>: the loop variables are \<^verbatim>\<open>i, x, rows, ch, rrest, cn, rn\<close>; the horizontal
  advance adds \<^verbatim>\<open>ih\<close>, as the source does.
\<close>

definition gaplessgrid :: "mid \<Rightarrow> wm \<Rightarrow> wm" where
  "gaplessgrid m s =
    (let M = g_monitors s m in
     case getgaps s M of (oh, ov, ih, iv, n) \<Rightarrow>
     if n = 0 then s
     else
      (let cols = (if n = 5 then 2 else int (grid_dim n 0));
           rows0 = s32 (int n div u32 cols);
           ch0 = c_div (m_wh M - 2 * oh - ih * (rows0 - 1)) rows0;
           cw = c_div (m_ww M - 2 * ov - iv * (cols - 1)) cols;
           rrest0 = (m_wh M - 2 * oh - ih * (rows0 - 1)) - ch0 * rows0;
           crest = (m_ww M - 2 * ov - iv * (cols - 1)) - cw * cols;
           y = m_wy M + oh
       in tiled_loop
            (\<lambda>(i, x, rows, ch, rrest, cn, rn) C.
               (let more = (u32 (int i div u32 rows + 1) > u32 (cols - int n mod u32 cols));
                    rows1 = (if more then s32 (int n div u32 cols + 1) else rows);
                    ch1 = (if more then c_div (m_wh M - 2 * oh - ih * (rows1 - 1)) rows1 else ch);
                    rrest1 = (if more then (m_wh M - 2 * oh - ih * (rows1 - 1)) - ch1 * rows1
                              else rrest)
                in ((i, x, rows1, ch1, rrest1, cn, rn),
                    x, y + rn * (ch1 + ih) + MIN_macro rn rrest1,
                    cw + b2i (cn < crest) - 2 * c_bw C,
                    ch1 + b2i (rn < rrest1) - 2 * c_bw C)))
            (\<lambda>(i, x, rows, ch, rrest, cn, rn) C.
               if rn + 1 \<ge> rows
               then (i + 1, x + cw + ih + b2i (cn < crest), rows, ch, rrest, cn + 1, 0)
               else (i + 1, x, rows, ch, rrest, cn, rn + 1))
            (0::nat, m_wx M + ov, rows0, ch0, rrest0, 0::int, 0::int) (m_clients M) s))"

text \<open>
  \<^verbatim>\<open>centeredfloatingmaster\<close>: \<^verbatim>\<open>mivf\<close> is a float, so the master's \<^verbatim>\<open>mx\<close> advances in float
  and is truncated.
\<close>

definition centeredfloatingmaster :: "mid \<Rightarrow> wm \<Rightarrow> wm" where
  "centeredfloatingmaster m s =
    (let M = g_monitors s m in
     case getgaps s M of (oh, ov, ih, iv, n) \<Rightarrow>
     if n = 0 then s
     else
      (let nm = m_nmaster M;
           mivf = (if has_stack M n then 0.8 else 1.0 :: real);
           kmin = real_of_int (u32 (MIN_macro (int n) (u32 nm) - 1));
           sy = m_wy M + oh;
           sh = m_wh M - 2 * oh;
           mw = (if has_stack M n
                 then (if m_ww M > m_wh M
                       then ftoi (real_of_int (m_ww M) * m_mfact M - real_of_int iv * mivf * kmin)
                       else ftoi (real_of_int (m_ww M) * 0.9 - real_of_int iv * mivf * kmin))
                 else s32 (m_ww M - 2 * ov - iv * (int n - 1)));
           mh = (if has_stack M n
                 then (if m_ww M > m_wh M then ftoi (real_of_int (m_wh M) * 0.9)
                       else ftoi (real_of_int (m_wh M) * m_mfact M))
                 else m_wh M - 2 * oh);
           sw = s32 (m_ww M - 2 * ov - iv * (int n - nm - 1));
           mx = (if has_stack M n then m_wx M + c_div (m_ww M - mw) 2 else m_wx M + ov);
           my = (if has_stack M n then m_wy M + c_div (m_wh M - mh - 2 * oh) 2 else m_wy M + oh)
       in case getfacts s M mw sw of (mfacts, sfacts, mrest, srest) \<Rightarrow>
          tiled_loop
            (\<lambda>(i, mx, sx) C.
               if int i < u32 nm
               then ((i, mx, sx), mx, my, share mw mfacts (int i < u32 mrest) (c_bw C),
                     mh - 2 * c_bw C)
               else ((i, mx, sx), sx, sy,
                     share sw sfacts (u32 (int i - nm) < u32 srest) (c_bw C),
                     sh - 2 * c_bw C))
            (\<lambda>(i, mx, sx) C.
               if int i < u32 nm
               then (i + 1, ftoi (real_of_int mx + (real_of_int (WIDTH C) + real_of_int iv * mivf)), sx)
               else (i + 1, mx, sx + WIDTH C + iv))
            (0::nat, mx, m_wx M + ov) (m_clients M) s))"


subsection \<open>Arranging a monitor\<close>

definition updatebarpos :: "mid \<Rightarrow> wm \<Rightarrow> wm" where
  "updatebarpos m s =
    (let M = g_monitors s m;
         bh = g_bh s;
         th = g_th s;
         wy0 = m_my M;
         wh0 = m_mh M;
         wh1 = (if m_showbar M \<noteq> 0 then wh0 - bh else wh0);
         by' = (if m_showbar M \<noteq> 0 then (if m_topbar M \<noteq> 0 then wy0 else wy0 + wh1) else - bh);
         wy1 = (if m_showbar M \<noteq> 0 \<and> m_topbar M \<noteq> 0 then wy0 + bh else wy0);
         nvis = length (filter (ISVISIBLE s) (m_clients M));
         tabs = (nvis > 1 \<and> lt_arrange (cur_lt M) = Some Monocle);
         wh2 = (if tabs then wh1 - th else wh1);
         ty' = (if tabs then (if m_toptab M \<noteq> 0 then wy1 else wy1 + wh2) else - th);
         wy2 = (if tabs \<and> m_toptab M \<noteq> 0 then wy1 + th else wy1)
     in upd_mon m (\<lambda>M. M\<lparr>m_wy := wy2, m_wh := wh2, m_by := by', m_ty := ty'\<rparr>) s)"

text \<open>
  \<^verbatim>\<open>showhide\<close> walks the focus stack: visible clients are shown top down, hidden ones are
  moved off screen bottom up, after the recursive call.
\<close>

fun showhide :: "cid list \<Rightarrow> wm \<Rightarrow> wm" where
  "showhide [] s = s"
| "showhide (c # snext) s =
     (if ISVISIBLE s c then
        (let C = g_clients s c;
             M = g_monitors s (c_mon C);
             s1 = xdo (XMoveWindow (c_win C) (c_x C) (c_y C)) s;
             s2 = (if (lt_arrange (cur_lt M) = None \<or> c_isfloating C \<noteq> 0)
                      \<and> c_isfullscreen C = 0
                   then resize c (c_x C) (c_y C) (c_w C) (c_h C) 0 s1 else s1)
         in showhide snext s2)
      else
        (let s1 = showhide snext s;
             C = g_clients s1 c
         in xdo (XMoveWindow (c_win C) (WIDTH C * - 2) (c_y C)) s1))"

definition call_arrange :: "arrange_fn \<Rightarrow> mid \<Rightarrow> wm \<Rightarrow> wm" where
  "call_arrange f m s =
    (case f of
       Centeredmaster \<Rightarrow> centeredmaster m s
     | Monocle \<Rightarrow> monocle m s
     | Tile \<Rightarrow> tile m s
     | Deck \<Rightarrow> deck m s
     | Dwindle \<Rightarrow> dwindle m s
     | Spiral \<Rightarrow> spiral m s
     | Grid \<Rightarrow> grid m s
     | Horizgrid \<Rightarrow> horizgrid m s
     | Gaplessgrid \<Rightarrow> gaplessgrid m s
     | Bstack \<Rightarrow> bstack m s
     | Bstackhoriz \<Rightarrow> bstackhoriz m s
     | Centeredfloatingmaster \<Rightarrow> centeredfloatingmaster m s)"

definition arrangemon :: "mid \<Rightarrow> wm \<Rightarrow> wm" where
  "arrangemon m s =
    (let s1 = updatebarpos m s;
         M1 = g_monitors s1 m;
         s2 = xdo (XMoveResizeWindow (m_tabwin M1) (m_wx M1) (m_ty M1) (m_ww M1) (g_th s1)) s1;
         s3 = upd_mon m (\<lambda>M. M\<lparr>m_ltsymbol := take 16 (lt_symbol (cur_lt M))\<rparr>) s2
     in case lt_arrange (cur_lt (g_monitors s3 m)) of
          None \<Rightarrow> s3
        | Some f \<Rightarrow> call_arrange f m s3)"

text \<open>The loop of \<^verbatim>\<open>restack\<close> that chains the tiled windows below the bar.\<close>

fun restack_below :: "window \<Rightarrow> cid list \<Rightarrow> wm \<Rightarrow> wm" where
  "restack_below sibling [] s = s"
| "restack_below sibling (c # snext) s =
     (if c_isfloating (g_clients s c) = 0 \<and> ISVISIBLE s c
      then restack_below (c_win (g_clients s c)) snext
             (xdo (XStackBelow (c_win (g_clients s c)) sibling) s)
      else restack_below sibling snext s)"

definition restack :: "mid \<Rightarrow> wm \<Rightarrow> wm" where
  "restack m s =
    (let M = g_monitors s m in
     case m_sel M of
       None \<Rightarrow> s
     | Some sel \<Rightarrow>
        (let s1 = (if c_isfloating (g_clients s sel) \<noteq> 0 \<or> lt_arrange (cur_lt M) = None
                   then xdo (XRaiseWindow (c_win (g_clients s sel))) s else s)
         in if lt_arrange (cur_lt M) \<noteq> None
            then restack_below (m_barwin M) (m_stack M) s1 else s1))"

definition arrange :: "mid option \<Rightarrow> wm \<Rightarrow> wm" where
  "arrange mo s =
    (case mo of
       Some m \<Rightarrow> restack m (arrangemon m (showhide (m_stack (g_monitors s m)) s))
     | None \<Rightarrow>
         fold arrangemon (g_mons s)
           (fold (\<lambda>m s'. showhide (m_stack (g_monitors s' m)) s') (g_mons s) s))"

subsection \<open>Client lists and focus\<close>

definition attach :: "cid \<Rightarrow> wm \<Rightarrow> wm" where
  "attach c s = upd_mon (c_mon (g_clients s c)) (\<lambda>M. M\<lparr>m_clients := c # m_clients M\<rparr>) s"

definition attachstack :: "cid \<Rightarrow> wm \<Rightarrow> wm" where
  "attachstack c s = upd_mon (c_mon (g_clients s c)) (\<lambda>M. M\<lparr>m_stack := c # m_stack M\<rparr>) s"

definition detach :: "cid \<Rightarrow> wm \<Rightarrow> wm" where
  "detach c s = upd_mon (c_mon (g_clients s c)) (\<lambda>M. M\<lparr>m_clients := remove1 c (m_clients M)\<rparr>) s"

text \<open>
  \<^verbatim>\<open>detachstack\<close>: unlink, and when the client was selected, select the first visible
  client left on the stack.
\<close>

definition detachstack :: "cid \<Rightarrow> wm \<Rightarrow> wm" where
  "detachstack c s =
    (let m = c_mon (g_clients s c);
         s1 = upd_mon m (\<lambda>M. M\<lparr>m_stack := remove1 c (m_stack M)\<rparr>) s
     in if m_sel (g_monitors s1 m) = Some c
        then upd_mon m (\<lambda>M. M\<lparr>m_sel := find (ISVISIBLE s1) (m_stack M)\<rparr>) s1
        else s1)"

definition seturgent :: "cid \<Rightarrow> int \<Rightarrow> wm \<Rightarrow> wm" where
  "seturgent c urg s = upd_client c (\<lambda>C. C\<lparr>c_isurgent := urg\<rparr>) s"

definition setclientstate :: "cid \<Rightarrow> wmstate \<Rightarrow> wm \<Rightarrow> wm" where
  "setclientstate c st s = xdo (SetWMState (c_win (g_clients s c)) st) s"

text \<open>
  \<^verbatim>\<open>updatetitle\<close>: \<open>g_xtitle s w\<close> is what the two calls of \<^verbatim>\<open>gettextprop\<close> leave in the
  name buffer for window \<open>w\<close>; an empty name is replaced by \<^verbatim>\<open>broken\<close>.
\<close>

definition updatetitle :: "cid \<Rightarrow> wm \<Rightarrow> wm" where
  "updatetitle c s =
    upd_client c (\<lambda>C. C\<lparr>c_name := (if g_xtitle s (c_win C) = [] then ''broken''
                                     else g_xtitle s (c_win C))\<rparr>) s"

text \<open>
  \<^verbatim>\<open>focus\<close>. The calls of \<^verbatim>\<open>unfocus\<close>, \<^verbatim>\<open>grabbuttons\<close>, \<^verbatim>\<open>setfocus\<close>, \<^verbatim>\<open>drawbars\<close> and
  \<^verbatim>\<open>drawtabs\<close> only talk to the server.
\<close>

definition focus :: "cid option \<Rightarrow> wm \<Rightarrow> wm" where
  "focus co s =
    (let co1 = (case co of
                  None \<Rightarrow> find (ISVISIBLE s) (m_stack (g_monitors s (g_selmon s)))
                | Some c \<Rightarrow> if \<not> ISVISIBLE s c
                            then find (ISVISIBLE s) (m_stack (g_monitors s (g_selmon s)))
                            else Some c);
         s3 = (case co1 of
                 None \<Rightarrow> s
               | Some c \<Rightarrow>
                  (let s1 = (if c_mon (g_clients s c) \<noteq> g_selmon s
                             then s\<lparr>g_selmon := c_mon (g_clients s c)\<rparr> else s);
                       s2 = (if c_isurgent (g_clients s1 c) \<noteq> 0 then seturgent c 0 s1 else s1)
                   in attachstack c (detachstack c s2)))
     in upd_mon (g_selmon s3) (\<lambda>M. M\<lparr>m_sel := co1\<rparr>) s3)"

definition togglebar :: "wm \<Rightarrow> wm" where
  "togglebar s =
    (let m = g_selmon s;
         v = b2i (m_showbar (g_monitors s m) = 0);
         s1 = upd_mon m (\<lambda>M. M\<lparr>m_pertag := (m_pertag M)\<lparr>pt_showbars :=
                  (pt_showbars (m_pertag M))(pt_curtag (m_pertag M) := v)\<rparr>, m_showbar := v\<rparr>) s;
         s2 = updatebarpos m s1;
         M2 = g_monitors s2 m;
         s3 = xdo (XMoveResizeWindow (m_barwin M2) (m_wx M2) (m_by M2) (m_ww M2) (g_bh s2)) s2
     in arrange (Some m) s3)"


subsection \<open>Fullscreen and swallowing\<close>

definition setfullscreen :: "cid \<Rightarrow> int \<Rightarrow> wm \<Rightarrow> wm" where
  "setfullscreen c fullscreen s =
    (let C = g_clients s c in
     if fullscreen \<noteq> 0 \<and> c_isfullscreen C = 0 then
       (let s1 = xdo (SetNetWMState (c_win C) True) s;
            s2 = upd_client c (\<lambda>C. C\<lparr>c_isfullscreen := 1, c_oldstate := c_isfloating C,
                                       c_oldbw := c_bw C, c_bw := 0, c_isfloating := 1\<rparr>) s1;
            M = g_monitors s2 (c_mon (g_clients s2 c));
            s3 = resizeclient c (m_mx M) (m_my M) (m_mw M) (m_mh M) s2
        in xdo (XRaiseWindow (c_win (g_clients s3 c))) s3)
     else if fullscreen = 0 \<and> c_isfullscreen C \<noteq> 0 then
       (let s1 = xdo (SetNetWMState (c_win C) False) s;
            s2 = upd_client c (\<lambda>C. C\<lparr>c_isfullscreen := 0, c_isfloating := c_oldstate C,
                                       c_bw := c_oldbw C, c_x := c_oldx C, c_y := c_oldy C,
                                       c_w := c_oldw C, c_h := c_oldh C\<rparr>) s1;
            C2 = g_clients s2 c;
            s3 = resizeclient c (c_x C2) (c_y C2) (c_w C2) (c_h C2) s2
        in arrange (Some (c_mon (g_clients s3 c))) s3)
     else s)"

text \<open>
  \<^verbatim>\<open>swallow(p, c)\<close>. The second test of the source contains \<^verbatim>\<open>!1\<close> and never fires; the
  calls of \<^verbatim>\<open>configure\<close> and \<^verbatim>\<open>updateclientlist\<close> only talk to the server.
\<close>

definition swallow :: "cid \<Rightarrow> cid \<Rightarrow> wm \<Rightarrow> wm" where
  "swallow p c s =
    (if c_noswallow (g_clients s c) \<noteq> 0 \<or> c_isterminal (g_clients s c) \<noteq> 0 then s
     else if c_noswallow (g_clients s c) \<noteq> 0 \<and> False \<and> c_isfloating (g_clients s c) \<noteq> 0 then s
     else
      (let s1 = detach c s;
           s2 = detachstack c s1;
           s3 = setclientstate c WithdrawnState s2;
           s4 = xdo (XUnmapWindow (c_win (g_clients s3 p))) s3;
           s5 = upd_client p (\<lambda>C. C\<lparr>c_swallowing := Some c\<rparr>) s4;
           s6 = upd_client c (\<lambda>C. C\<lparr>c_mon := c_mon (g_clients s5 p)\<rparr>) s5;
           w = c_win (g_clients s6 p);
           s7 = upd_client p (\<lambda>C. C\<lparr>c_win := c_win (g_clients s6 c)\<rparr>) s6;
           s8 = upd_client c (\<lambda>C. C\<lparr>c_win := w\<rparr>) s7;
           s9 = updatetitle p s8;
           P = g_clients s9 p;
           s10 = xdo (XMoveResizeWindow (c_win P) (c_x P) (c_y P) (c_w P) (c_h P)) s9
       in arrange (Some (c_mon (g_clients s10 p))) s10))"

text \<open>
  \<^verbatim>\<open>unswallow(c)\<close> dereferences \<^verbatim>\<open>c -> swallowing\<close>: with a null pointer there is no result.
  \<open>unswallow_restore\<close> is the function up to its first \<^verbatim>\<open>arrange(c -> mon)\<close>,
  \<open>unswallow_map\<close> the rest, from \<^verbatim>\<open>XMapWindow\<close> on.
\<close>

definition unswallow_restore :: "cid \<Rightarrow> cid \<Rightarrow> wm \<Rightarrow> wm" where
  "unswallow_restore c sw s =
    (let s1 = upd_client c (\<lambda>C. C\<lparr>c_win := c_win (g_clients s sw)\<rparr>) s;
         s2 = upd_client c (\<lambda>C. C\<lparr>c_swallowing := None\<rparr>) s1;
         s3 = setfullscreen c 0 s2;
         s4 = updatetitle c s3
     in arrange (Some (c_mon (g_clients s4 c))) s4)"

definition unswallow_map :: "cid \<Rightarrow> wm \<Rightarrow> wm" where
  "unswallow_map c s =
    (let C = g_clients s c;
         s1 = xdo (XMapWindow (c_win C)) s;
         s2 = xdo (XMoveResizeWindow (c_win C) (c_x C) (c_y C) (c_w C) (c_h C)) s1;
         s3 = setclientstate c NormalState s2;
         s4 = focus None s3
     in arrange (Some (c_mon (g_clients s4 c))) s4)"

definition unswallow :: "cid \<Rightarrow> wm \<Rightarrow> wm option" where
  "unswallow c s =
    (case c_swallowing (g_clients s c) of
       None \<Rightarrow> None
     | Some sw \<Rightarrow> Some (unswallow_map c (unswallow_restore c sw s)))"

subsection \<open>Tags and views\<close>

text \<open>
  The scan \<^verbatim>\<open>for (i = 0; !(ui & 1 << i); i++);\<close> for the lowest set bit. Shifting the
  \<^verbatim>\<open>int\<close> 1 is defined for \<open>i \<le> 30\<close>, which bounds the scan; \<open>None\<close> is a scan that
  leaves that range.
\<close>

fun first_set_bit :: "nat \<Rightarrow> nat \<Rightarrow> tagmask \<Rightarrow> nat option" where
  "first_set_bit 0 i ui = None"
| "first_set_bit (Suc fuel) i ui =
     (if ui AND push_bit i 1 \<noteq> 0 then Some i else first_set_bit fuel (Suc i) ui)"

text \<open>\<^verbatim>\<open>ffs\<close> of the C library: one plus the index of the lowest set bit, 0 for 0.\<close>

definition ffs :: "tagmask \<Rightarrow> nat" where
  "ffs ui = (case first_set_bit 32 0 ui of None \<Rightarrow> 0 | Some i \<Rightarrow> i + 1)"

text \<open>The six assignments of \<^verbatim>\<open>view\<close> that apply the settings of \<^verbatim>\<open>pertag -> curtag\<close>.\<close>

definition apply_pertag :: "Monitor \<Rightarrow> Monitor" where
  "apply_pertag M =
    (let P = m_pertag M;
         t = pt_curtag P;
         sellt = pt_sellts P t
     in M\<lparr>m_nmaster := pt_nmasters P t, m_mfact := pt_mfacts P t, m_sellt := sellt,
          m_lt := (m_lt M)(sellt := pt_ltidxs P t sellt,
                           sellt XOR 1 := pt_ltidxs P t (sellt XOR 1))\<rparr>)"

definition view :: "tagmask \<Rightarrow> wm \<Rightarrow> wm option" where
  "view ui s =
    (let m = g_selmon s in
     if ui AND TAGMASK = cur_tagset (g_monitors s m) then Some s
     else
      (let s1 = upd_mon m (\<lambda>M. M\<lparr>m_seltags := m_seltags M XOR 1\<rparr>) s;
           s2o =
             (if ui AND TAGMASK \<noteq> 0 then
                (case (if ui = - 1 then Some 0
                       else map_option Suc (first_set_bit 31 0 ui)) of
                   None \<Rightarrow> None
                 | Some t \<Rightarrow>
                     Some (upd_mon m (\<lambda>M. M\<lparr>m_tagset := (m_tagset M)(m_seltags M := ui AND TAGMASK),
                                           m_pertag := (m_pertag M)\<lparr>pt_prevtag := pt_curtag (m_pertag M),
                                                                     pt_curtag := t\<rparr>\<rparr>) s1))
              else
                Some (upd_mon m (\<lambda>M. M\<lparr>m_pertag := (m_pertag M)\<lparr>pt_prevtag := pt_curtag (m_pertag M),
                                            pt_curtag := pt_prevtag (m_pertag M)\<rparr>\<rparr>) s1))
       in case s2o of
            None \<Rightarrow> None
          | Some s2 \<Rightarrow>
             (let s3 = upd_mon m apply_pertag s2;
                  M3 = g_monitors s3 m;
                  s4 = (if m_showbar M3 \<noteq> pt_showbars (m_pertag M3) (pt_curtag (m_pertag M3))
                        then togglebar s3 else s3);
                  s5 = focus None s4
              in Some (arrange (Some (g_selmon s5)) s5))))"

definition tag :: "tagmask \<Rightarrow> wm \<Rightarrow> wm" where
  "tag ui s =
    (case m_sel (g_monitors s (g_selmon s)) of
       None \<Rightarrow> s
     | Some sel \<Rightarrow>
         if ui AND TAGMASK \<noteq> 0 then
           (let s1 = upd_client sel (\<lambda>C. C\<lparr>c_tags := ui AND TAGMASK\<rparr>) s;
                s2 = focus None s1
            in arrange (Some (g_selmon s2)) s2)
         else s)"

definition toggletag :: "tagmask \<Rightarrow> wm \<Rightarrow> wm" where
  "toggletag ui s =
    (case m_sel (g_monitors s (g_selmon s)) of
       None \<Rightarrow> s
     | Some sel \<Rightarrow>
        (let newtags = c_tags (g_clients s sel) XOR (ui AND TAGMASK) in
         if newtags \<noteq> 0 then
           (let s1 = upd_client sel (\<lambda>C. C\<lparr>c_tags := newtags\<rparr>) s;
                s2 = focus None s1
            in arrange (Some (g_selmon s2)) s2)
         else s))"

text \<open>\<^verbatim>\<open>sendmon\<close>; the call of \<^verbatim>\<open>unfocus(c, 1)\<close> only talks to the server.\<close>

definition sendmon :: "cid \<Rightarrow> mid \<Rightarrow> wm \<Rightarrow> wm" where
  "sendmon c m s =
    (if c_mon (g_clients s c) = m then s
     else
      (let s1 = detach c s;
           s2 = detachstack c s1;
           s3 = upd_client c (\<lambda>C. C\<lparr>c_mon := m\<rparr>) s2;
           s4 = upd_client c (\<lambda>C. C\<lparr>c_tags := cur_tagset (g_monitors s3 m)\<rparr>) s3;
           s5 = attach c s4;
           s6 = attachstack c s5;
           s7 = focus None s6
       in arrange None s7))"

text \<open>
  \<^verbatim>\<open>organizetags\<close>. \<^verbatim>\<open>1 << (ffs(c -> tags) - 1)\<close> is undefined for a client without tags, and
  \<^verbatim>\<open>tagdest\<close> is an uninitialised array of \<^verbatim>\<open>LENGTH(tags)\<close> entries that is read at
  \<^verbatim>\<open>ffs(c -> tags) - 1\<close>: \<open>tagdest\<close> is a partial map here, and a shift by \<open>-1\<close> or a read
  of an entry that was never written gives no result.
\<close>

function skip_occ :: "nat \<Rightarrow> tagmask \<Rightarrow> nat \<Rightarrow> nat" where
  "skip_occ i occ unocc =
     (if unocc < i \<and> occ AND push_bit unocc 1 \<noteq> 0 then skip_occ i occ (unocc + 1) else unocc)"
  by pat_completeness auto

termination skip_occ
  by (relation "measure (\<lambda>(i, occ, unocc). i - unocc)") auto

declare skip_occ.simps [simp del]

definition tags_occ :: "wm \<Rightarrow> cid list \<Rightarrow> tagmask option" where
  "tags_occ s cs =
     fold (\<lambda>c acc. case acc of
                      None \<Rightarrow> None
                    | Some occ \<Rightarrow>
                        if ffs (c_tags (g_clients s c)) = 0 then None
                        else Some (occ OR push_bit (ffs (c_tags (g_clients s c)) - 1) 1))
          cs (Some 0)"

definition tags_dest :: "tagmask \<Rightarrow> (nat \<rightharpoonup> nat)" where
  "tags_dest occ0 =
     snd (snd (fold (\<lambda>i (unocc, occ, tagdest).
                       (let unocc1 = skip_occ i occ unocc in
                        if occ AND push_bit i 1 \<noteq> 0
                        then (unocc1, (occ AND NOT (push_bit i 1)) OR push_bit unocc1 1,
                              tagdest(i \<mapsto> unocc1))
                        else (unocc1, occ, tagdest)))
                    [0..<NTAGS] (0, occ0, Map.empty)))"

definition retag :: "(nat \<rightharpoonup> nat) \<Rightarrow> cid list \<Rightarrow> wm \<Rightarrow> wm option" where
  "retag tagdest cs s =
     fold (\<lambda>c acc. case acc of
                      None \<Rightarrow> None
                    | Some s' \<Rightarrow>
                        if ffs (c_tags (g_clients s' c)) = 0 then None
                        else (case tagdest (ffs (c_tags (g_clients s' c)) - 1) of
                                None \<Rightarrow> None
                              | Some d \<Rightarrow> Some (upd_client c (\<lambda>C. C\<lparr>c_tags := push_bit d 1\<rparr>) s')))
          cs (Some s)"

definition organizetags :: "wm \<Rightarrow> wm option" where
  "organizetags s =
    (let m = g_selmon s;
         cs = m_clients (g_monitors s m)
     in case tags_occ s cs of
          None \<Rightarrow> None
        | Some occ \<Rightarrow>
           (case retag (tags_dest occ) cs s of
              None \<Rightarrow> None
            | Some s1 \<Rightarrow>
               (let s2 = (case m_sel (g_monitors s1 m) of
                            None \<Rightarrow> s1
                          | Some sel \<Rightarrow>
                              upd_mon m (\<lambda>M. M\<lparr>m_tagset :=
                                (m_tagset M)(m_seltags M := c_tags (g_clients s1 sel))\<rparr>) s1)
                in Some (arrange (Some m) s2))))"

subsection \<open>Rules\<close>

text \<open>\<^verbatim>\<open>strstr(hay, needle)\<close> as a truth value: the needle occurs in the haystack.\<close>

definition strstr :: "string \<Rightarrow> string \<Rightarrow> bool" where
  "strstr hay needle =
     list_ex (\<lambda>i. take (length needle) (drop i hay) = needle) [0..<Suc (length hay)]"

text \<open>The table \<^verbatim>\<open>rules\<close> of config.h.\<close>

definition rules :: "Rule list" where
  "rules =
    [\<lparr>r_class = Some ''Alacritty'', r_instance = None, r_title = None, r_tags = 0,
      r_isfloating = 0, r_isterminal = 1, r_noswallow = 0, r_monitor = - 1\<rparr>,
     \<lparr>r_class = None, r_instance = None, r_title = Some ''Event Tester'', r_tags = 0,
      r_isfloating = 0, r_isterminal = 0, r_noswallow = 1, r_monitor = - 1\<rparr>]"

definition rule_matches :: "Rule \<Rightarrow> string \<Rightarrow> string \<Rightarrow> string \<Rightarrow> bool" where
  "rule_matches r name class instance =
    ((case r_title r of None \<Rightarrow> True | Some t \<Rightarrow> strstr name t)
     \<and> (case r_class r of None \<Rightarrow> True | Some k \<Rightarrow> strstr class k)
     \<and> (case r_instance r of None \<Rightarrow> True | Some i \<Rightarrow> strstr instance i))"

definition apply_rule :: "string \<Rightarrow> string \<Rightarrow> cid \<Rightarrow> Rule \<Rightarrow> wm \<Rightarrow> wm" where
  "apply_rule class instance c r s =
    (if rule_matches r (c_name (g_clients s c)) class instance then
       (let s1 = upd_client c (\<lambda>C. C\<lparr>c_isterminal := r_isterminal r, c_noswallow := r_noswallow r,
                                      c_isfloating := r_isfloating r,
                                      c_tags := c_tags C OR r_tags r\<rparr>) s
        in case find (\<lambda>m. m_num (g_monitors s1 m) = r_monitor r) (g_mons s1) of
             None \<Rightarrow> s1
           | Some m \<Rightarrow> upd_client c (\<lambda>C. C\<lparr>c_mon := m\<rparr>) s1)
     else s)"

text \<open>\<^verbatim>\<open>applyrules\<close> for a rule table \<open>rs\<close>; the program runs it on \<open>rules\<close>.\<close>

definition applyrules_table :: "Rule list \<Rightarrow> cid \<Rightarrow> wm \<Rightarrow> wm" where
  "applyrules_table rs c s =
    (let s1 = upd_client c (\<lambda>C. C\<lparr>c_isfloating := 0, c_tags := 0\<rparr>) s;
         ch = g_xclass s1 (c_win (g_clients s1 c));
         class = (case fst ch of None \<Rightarrow> ''broken'' | Some k \<Rightarrow> k);
         instance = (case snd ch of None \<Rightarrow> ''broken'' | Some i \<Rightarrow> i);
         s2 = fold (apply_rule class instance c) rs s1
     in upd_client c (\<lambda>C. C\<lparr>c_tags := (if c_tags C AND TAGMASK \<noteq> 0 then c_tags C AND TAGMASK
                                        else cur_tagset (g_monitors s2 (c_mon C)))\<rparr>) s2)"

definition applyrules :: "cid \<Rightarrow> wm \<Rightarrow> wm" where
  "applyrules c s = applyrules_table rules c s"

subsection \<open>Master factor and floating\<close>


definition togglefloating :: "wm \<Rightarrow> wm" where
  "togglefloating s =
    (let m = g_selmon s in
     case m_sel (g_monitors s m) of
       None \<Rightarrow> s
     | Some sel \<Rightarrow>
         if c_isfullscreen (g_clients s sel) \<noteq> 0 then s
         else
          (let s1 = upd_client sel (\<lambda>C. C\<lparr>c_isfloating :=
                      b2i (c_isfloating C = 0 \<or> c_isfixed C \<noteq> 0)\<rparr>) s;
               C1 = g_clients s1 sel;
               s2 = (if c_isfloating C1 \<noteq> 0
                     then resize sel (c_x C1) (c_y C1) (c_w C1) (c_h C1) 0 s1 else s1)
           in arrange (Some m) s2))"

section \<open>Notions used in the proofs\<close>

text \<open>
  What \<^verbatim>\<open>arrange\<close> may change: the rectangles of clients, the bar positions and layout
  symbol of monitors, and the request trace. \<open>arr_state\<close> blanks exactly these, so that
  \<open>arr_state t = arr_state s\<close> says that \<open>t\<close> and \<open>s\<close> agree on everything else.
\<close>

definition arr_client :: "Client \<Rightarrow> Client" where
  "arr_client C = C\<lparr>c_x := 0, c_y := 0, c_w := 0, c_h := 0,
                      c_oldx := 0, c_oldy := 0, c_oldw := 0, c_oldh := 0\<rparr>"

definition arr_mon :: "Monitor \<Rightarrow> Monitor" where
  "arr_mon M = M\<lparr>m_ltsymbol := [], m_wy := 0, m_wh := 0, m_by := 0, m_ty := 0\<rparr>"

definition arr_state :: "wm \<Rightarrow> wm" where
  "arr_state s = s\<lparr>g_clients := (\<lambda>c. arr_client (g_clients s c)),
                     g_monitors := (\<lambda>m. arr_mon (g_monitors s m)), g_xlog := []\<rparr>"

text \<open>
  The requests that only move, resize or restack a window: they neither map nor unmap it
  and write no state property.
\<close>

definition moves_only :: "xreq \<Rightarrow> bool" where
  "moves_only r =
    (case r of
       XRaiseWindow w \<Rightarrow> True
     | XMoveWindow w x y \<Rightarrow> True
     | XMoveResizeWindow w x y wd ht \<Rightarrow> True
     | XConfigureWindow w x y wd ht b \<Rightarrow> True
     | XStackBelow w sibling \<Rightarrow> True
     | _ \<Rightarrow> False)"

text \<open>\<open>log_from xs t\<close>: the trace of \<open>t\<close> is \<open>xs\<close> followed by such requests only.\<close>

definition log_from :: "xreq list \<Rightarrow> wm \<Rightarrow> bool" where
  "log_from xs t = (\<exists>l. g_xlog t = xs @ l \<and> list_all moves_only l)"

text \<open>
  \<open>frame K s t\<close>: from \<open>s\<close> to \<open>t\<close> only rectangles, bar positions and layout symbols
  changed, only moving requests were appended, and the clients outside \<open>K\<close> are untouched.
\<close>

definition frame :: "cid set \<Rightarrow> wm \<Rightarrow> wm \<Rightarrow> bool" where
  "frame K s t =
     (arr_state t = arr_state s \<and> log_from (g_xlog s) t
      \<and> (\<forall>c. c \<notin> K \<longrightarrow> g_clients t c = g_clients s c))"

text \<open>The clients that \<^verbatim>\<open>nexttiled\<close> does not skip, and those of them on a monitor's list.\<close>

definition tiled :: "wm \<Rightarrow> cid \<Rightarrow> bool" where
  "tiled s c = (\<not> (c_isfloating (g_clients s c) \<noteq> 0 \<or> \<not> ISVISIBLE s c))"

definition tiled_of :: "wm \<Rightarrow> mid \<Rightarrow> cid set" where
  "tiled_of s m = {c \<in> set (m_clients (g_monitors s m)). tiled s c}"

definition visible_of :: "wm \<Rightarrow> cid set" where
  "visible_of s = {c. ISVISIBLE s c}"

subsection \<open>focus\<close>

text \<open>
  What \<^verbatim>\<open>focus\<close> may change: urgency flags, the focus stacks and selections, and the
  selected monitor.
\<close>

definition foc_client :: "Client \<Rightarrow> Client" where
  "foc_client C = C\<lparr>c_isurgent := 0\<rparr>"

definition foc_mon :: "Monitor \<Rightarrow> Monitor" where
  "foc_mon M = M\<lparr>m_stack := [], m_sel := None\<rparr>"

definition foc_state :: "wm \<Rightarrow> wm" where
  "foc_state s = s\<lparr>g_clients := (\<lambda>c. foc_client (g_clients s c)),
                     g_monitors := (\<lambda>m. foc_mon (g_monitors s m)), g_selmon := 0\<rparr>"

text \<open>The fields of a monitor that \<^verbatim>\<open>view\<close> is about.\<close>

definition tagview :: "Monitor \<Rightarrow> nat \<times> (nat \<Rightarrow> tagmask) \<times> nat \<times> nat" where
  "tagview M = (m_seltags M, m_tagset M, pt_curtag (m_pertag M), pt_prevtag (m_pertag M))"

subsection \<open>A concrete state\<close>

definition ex_layout :: "arrange_fn option \<Rightarrow> Layout" where
  "ex_layout f = \<lparr>lt_symbol = ''[T]'', lt_arrange = f\<rparr>"

definition ex_pertag :: "arrange_fn option \<Rightarrow> Pertag" where
  "ex_pertag f =
    \<lparr>pt_curtag = 1, pt_prevtag = 1, pt_nmasters = (\<lambda>i. 1), pt_mfacts = (\<lambda>i. 1 / 2),
     pt_sellts = (\<lambda>i. 0), pt_ltidxs = (\<lambda>i j. ex_layout f), pt_showbars = (\<lambda>i. 1)\<rparr>"

definition ex_monitor :: "arrange_fn option \<Rightarrow> cid list \<Rightarrow> cid option \<Rightarrow> Monitor" where
  "ex_monitor f cs sel =
    \<lparr>m_ltsymbol = ''[T]'', m_mfact = 1 / 2, m_nmaster = 1, m_num = 0, m_by = 0, m_ty = - 20,
     m_mx = 0, m_my = 0, m_mw = 1920, m_mh = 1080, m_wx = 0, m_wy = 20, m_ww = 1920,
     m_wh = 1060, m_gappih = 10, m_gappiv = 10, m_gappoh = 10, m_gappov = 10,
     m_seltags = 0, m_sellt = 0, m_tagset = (\<lambda>i. 1), m_showbar = 1, m_showtab = 1,
     m_topbar = 1, m_toptab = 0, m_clients = cs, m_sel = sel, m_stack = cs,
     m_barwin = 100, m_tabwin = 101, m_lt = (\<lambda>i. ex_layout f), m_pertag = ex_pertag f\<rparr>"

definition ex_client :: "tagmask \<Rightarrow> int \<Rightarrow> window \<Rightarrow> Client" where
  "ex_client tags floating win =
    \<lparr>c_name = ''xterm'', c_mina = 0, c_maxa = 0, c_x = 0, c_y = 20, c_w = 640, c_h = 480,
     c_oldx = 0, c_oldy = 0, c_oldw = 0, c_oldh = 0, c_basew = 0, c_baseh = 0, c_incw = 0,
     c_inch = 0, c_maxw = 0, c_maxh = 0, c_minw = 0, c_minh = 0, c_bw = 2, c_oldbw = 0,
     c_tags = tags, c_isfixed = 0, c_isfloating = floating, c_isurgent = 0, c_neverfocus = 0,
     c_oldstate = 0, c_isfullscreen = 0, c_isterminal = 0, c_noswallow = 0, c_pid = 0,
     c_swallowing = None, c_mon = 0, c_win = win\<rparr>"

text \<open>
  One monitor showing tag 1 with three clients: client 1 tiled on tag 1, client 2 floating
  on tag 1, client 3 tiled on tag 2 (hidden). The window of a client is its id.
\<close>

definition ex_wm :: "arrange_fn option \<Rightarrow> cid option \<Rightarrow> wm" where
  "ex_wm f sel =
    \<lparr>g_clients = (\<lambda>c. ex_client 1 0 c)(2 := ex_client 1 1 2, 3 := ex_client 2 0 3),
     g_monitors = (\<lambda>m. ex_monitor f [1, 2, 3] sel), g_mons = [0], g_selmon = 0,
     g_bh = 20, g_th = 20, g_sw = 1920, g_sh = 1080, g_enablegaps = 1, g_xlog = [],
     g_xtitle = (\<lambda>w. ''xterm''), g_xclass = (\<lambda>w. (None, None))\<rparr>"

subsection \<open>Tags\<close>

text \<open>A tag mask with at least one of the bits \<open>0..N-1\<close> and no other bit.\<close>

definition tags_valid :: "tagmask \<Rightarrow> bool" where
  "tags_valid t = (t AND TAGMASK \<noteq> 0 \<and> t AND NOT TAGMASK = 0)"

text \<open>The number of occupied tags below tag \<open>i\<close>.\<close>

definition rank :: "tagmask \<Rightarrow> nat \<Rightarrow> nat" where
  "rank occ i = length (filter (bit occ) [0..<i])"

text \<open>The state of the loop of \<^verbatim>\<open>organizetags\<close> after the tags below \<open>k\<close>.\<close>

definition dest_loop :: "tagmask \<Rightarrow> nat \<Rightarrow> nat \<times> tagmask \<times> (nat \<rightharpoonup> nat)" where
  "dest_loop occ0 k =
     fold (\<lambda>i (unocc, occ, tagdest).
             (let unocc1 = skip_occ i occ unocc in
              if occ AND push_bit i 1 \<noteq> 0
              then (unocc1, (occ AND NOT (push_bit i 1)) OR push_bit unocc1 1,
                    tagdest(i \<mapsto> unocc1))
              else (unocc1, occ, tagdest)))
          [0..<k] (0, occ0, Map.empty)"

text \<open>The tag \<^verbatim>\<open>organizetags\<close> reads from a client: \<^verbatim>\<open>ffs(c -> tags) - 1\<close>, its lowest tag.\<close>

definition lowtag :: "tagmask \<Rightarrow> nat" where
  "lowtag t = ffs t - 1"

text \<open>What \<^verbatim>\<open>organizetags\<close> writes into the clients of a list without repetitions.\<close>

definition retagged :: "(nat \<Rightarrow> nat) \<Rightarrow> cid list \<Rightarrow> wm \<Rightarrow> wm" where
  "retagged f cs s =
     s\<lparr>g_clients := (\<lambda>c. if c \<in> set cs
                           then (g_clients s c)\<lparr>c_tags :=
                                  push_bit (f (lowtag (c_tags (g_clients s c)))) 1\<rparr>
                           else g_clients s c)\<rparr>"



text \<open>
  What only \<^verbatim>\<open>setfullscreen\<close> reads: the saved rectangle, floating flag and border width of
  a client. \<open>old_state\<close> blanks them, and the request trace; \<open>oldeq t t'\<close> says that \<open>t\<close> and
  \<open>t'\<close> agree on everything else.
\<close>

definition old_client :: "Client \<Rightarrow> Client" where
  "old_client C = C\<lparr>c_oldx := 0, c_oldy := 0, c_oldw := 0, c_oldh := 0,
                      c_oldstate := 0, c_oldbw := 0\<rparr>"

definition old_state :: "wm \<Rightarrow> wm" where
  "old_state s = s\<lparr>g_clients := (\<lambda>c. old_client (g_clients s c)), g_xlog := []\<rparr>"

definition oldeq :: "wm \<Rightarrow> wm \<Rightarrow> bool" where
  "oldeq t t' = (old_state t = old_state t')"

text \<open>
  The test of \<^verbatim>\<open>resizeclient\<close> for a client that is shown without border when it is
  neither fullscreen nor floating: the only tiled client of its monitor, or any client
  under the monocle layout.
\<close>

definition borderless :: "wm \<Rightarrow> cid \<Rightarrow> bool" where
  "borderless s c =
    ((case nexttiled s (m_clients (g_monitors s (c_mon (g_clients s c)))) of
        [] \<Rightarrow> False
      | t # rest \<Rightarrow> t = c \<and> nexttiled s rest = [])
     \<or> lt_arrange (cur_lt (g_monitors s (c_mon (g_clients s c)))) = Some Monocle)"

text \<open>The tuple of the fullscreen toggle.\<close>

definition fs_tuple :: "Client \<Rightarrow> int \<times> int \<times> int \<times> int \<times> int \<times> int" where
  "fs_tuple C = (c_isfloating C, c_bw C, c_x C, c_y C, c_w C, c_h C)"

text \<open>
  Three clients tiled on tag 1 by the tile layout, each where \<^verbatim>\<open>arrange\<close> puts it; and the
  state after \<^verbatim>\<open>setfullscreen(1, 1)\<close> there, which does not rearrange the other two.
\<close>

definition ex_arranged :: wm where
  "ex_arranged = (ex_wm (Some Tile) (Some 1))
     \<lparr>g_clients := (\<lambda>c. ex_client 1 0 c)
        (1 := (ex_client 1 0 1)\<lparr>c_x := 10, c_y := 30, c_w := 941, c_h := 1036\<rparr>,
         2 := (ex_client 1 0 2)\<lparr>c_x := 965, c_y := 30, c_w := 941, c_h := 511\<rparr>,
         3 := (ex_client 1 0 3)\<lparr>c_x := 965, c_y := 555, c_w := 941, c_h := 511\<rparr>)\<rparr>"

definition ex_pending :: wm where
  "ex_pending = setfullscreen 1 1 ex_arranged"

section \<open>Frame lemmas\<close>

lemma upd_client_simps [simp]:
  "g_clients (upd_client c f s) = (g_clients s)(c := f (g_clients s c))"
  "g_monitors (upd_client c f s) = g_monitors s"
  "g_mons (upd_client c f s) = g_mons s"
  "g_selmon (upd_client c f s) = g_selmon s"
  "g_bh (upd_client c f s) = g_bh s"
  "g_th (upd_client c f s) = g_th s"
  "g_sw (upd_client c f s) = g_sw s"
  "g_sh (upd_client c f s) = g_sh s"
  "g_enablegaps (upd_client c f s) = g_enablegaps s"
  "g_xlog (upd_client c f s) = g_xlog s"
  "g_xtitle (upd_client c f s) = g_xtitle s"
  "g_xclass (upd_client c f s) = g_xclass s"
  by (simp_all add: upd_client_def)

lemma upd_mon_simps [simp]:
  "g_clients (upd_mon m f s) = g_clients s"
  "g_monitors (upd_mon m f s) = (g_monitors s)(m := f (g_monitors s m))"
  "g_mons (upd_mon m f s) = g_mons s"
  "g_selmon (upd_mon m f s) = g_selmon s"
  "g_bh (upd_mon m f s) = g_bh s"
  "g_th (upd_mon m f s) = g_th s"
  "g_sw (upd_mon m f s) = g_sw s"
  "g_sh (upd_mon m f s) = g_sh s"
  "g_enablegaps (upd_mon m f s) = g_enablegaps s"
  "g_xlog (upd_mon m f s) = g_xlog s"
  "g_xtitle (upd_mon m f s) = g_xtitle s"
  "g_xclass (upd_mon m f s) = g_xclass s"
  by (simp_all add: upd_mon_def)

lemma xdo_simps [simp]:
  "g_clients (xdo r s) = g_clients s"
  "g_monitors (xdo r s) = g_monitors s"
  "g_mons (xdo r s) = g_mons s"
  "g_selmon (xdo r s) = g_selmon s"
  "g_bh (xdo r s) = g_bh s"
  "g_th (xdo r s) = g_th s"
  "g_sw (xdo r s) = g_sw s"
  "g_sh (xdo r s) = g_sh s"
  "g_enablegaps (xdo r s) = g_enablegaps s"
  "g_xlog (xdo r s) = g_xlog s @ [r]"
  "g_xtitle (xdo r s) = g_xtitle s"
  "g_xclass (xdo r s) = g_xclass s"
  by (simp_all add: xdo_def)

lemma arr_state_sel [simp]:
  "g_clients (arr_state s) c = arr_client (g_clients s c)"
  "g_monitors (arr_state s) m = arr_mon (g_monitors s m)"
  "g_mons (arr_state s) = g_mons s"
  "g_selmon (arr_state s) = g_selmon s"
  "g_bh (arr_state s) = g_bh s"
  "g_th (arr_state s) = g_th s"
  "g_sw (arr_state s) = g_sw s"
  "g_sh (arr_state s) = g_sh s"
  "g_enablegaps (arr_state s) = g_enablegaps s"
  "g_xtitle (arr_state s) = g_xtitle s"
  "g_xclass (arr_state s) = g_xclass s"
  by (simp_all add: arr_state_def)

lemma arr_client_sel [simp]:
  "c_name (arr_client C) = c_name C"
  "c_mina (arr_client C) = c_mina C"
  "c_maxa (arr_client C) = c_maxa C"
  "c_basew (arr_client C) = c_basew C"
  "c_baseh (arr_client C) = c_baseh C"
  "c_incw (arr_client C) = c_incw C"
  "c_inch (arr_client C) = c_inch C"
  "c_maxw (arr_client C) = c_maxw C"
  "c_maxh (arr_client C) = c_maxh C"
  "c_minw (arr_client C) = c_minw C"
  "c_minh (arr_client C) = c_minh C"
  "c_bw (arr_client C) = c_bw C"
  "c_oldbw (arr_client C) = c_oldbw C"
  "c_tags (arr_client C) = c_tags C"
  "c_isfixed (arr_client C) = c_isfixed C"
  "c_isfloating (arr_client C) = c_isfloating C"
  "c_isurgent (arr_client C) = c_isurgent C"
  "c_neverfocus (arr_client C) = c_neverfocus C"
  "c_oldstate (arr_client C) = c_oldstate C"
  "c_isfullscreen (arr_client C) = c_isfullscreen C"
  "c_isterminal (arr_client C) = c_isterminal C"
  "c_noswallow (arr_client C) = c_noswallow C"
  "c_pid (arr_client C) = c_pid C"
  "c_swallowing (arr_client C) = c_swallowing C"
  "c_mon (arr_client C) = c_mon C"
  "c_win (arr_client C) = c_win C"
  by (simp_all add: arr_client_def)

lemma arr_mon_sel [simp]:
  "m_mfact (arr_mon M) = m_mfact M"
  "m_nmaster (arr_mon M) = m_nmaster M"
  "m_num (arr_mon M) = m_num M"
  "m_mx (arr_mon M) = m_mx M"
  "m_my (arr_mon M) = m_my M"
  "m_mw (arr_mon M) = m_mw M"
  "m_mh (arr_mon M) = m_mh M"
  "m_wx (arr_mon M) = m_wx M"
  "m_ww (arr_mon M) = m_ww M"
  "m_gappih (arr_mon M) = m_gappih M"
  "m_gappiv (arr_mon M) = m_gappiv M"
  "m_gappoh (arr_mon M) = m_gappoh M"
  "m_gappov (arr_mon M) = m_gappov M"
  "m_seltags (arr_mon M) = m_seltags M"
  "m_sellt (arr_mon M) = m_sellt M"
  "m_tagset (arr_mon M) = m_tagset M"
  "m_showbar (arr_mon M) = m_showbar M"
  "m_showtab (arr_mon M) = m_showtab M"
  "m_topbar (arr_mon M) = m_topbar M"
  "m_toptab (arr_mon M) = m_toptab M"
  "m_clients (arr_mon M) = m_clients M"
  "m_sel (arr_mon M) = m_sel M"
  "m_stack (arr_mon M) = m_stack M"
  "m_barwin (arr_mon M) = m_barwin M"
  "m_tabwin (arr_mon M) = m_tabwin M"
  "m_lt (arr_mon M) = m_lt M"
  "m_pertag (arr_mon M) = m_pertag M"
  by (simp_all add: arr_mon_def)

text \<open>What an equation \<open>arr_state t = arr_state s\<close> says field by field.\<close>

lemma arr_state_client_fields:
  assumes "arr_state t = arr_state s"
  shows
    "c_name (g_clients t c) = c_name (g_clients s c)"
    "c_mina (g_clients t c) = c_mina (g_clients s c)"
    "c_maxa (g_clients t c) = c_maxa (g_clients s c)"
    "c_basew (g_clients t c) = c_basew (g_clients s c)"
    "c_baseh (g_clients t c) = c_baseh (g_clients s c)"
    "c_incw (g_clients t c) = c_incw (g_clients s c)"
    "c_inch (g_clients t c) = c_inch (g_clients s c)"
    "c_maxw (g_clients t c) = c_maxw (g_clients s c)"
    "c_maxh (g_clients t c) = c_maxh (g_clients s c)"
    "c_minw (g_clients t c) = c_minw (g_clients s c)"
    "c_minh (g_clients t c) = c_minh (g_clients s c)"
    "c_bw (g_clients t c) = c_bw (g_clients s c)"
    "c_oldbw (g_clients t c) = c_oldbw (g_clients s c)"
    "c_tags (g_clients t c) = c_tags (g_clients s c)"
    "c_isfixed (g_clients t c) = c_isfixed (g_clients s c)"
    "c_isfloating (g_clients t c) = c_isfloating (g_clients s c)"
    "c_isurgent (g_clients t c) = c_isurgent (g_clients s c)"
    "c_neverfocus (g_clients t c) = c_neverfocus (g_clients s c)"
    "c_oldstate (g_clients t c) = c_oldstate (g_clients s c)"
    "c_isfullscreen (g_clients t c) = c_isfullscreen (g_clients s c)"
    "c_isterminal (g_clients t c) = c_isterminal (g_clients s c)"
    "c_noswallow (g_clients t c) = c_noswallow (g_clients s c)"
    "c_pid (g_clients t c) = c_pid (g_clients s c)"
    "c_swallowing (g_clients t c) = c_swallowing (g_clients s c)"
    "c_mon (g_clients t c) = c_mon (g_clients s c)"
    "c_win (g_clients t c) = c_win (g_clients s c)"
proof -
  have "g_clients (arr_state t) c = g_clients (arr_state s) c"
    using assms by simp
  then have e: "arr_client (g_clients t c) = arr_client (g_clients s c)"
    by simp
  have "\<And>f. f (arr_client (g_clients t c)) = f (arr_client (g_clients s c))"
    using e by simp
  from this [of c_name] this [of c_mina] this [of c_maxa] this [of c_basew]
    this [of c_baseh] this [of c_incw] this [of c_inch] this [of c_maxw]
    this [of c_maxh] this [of c_minw] this [of c_minh] this [of c_bw]
    this [of c_oldbw] this [of c_tags] this [of c_isfixed] this [of c_isfloating]
    this [of c_isurgent] this [of c_neverfocus] this [of c_oldstate]
    this [of c_isfullscreen] this [of c_isterminal] this [of c_noswallow]
    this [of c_pid] this [of c_swallowing] this [of c_mon] this [of c_win]
  show
    "c_name (g_clients t c) = c_name (g_clients s c)"
    "c_mina (g_clients t c) = c_mina (g_clients s c)"
    "c_maxa (g_clients t c) = c_maxa (g_clients s c)"
    "c_basew (g_clients t c) = c_basew (g_clients s c)"
    "c_baseh (g_clients t c) = c_baseh (g_clients s c)"
    "c_incw (g_clients t c) = c_incw (g_clients s c)"
    "c_inch (g_clients t c) = c_inch (g_clients s c)"
    "c_maxw (g_clients t c) = c_maxw (g_clients s c)"
    "c_maxh (g_clients t c) = c_maxh (g_clients s c)"
    "c_minw (g_clients t c) = c_minw (g_clients s c)"
    "c_minh (g_clients t c) = c_minh (g_clients s c)"
    "c_bw (g_clients t c) = c_bw (g_clients s c)"
    "c_oldbw (g_clients t c) = c_oldbw (g_clients s c)"
    "c_tags (g_clients t c) = c_tags (g_clients s c)"
    "c_isfixed (g_clients t c) = c_isfixed (g_clients s c)"
    "c_isfloating (g_clients t c) = c_isfloating (g_clients s c)"
    "c_isurgent (g_clients t c) = c_isurgent (g_clients s c)"
    "c_neverfocus (g_clients t c) = c_neverfocus (g_clients s c)"
    "c_oldstate (g_clients t c) = c_oldstate (g_clients s c)"
    "c_isfullscreen (g_clients t c) = c_isfullscreen (g_clients s c)"
    "c_isterminal (g_clients t c) = c_isterminal (g_clients s c)"
    "c_noswallow (g_clients t c) = c_noswallow (g_clients s c)"
    "c_pid (g_clients t c) = c_pid (g_clients s c)"
    "c_swallowing (g_clients t c) = c_swallowing (g_clients s c)"
    "c_mon (g_clients t c) = c_mon (g_clients s c)"
    "c_win (g_clients t c) = c_win (g_clients s c)"
    by simp_all
qed

lemma arr_state_mon_fields:
  assumes "arr_state t = arr_state s"
  shows
    "m_mfact (g_monitors t m) = m_mfact (g_monitors s m)"
    "m_nmaster (g_monitors t m) = m_nmaster (g_monitors s m)"
    "m_num (g_monitors t m) = m_num (g_monitors s m)"
    "m_mx (g_monitors t m) = m_mx (g_monitors s m)"
    "m_my (g_monitors t m) = m_my (g_monitors s m)"
    "m_mw (g_monitors t m) = m_mw (g_monitors s m)"
    "m_mh (g_monitors t m) = m_mh (g_monitors s m)"
    "m_wx (g_monitors t m) = m_wx (g_monitors s m)"
    "m_ww (g_monitors t m) = m_ww (g_monitors s m)"
    "m_gappih (g_monitors t m) = m_gappih (g_monitors s m)"
    "m_gappiv (g_monitors t m) = m_gappiv (g_monitors s m)"
    "m_gappoh (g_monitors t m) = m_gappoh (g_monitors s m)"
    "m_gappov (g_monitors t m) = m_gappov (g_monitors s m)"
    "m_seltags (g_monitors t m) = m_seltags (g_monitors s m)"
    "m_sellt (g_monitors t m) = m_sellt (g_monitors s m)"
    "m_tagset (g_monitors t m) = m_tagset (g_monitors s m)"
    "m_showbar (g_monitors t m) = m_showbar (g_monitors s m)"
    "m_showtab (g_monitors t m) = m_showtab (g_monitors s m)"
    "m_topbar (g_monitors t m) = m_topbar (g_monitors s m)"
    "m_toptab (g_monitors t m) = m_toptab (g_monitors s m)"
    "m_clients (g_monitors t m) = m_clients (g_monitors s m)"
    "m_sel (g_monitors t m) = m_sel (g_monitors s m)"
    "m_stack (g_monitors t m) = m_stack (g_monitors s m)"
    "m_barwin (g_monitors t m) = m_barwin (g_monitors s m)"
    "m_tabwin (g_monitors t m) = m_tabwin (g_monitors s m)"
    "m_lt (g_monitors t m) = m_lt (g_monitors s m)"
    "m_pertag (g_monitors t m) = m_pertag (g_monitors s m)"
proof -
  have "g_monitors (arr_state t) m = g_monitors (arr_state s) m"
    using assms by simp
  then have e: "arr_mon (g_monitors t m) = arr_mon (g_monitors s m)"
    by simp
  have "\<And>f. f (arr_mon (g_monitors t m)) = f (arr_mon (g_monitors s m))"
    using e by simp
  from this [of m_mfact] this [of m_nmaster] this [of m_num] this [of m_mx] this [of m_my] this [of m_mw] this [of m_mh] this [of m_wx] this [of m_ww] this [of m_gappih] this [of m_gappiv] this [of m_gappoh] this [of m_gappov] this [of m_seltags] this [of m_sellt] this [of m_tagset] this [of m_showbar] this [of m_showtab] this [of m_topbar] this [of m_toptab] this [of m_clients] this [of m_sel] this [of m_stack] this [of m_barwin] this [of m_tabwin] this [of m_lt] this [of m_pertag]
  show
    "m_mfact (g_monitors t m) = m_mfact (g_monitors s m)"
    "m_nmaster (g_monitors t m) = m_nmaster (g_monitors s m)"
    "m_num (g_monitors t m) = m_num (g_monitors s m)"
    "m_mx (g_monitors t m) = m_mx (g_monitors s m)"
    "m_my (g_monitors t m) = m_my (g_monitors s m)"
    "m_mw (g_monitors t m) = m_mw (g_monitors s m)"
    "m_mh (g_monitors t m) = m_mh (g_monitors s m)"
    "m_wx (g_monitors t m) = m_wx (g_monitors s m)"
    "m_ww (g_monitors t m) = m_ww (g_monitors s m)"
    "m_gappih (g_monitors t m) = m_gappih (g_monitors s m)"
    "m_gappiv (g_monitors t m) = m_gappiv (g_monitors s m)"
    "m_gappoh (g_monitors t m) = m_gappoh (g_monitors s m)"
    "m_gappov (g_monitors t m) = m_gappov (g_monitors s m)"
    "m_seltags (g_monitors t m) = m_seltags (g_monitors s m)"
    "m_sellt (g_monitors t m) = m_sellt (g_monitors s m)"
    "m_tagset (g_monitors t m) = m_tagset (g_monitors s m)"
    "m_showbar (g_monitors t m) = m_showbar (g_monitors s m)"
    "m_showtab (g_monitors t m) = m_showtab (g_monitors s m)"
    "m_topbar (g_monitors t m) = m_topbar (g_monitors s m)"
    "m_toptab (g_monitors t m) = m_toptab (g_monitors s m)"
    "m_clients (g_monitors t m) = m_clients (g_monitors s m)"
    "m_sel (g_monitors t m) = m_sel (g_monitors s m)"
    "m_stack (g_monitors t m) = m_stack (g_monitors s m)"
    "m_barwin (g_monitors t m) = m_barwin (g_monitors s m)"
    "m_tabwin (g_monitors t m) = m_tabwin (g_monitors s m)"
    "m_lt (g_monitors t m) = m_lt (g_monitors s m)"
    "m_pertag (g_monitors t m) = m_pertag (g_monitors s m)"
    by simp_all
qed

lemma arr_state_global_fields:
  assumes "arr_state t = arr_state s"
  shows
    "g_mons t = g_mons s"
    "g_selmon t = g_selmon s"
    "g_bh t = g_bh s"
    "g_th t = g_th s"
    "g_sw t = g_sw s"
    "g_sh t = g_sh s"
    "g_enablegaps t = g_enablegaps s"
    "g_xtitle t = g_xtitle s"
    "g_xclass t = g_xclass s"
proof -
  have "\<And>f. f (arr_state t) = f (arr_state s)"
    using assms by simp
  from this [of g_mons] this [of g_selmon] this [of g_bh] this [of g_th] this [of g_sw] this [of g_sh] this [of g_enablegaps] this [of g_xtitle] this [of g_xclass]
  show
    "g_mons t = g_mons s"
    "g_selmon t = g_selmon s"
    "g_bh t = g_bh s"
    "g_th t = g_th s"
    "g_sw t = g_sw s"
    "g_sh t = g_sh s"
    "g_enablegaps t = g_enablegaps s"
    "g_xtitle t = g_xtitle s"
    "g_xclass t = g_xclass s"
    by simp_all
qed

lemma arr_state_views:
  assumes "arr_state t = arr_state s"
  shows "cur_lt (g_monitors t m) = cur_lt (g_monitors s m)"
    and "cur_tagset (g_monitors t m) = cur_tagset (g_monitors s m)"
    and "ISVISIBLE t c = ISVISIBLE s c"
    and "tiled t c = tiled s c"
    and "nexttiled t cs = nexttiled s cs"
    and "ntiled t cs = ntiled s cs"
proof -
  note cf = arr_state_client_fields [OF assms]
  note mf = arr_state_mon_fields [OF assms]
  show "cur_lt (g_monitors t m) = cur_lt (g_monitors s m)"
    by (simp add: cur_lt_def mf)
  show ct: "\<And>m. cur_tagset (g_monitors t m) = cur_tagset (g_monitors s m)"
    by (simp add: cur_tagset_def mf)
  show v: "\<And>c. ISVISIBLE t c = ISVISIBLE s c"
    by (simp add: ISVISIBLE_def cf ct)
  show "tiled t c = tiled s c"
    by (simp add: tiled_def cf v)
  show "nexttiled t cs = nexttiled s cs"
    by (simp add: nexttiled_def cf v)
  show "ntiled t cs = ntiled s cs"
    by (simp add: ntiled_def cf v)
qed

lemma log_from_refl: "log_from (g_xlog s) s"
  by (simp add: log_from_def)

lemma log_from_trans: "log_from xs t \<Longrightarrow> log_from (g_xlog t) u \<Longrightarrow> log_from xs u"
  by (auto simp: log_from_def)

lemma log_from_xdo: "log_from xs t \<Longrightarrow> moves_only r \<Longrightarrow> log_from xs (xdo r t)"
  by (auto simp: log_from_def xdo_def)

lemma log_from_same: "g_xlog u = g_xlog t \<Longrightarrow> log_from xs t \<Longrightarrow> log_from xs u"
  by (simp add: log_from_def)

lemma frame_refl: "frame K s s"
  by (simp add: frame_def log_from_refl)

lemma frame_arr: "frame K s t \<Longrightarrow> arr_state t = arr_state s"
  by (simp add: frame_def)

lemma frame_same: "frame K s t \<Longrightarrow> c \<notin> K \<Longrightarrow> g_clients t c = g_clients s c"
  by (simp add: frame_def)

lemma frame_xlog: "frame K s t \<Longrightarrow> log_from (g_xlog s) t"
  by (simp add: frame_def)

lemma frame_trans: "frame K s t \<Longrightarrow> frame K t u \<Longrightarrow> frame K s u"
  by (auto simp: frame_def intro: log_from_trans)

lemma frame_mono: "frame K s t \<Longrightarrow> K \<subseteq> K' \<Longrightarrow> frame K' s t"
  by (auto simp: frame_def)

lemma arr_state_xdo: "arr_state (xdo r t) = arr_state t"
  by (simp add: arr_state_def xdo_def)

lemma frame_xdo: "frame K s t \<Longrightarrow> moves_only r \<Longrightarrow> frame K s (xdo r t)"
  by (simp add: frame_def arr_state_xdo log_from_xdo)

lemma arr_state_upd_client:
  "arr_client (f (g_clients s c)) = arr_client (g_clients s c)
   \<Longrightarrow> arr_state (upd_client c f s) = arr_state s"
  by (simp add: arr_state_def upd_client_def fun_eq_iff)

lemma arr_state_upd_mon:
  "arr_mon (f (g_monitors s m)) = arr_mon (g_monitors s m)
   \<Longrightarrow> arr_state (upd_mon m f s) = arr_state s"
  by (simp add: arr_state_def upd_mon_def fun_eq_iff)

lemma frame_upd_client:
  assumes "frame K s t" and "c \<in> K"
    and "arr_client (f (g_clients t c)) = arr_client (g_clients t c)"
  shows "frame K s (upd_client c f t)"
proof -
  have "arr_state (upd_client c f t) = arr_state s"
    using arr_state_upd_client [of f t c, OF assms(3)] frame_arr [OF assms(1)] by simp
  moreover have "log_from (g_xlog s) (upd_client c f t)"
    using frame_xlog [OF assms(1)] by (simp add: log_from_def)
  moreover have "\<forall>c'. c' \<notin> K \<longrightarrow> g_clients (upd_client c f t) c' = g_clients s c'"
    using frame_same [OF assms(1)] assms(2) by auto
  ultimately show ?thesis
    by (simp add: frame_def)
qed

lemma frame_upd_mon:
  assumes "frame K s t" and "arr_mon (f (g_monitors t m)) = arr_mon (g_monitors t m)"
  shows "frame K s (upd_mon m f t)"
proof -
  have "arr_state (upd_mon m f t) = arr_state s"
    using arr_state_upd_mon [of f t m, OF assms(2)] frame_arr [OF assms(1)] by simp
  moreover have "log_from (g_xlog s) (upd_mon m f t)"
    using frame_xlog [OF assms(1)] by (simp add: log_from_def)
  moreover have "\<forall>c'. c' \<notin> K \<longrightarrow> g_clients (upd_mon m f t) c' = g_clients s c'"
    using frame_same [OF assms(1)] by auto
  ultimately show ?thesis
    by (simp add: frame_def)
qed

lemma frame_Let: "(\<And>x. x = a \<Longrightarrow> frame K s (f x)) \<Longrightarrow> frame K s (Let a f)"
  by simp

lemma frame_case_prod: "(\<And>a b. frame K s (f a b)) \<Longrightarrow> frame K s (case_prod f p)"
  by (cases p) simp

lemma frame_if: "frame K s a \<Longrightarrow> frame K s b \<Longrightarrow> frame K s (if c then a else b)"
  by simp

lemma frame_resizeclient:
  assumes "frame K s t" and "c \<in> K"
  shows "frame K s (resizeclient c x y w h t)"
proof -
  let ?t1 = "upd_client c (\<lambda>C. C\<lparr>c_oldx := c_x C, c_x := x, c_oldy := c_y C, c_y := y,
                                   c_oldw := c_w C, c_w := w, c_oldh := c_h C, c_h := h\<rparr>) t"
  have f1: "frame K s ?t1"
    by (rule frame_upd_client [OF assms]) (simp add: arr_client_def)
  have f2: "frame K s (upd_client c (\<lambda>C. C\<lparr>c_w := a, c_h := b\<rparr>) ?t1)" for a b
    by (rule frame_upd_client [OF f1 assms(2)]) (simp add: arr_client_def)
  show ?thesis
    unfolding resizeclient_def Let_def
    by (intro frame_xdo frame_if f1 f2) (simp_all add: moves_only_def)
qed

lemma frame_resize:
  assumes "frame K s t" and "c \<in> K"
  shows "frame K s (resize c x y w h i t)"
  unfolding resize_def
  by (intro frame_case_prod frame_if frame_resizeclient assms)

lemma frame_resize_rect:
  assumes "frame K s t" and "c \<in> K"
  shows "frame K s (resize_rect c r t)"
  unfolding resize_rect_def
  by (intro frame_case_prod frame_resize assms)

lemma nexttiled_head:
  assumes "nexttiled t cs = c # rest"
  shows "c \<in> set cs" and "tiled t c" and "set rest \<subseteq> set cs"
proof -
  let ?P = "\<lambda>c. c_isfloating (g_clients t c) \<noteq> 0 \<or> \<not> ISVISIBLE t c"
  from assms have d: "dropWhile ?P cs = c # rest"
    by (simp add: nexttiled_def)
  have "set (dropWhile ?P cs) \<subseteq> set cs"
    by (auto dest: set_dropWhileD)
  with d show "c \<in> set cs" and "set rest \<subseteq> set cs"
    by auto
  from d have "\<not> ?P (hd (dropWhile ?P cs))"
    by (intro hd_dropWhile) auto
  with d show "tiled t c"
    by (simp add: tiled_def)
qed

lemma frame_tiled_loop:
  assumes "frame K s t" and "\<And>c. c \<in> set cs \<Longrightarrow> tiled s c \<Longrightarrow> c \<in> K"
  shows "frame K s (tiled_loop body step v cs t)"
  using assms
proof (induction body step v cs t rule: tiled_loop.induct)
  case (1 body step v cs t)
  show ?case
  proof (cases "nexttiled t cs")
    case Nil
    then show ?thesis
      using "1.prems"(1) by (simp add: tiled_loop.simps [of body step v cs t])
  next
    case (Cons c rest)
    note h = nexttiled_head [OF Cons]
    have "tiled s c"
      using h(2) arr_state_views(4) [OF frame_arr [OF "1.prems"(1)]] by simp
    then have cK: "c \<in> K"
      using h(1) "1.prems"(2) by blast
    have f1: "frame K s (resize_rect c (snd (body v (g_clients t c))) t)"
      by (rule frame_resize_rect [OF "1.prems"(1) cK])
    have "frame K s (tiled_loop body step
            (step (fst (body v (g_clients t c)))
               (g_clients (resize_rect c (snd (body v (g_clients t c))) t) c))
            rest (resize_rect c (snd (body v (g_clients t c))) t))"
      using h(3) "1.prems"(2) by (intro "1.IH" [OF Cons f1]) blast
    then show ?thesis
      using Cons by (simp add: tiled_loop.simps [of body step v cs t])
  qed
qed

lemma frame_tiled_loop_mon:
  assumes "frame K s t" and "tiled_of s m \<subseteq> K" and "cs = m_clients (g_monitors s m)"
  shows "frame K s (tiled_loop body step v cs t)"
  using assms(2,3) by (intro frame_tiled_loop [OF assms(1)]) (auto simp: tiled_of_def)

lemma frame_ltsymbol:
  "frame K s t \<Longrightarrow> frame K s (upd_mon m (\<lambda>M. M\<lparr>m_ltsymbol := f M\<rparr>) t)"
  by (rule frame_upd_mon) (simp_all add: arr_mon_def)

lemmas frame_struct = frame_Let frame_case_prod frame_if

lemma frame_m_clients:
  "frame K s t \<Longrightarrow> m_clients (g_monitors t m) = m_clients (g_monitors s m)"
  by (rule arr_state_mon_fields(21) [OF frame_arr])

lemma frame_tile:
  assumes "frame K s t" and "tiled_of s m \<subseteq> K"
  shows "frame K s (tile m t)"
  unfolding tile_def
  by (intro frame_struct frame_tiled_loop_mon [OF _ assms(2)] frame_ltsymbol assms(1))
     (simp_all add: frame_m_clients [OF assms(1)])

lemma frame_deck:
  assumes "frame K s t" and "tiled_of s m \<subseteq> K"
  shows "frame K s (deck m t)"
  unfolding deck_def
  by (intro frame_struct frame_tiled_loop_mon [OF _ assms(2)] frame_ltsymbol assms(1))
     (simp_all add: frame_m_clients [OF assms(1)])

lemma frame_monocle:
  assumes "frame K s t" and "tiled_of s m \<subseteq> K"
  shows "frame K s (monocle m t)"
  unfolding monocle_def
  by (intro frame_struct frame_tiled_loop_mon [OF _ assms(2)] frame_ltsymbol assms(1))
     (simp_all add: frame_m_clients [OF assms(1)])

lemma frame_bstack:
  assumes "frame K s t" and "tiled_of s m \<subseteq> K"
  shows "frame K s (bstack m t)"
  unfolding bstack_def
  by (intro frame_struct frame_tiled_loop_mon [OF _ assms(2)] frame_ltsymbol assms(1))
     (simp_all add: frame_m_clients [OF assms(1)])

lemma frame_bstackhoriz:
  assumes "frame K s t" and "tiled_of s m \<subseteq> K"
  shows "frame K s (bstackhoriz m t)"
  unfolding bstackhoriz_def
  by (intro frame_struct frame_tiled_loop_mon [OF _ assms(2)] frame_ltsymbol assms(1))
     (simp_all add: frame_m_clients [OF assms(1)])

lemma frame_centeredmaster:
  assumes "frame K s t" and "tiled_of s m \<subseteq> K"
  shows "frame K s (centeredmaster m t)"
  unfolding centeredmaster_def
  by (intro frame_struct frame_tiled_loop_mon [OF _ assms(2)] frame_ltsymbol assms(1))
     (simp_all add: frame_m_clients [OF assms(1)])

lemma frame_fibonacci:
  assumes "frame K s t" and "tiled_of s m \<subseteq> K"
  shows "frame K s (fibonacci m sf t)"
  unfolding fibonacci_def
  by (intro frame_struct frame_tiled_loop_mon [OF _ assms(2)] frame_ltsymbol assms(1))
     (simp_all add: frame_m_clients [OF assms(1)])

lemma frame_grid:
  assumes "frame K s t" and "tiled_of s m \<subseteq> K"
  shows "frame K s (grid m t)"
  unfolding grid_def
  by (intro frame_struct frame_tiled_loop_mon [OF _ assms(2)] frame_ltsymbol assms(1))
     (simp_all add: frame_m_clients [OF assms(1)])

lemma frame_horizgrid:
  assumes "frame K s t" and "tiled_of s m \<subseteq> K"
  shows "frame K s (horizgrid m t)"
  unfolding horizgrid_def
  by (intro frame_struct frame_tiled_loop_mon [OF _ assms(2)] frame_ltsymbol assms(1))
     (simp_all add: frame_m_clients [OF assms(1)])

lemma frame_gaplessgrid:
  assumes "frame K s t" and "tiled_of s m \<subseteq> K"
  shows "frame K s (gaplessgrid m t)"
  unfolding gaplessgrid_def
  by (intro frame_struct frame_tiled_loop_mon [OF _ assms(2)] frame_ltsymbol assms(1))
     (simp_all add: frame_m_clients [OF assms(1)])

lemma frame_centeredfloatingmaster:
  assumes "frame K s t" and "tiled_of s m \<subseteq> K"
  shows "frame K s (centeredfloatingmaster m t)"
  unfolding centeredfloatingmaster_def
  by (intro frame_struct frame_tiled_loop_mon [OF _ assms(2)] frame_ltsymbol assms(1))
     (simp_all add: frame_m_clients [OF assms(1)])

lemma frame_call_arrange:
  assumes "frame K s t" and "tiled_of s m \<subseteq> K"
  shows "frame K s (call_arrange f m t)"
  unfolding call_arrange_def dwindle_def spiral_def
  by (cases f)
     (simp_all add: frame_tile frame_deck frame_monocle frame_bstack frame_bstackhoriz
        frame_centeredmaster frame_fibonacci frame_grid frame_horizgrid frame_gaplessgrid
        frame_centeredfloatingmaster assms)

lemma tiled_of_visible: "tiled_of s m \<subseteq> visible_of s"
  by (auto simp: tiled_of_def visible_of_def tiled_def)

lemma frame_ISVISIBLE: "frame K s t \<Longrightarrow> ISVISIBLE t c = ISVISIBLE s c"
  by (rule arr_state_views(3) [OF frame_arr])

lemma frame_updatebarpos:
  assumes "frame K s t"
  shows "frame K s (updatebarpos m t)"
  unfolding updatebarpos_def Let_def
  by (rule frame_upd_mon [OF assms]) (simp add: arr_mon_def)

lemma frame_showhide:
  assumes "frame K s t" and "visible_of s \<subseteq> K"
  shows "frame K s (showhide cs t)"
  using assms(1)
proof (induction cs arbitrary: t)
  case Nil
  then show ?case by simp
next
  case (Cons c cs)
  show ?case
  proof (cases "ISVISIBLE t c")
    case True
    then have cK: "c \<in> K"
      using frame_ISVISIBLE [OF Cons.prems] assms(2) by (auto simp: visible_of_def)
    show ?thesis
      using True
      by (simp add: Let_def)
         (intro conjI impI Cons.IH frame_resize frame_xdo Cons.prems cK,
          simp_all add: moves_only_def)
  next
    case False
    then show ?thesis
      by (simp add: Let_def) (intro frame_xdo Cons.IH Cons.prems, simp add: moves_only_def)
  qed
qed

lemma frame_arrangemon:
  assumes "frame K s t" and "tiled_of s m \<subseteq> K"
  shows "frame K s (arrangemon m t)"
proof -
  let ?t1 = "updatebarpos m t"
  let ?t2 = "xdo (XMoveResizeWindow (m_tabwin (g_monitors ?t1 m)) (m_wx (g_monitors ?t1 m))
                    (m_ty (g_monitors ?t1 m)) (m_ww (g_monitors ?t1 m)) (g_th ?t1)) ?t1"
  let ?t3 = "upd_mon m (\<lambda>M. M\<lparr>m_ltsymbol := take 16 (lt_symbol (cur_lt M))\<rparr>) ?t2"
  have f3: "frame K s ?t3"
    by (intro frame_ltsymbol frame_xdo frame_updatebarpos assms(1)) (simp add: moves_only_def)
  show ?thesis
    unfolding arrangemon_def Let_def
    by (cases "lt_arrange (cur_lt (g_monitors ?t3 m))")
       (simp_all add: f3 frame_call_arrange [OF f3 assms(2)])
qed

lemma frame_restack_below:
  "frame K s t \<Longrightarrow> frame K s (restack_below w cs t)"
  by (induction cs arbitrary: w t) (simp_all add: frame_xdo moves_only_def)

lemma frame_restack:
  assumes "frame K s t"
  shows "frame K s (restack m t)"
  unfolding restack_def Let_def
  by (cases "m_sel (g_monitors t m)")
     (simp_all add: assms frame_xdo frame_restack_below moves_only_def)

lemma frame_fold:
  assumes "frame K s t" and "\<And>m u. frame K s u \<Longrightarrow> frame K s (f m u)"
  shows "frame K s (fold f ms t)"
  using assms(1) by (induction ms arbitrary: t) (simp_all add: assms(2))

text \<open>\<^verbatim>\<open>arrange\<close> resizes visible clients only.\<close>

lemma frame_arrange_from:
  assumes "frame K s t" and "visible_of s \<subseteq> K"
  shows "frame K s (arrange mo t)"
proof -
  have k: "tiled_of s m \<subseteq> K" for m
    using tiled_of_visible assms(2) by blast
  show ?thesis
  proof (cases mo)
    case None
    have "frame K s (fold (\<lambda>m s'. showhide (m_stack (g_monitors s' m)) s') (g_mons t) t)"
      by (rule frame_fold [OF assms(1)]) (rule frame_showhide [OF _ assms(2)])
    then have "frame K s (fold arrangemon (g_mons t)
                 (fold (\<lambda>m s'. showhide (m_stack (g_monitors s' m)) s') (g_mons t) t))"
      by (rule frame_fold) (rule frame_arrangemon [OF _ k])
    then show ?thesis
      using None by (simp add: arrange_def)
  next
    case (Some m)
    show ?thesis
      unfolding arrange_def Some option.case
      by (intro frame_restack frame_arrangemon [OF _ k] frame_showhide [OF _ assms(2)] assms(1))
  qed
qed

lemma frame_arrange: "frame (visible_of s) s (arrange mo s)"
  by (rule frame_arrange_from [OF frame_refl]) simp

lemma arr_state_arrange: "arr_state (arrange mo s) = arr_state s"
  by (rule frame_arr [OF frame_arrange])

lemmas arrange_client_fields = arr_state_client_fields [OF arr_state_arrange]

lemmas arrange_mon_fields = arr_state_mon_fields [OF arr_state_arrange]

lemmas arrange_global_fields = arr_state_global_fields [OF arr_state_arrange]

lemma arrange_hidden: "\<not> ISVISIBLE s c \<Longrightarrow> g_clients (arrange mo s) c = g_clients s c"
  by (rule frame_same [OF frame_arrange]) (simp add: visible_of_def)

lemma arrange_log_from: "log_from xs t \<Longrightarrow> log_from xs (arrange mo t)"
  by (rule log_from_trans [OF _ frame_xlog [OF frame_arrange]])

lemma foc_state_upd_client:
  "foc_client (f (g_clients s c)) = foc_client (g_clients s c)
   \<Longrightarrow> foc_state (upd_client c f s) = foc_state s"
  by (simp add: foc_state_def upd_client_def fun_eq_iff)

lemma foc_state_upd_mon:
  "foc_mon (f (g_monitors s m)) = foc_mon (g_monitors s m)
   \<Longrightarrow> foc_state (upd_mon m f s) = foc_state s"
  by (simp add: foc_state_def upd_mon_def fun_eq_iff)

lemma foc_state_selmon [simp]: "foc_state (s\<lparr>g_selmon := m\<rparr>) = foc_state s"
  by (simp add: foc_state_def)

lemma foc_state_stack [simp]:
  "foc_state (upd_mon m (\<lambda>M. M\<lparr>m_stack := f M\<rparr>) s) = foc_state s"
  "foc_state (upd_mon m (\<lambda>M. M\<lparr>m_sel := g M\<rparr>) s) = foc_state s"
  by (simp_all add: foc_state_upd_mon foc_mon_def)

lemma foc_state_attachstack [simp]: "foc_state (attachstack c s) = foc_state s"
  by (simp add: attachstack_def)

lemma foc_state_detachstack [simp]: "foc_state (detachstack c s) = foc_state s"
  by (simp add: detachstack_def Let_def)

lemma foc_state_seturgent [simp]: "foc_state (seturgent c u s) = foc_state s"
  by (simp add: seturgent_def foc_state_upd_client foc_client_def)

lemma foc_state_focus: "foc_state (focus co s) = foc_state s"
  unfolding focus_def Let_def
  by (simp split: option.splits)


lemma foc_state_sel [simp]:
  "g_clients (foc_state s) c = foc_client (g_clients s c)"
  "g_monitors (foc_state s) m = foc_mon (g_monitors s m)"
  "g_mons (foc_state s) = g_mons s"
  "g_bh (foc_state s) = g_bh s"
  "g_th (foc_state s) = g_th s"
  "g_sw (foc_state s) = g_sw s"
  "g_sh (foc_state s) = g_sh s"
  "g_enablegaps (foc_state s) = g_enablegaps s"
  "g_xlog (foc_state s) = g_xlog s"
  "g_xtitle (foc_state s) = g_xtitle s"
  "g_xclass (foc_state s) = g_xclass s"
  by (simp_all add: foc_state_def)

lemma foc_client_sel [simp]:
  "c_name (foc_client C) = c_name C"
  "c_mina (foc_client C) = c_mina C"
  "c_maxa (foc_client C) = c_maxa C"
  "c_x (foc_client C) = c_x C"
  "c_y (foc_client C) = c_y C"
  "c_w (foc_client C) = c_w C"
  "c_h (foc_client C) = c_h C"
  "c_oldx (foc_client C) = c_oldx C"
  "c_oldy (foc_client C) = c_oldy C"
  "c_oldw (foc_client C) = c_oldw C"
  "c_oldh (foc_client C) = c_oldh C"
  "c_basew (foc_client C) = c_basew C"
  "c_baseh (foc_client C) = c_baseh C"
  "c_incw (foc_client C) = c_incw C"
  "c_inch (foc_client C) = c_inch C"
  "c_maxw (foc_client C) = c_maxw C"
  "c_maxh (foc_client C) = c_maxh C"
  "c_minw (foc_client C) = c_minw C"
  "c_minh (foc_client C) = c_minh C"
  "c_bw (foc_client C) = c_bw C"
  "c_oldbw (foc_client C) = c_oldbw C"
  "c_tags (foc_client C) = c_tags C"
  "c_isfixed (foc_client C) = c_isfixed C"
  "c_isfloating (foc_client C) = c_isfloating C"
  "c_neverfocus (foc_client C) = c_neverfocus C"
  "c_oldstate (foc_client C) = c_oldstate C"
  "c_isfullscreen (foc_client C) = c_isfullscreen C"
  "c_isterminal (foc_client C) = c_isterminal C"
  "c_noswallow (foc_client C) = c_noswallow C"
  "c_pid (foc_client C) = c_pid C"
  "c_swallowing (foc_client C) = c_swallowing C"
  "c_mon (foc_client C) = c_mon C"
  "c_win (foc_client C) = c_win C"
  by (simp_all add: foc_client_def)

lemma foc_mon_sel [simp]:
  "m_ltsymbol (foc_mon M) = m_ltsymbol M"
  "m_mfact (foc_mon M) = m_mfact M"
  "m_nmaster (foc_mon M) = m_nmaster M"
  "m_num (foc_mon M) = m_num M"
  "m_by (foc_mon M) = m_by M"
  "m_ty (foc_mon M) = m_ty M"
  "m_mx (foc_mon M) = m_mx M"
  "m_my (foc_mon M) = m_my M"
  "m_mw (foc_mon M) = m_mw M"
  "m_mh (foc_mon M) = m_mh M"
  "m_wx (foc_mon M) = m_wx M"
  "m_wy (foc_mon M) = m_wy M"
  "m_ww (foc_mon M) = m_ww M"
  "m_wh (foc_mon M) = m_wh M"
  "m_gappih (foc_mon M) = m_gappih M"
  "m_gappiv (foc_mon M) = m_gappiv M"
  "m_gappoh (foc_mon M) = m_gappoh M"
  "m_gappov (foc_mon M) = m_gappov M"
  "m_seltags (foc_mon M) = m_seltags M"
  "m_sellt (foc_mon M) = m_sellt M"
  "m_tagset (foc_mon M) = m_tagset M"
  "m_showbar (foc_mon M) = m_showbar M"
  "m_showtab (foc_mon M) = m_showtab M"
  "m_topbar (foc_mon M) = m_topbar M"
  "m_toptab (foc_mon M) = m_toptab M"
  "m_clients (foc_mon M) = m_clients M"
  "m_barwin (foc_mon M) = m_barwin M"
  "m_tabwin (foc_mon M) = m_tabwin M"
  "m_lt (foc_mon M) = m_lt M"
  "m_pertag (foc_mon M) = m_pertag M"
  by (simp_all add: foc_mon_def)

lemma focus_client_fields:
  "c_name (g_clients (focus co s) c) = c_name (g_clients s c)"
  "c_mina (g_clients (focus co s) c) = c_mina (g_clients s c)"
  "c_maxa (g_clients (focus co s) c) = c_maxa (g_clients s c)"
  "c_x (g_clients (focus co s) c) = c_x (g_clients s c)"
  "c_y (g_clients (focus co s) c) = c_y (g_clients s c)"
  "c_w (g_clients (focus co s) c) = c_w (g_clients s c)"
  "c_h (g_clients (focus co s) c) = c_h (g_clients s c)"
  "c_oldx (g_clients (focus co s) c) = c_oldx (g_clients s c)"
  "c_oldy (g_clients (focus co s) c) = c_oldy (g_clients s c)"
  "c_oldw (g_clients (focus co s) c) = c_oldw (g_clients s c)"
  "c_oldh (g_clients (focus co s) c) = c_oldh (g_clients s c)"
  "c_basew (g_clients (focus co s) c) = c_basew (g_clients s c)"
  "c_baseh (g_clients (focus co s) c) = c_baseh (g_clients s c)"
  "c_incw (g_clients (focus co s) c) = c_incw (g_clients s c)"
  "c_inch (g_clients (focus co s) c) = c_inch (g_clients s c)"
  "c_maxw (g_clients (focus co s) c) = c_maxw (g_clients s c)"
  "c_maxh (g_clients (focus co s) c) = c_maxh (g_clients s c)"
  "c_minw (g_clients (focus co s) c) = c_minw (g_clients s c)"
  "c_minh (g_clients (focus co s) c) = c_minh (g_clients s c)"
  "c_bw (g_clients (focus co s) c) = c_bw (g_clients s c)"
  "c_oldbw (g_clients (focus co s) c) = c_oldbw (g_clients s c)"
  "c_tags (g_clients (focus co s) c) = c_tags (g_clients s c)"
  "c_isfixed (g_clients (focus co s) c) = c_isfixed (g_clients s c)"
  "c_isfloating (g_clients (focus co s) c) = c_isfloating (g_clients s c)"
  "c_neverfocus (g_clients (focus co s) c) = c_neverfocus (g_clients s c)"
  "c_oldstate (g_clients (focus co s) c) = c_oldstate (g_clients s c)"
  "c_isfullscreen (g_clients (focus co s) c) = c_isfullscreen (g_clients s c)"
  "c_isterminal (g_clients (focus co s) c) = c_isterminal (g_clients s c)"
  "c_noswallow (g_clients (focus co s) c) = c_noswallow (g_clients s c)"
  "c_pid (g_clients (focus co s) c) = c_pid (g_clients s c)"
  "c_swallowing (g_clients (focus co s) c) = c_swallowing (g_clients s c)"
  "c_mon (g_clients (focus co s) c) = c_mon (g_clients s c)"
  "c_win (g_clients (focus co s) c) = c_win (g_clients s c)"
proof -
  have "g_clients (foc_state (focus co s)) c = g_clients (foc_state s) c"
    by (simp only: foc_state_focus)
  then have e: "foc_client (g_clients (focus co s) c) = foc_client (g_clients s c)"
    by simp
  have "\<And>f. f (foc_client (g_clients (focus co s) c)) = f (foc_client (g_clients s c))"
    using e by simp
  from this [of c_name] this [of c_mina] this [of c_maxa] this [of c_x] this [of c_y] this [of c_w] this [of c_h] this [of c_oldx] this [of c_oldy] this [of c_oldw] this [of c_oldh] this [of c_basew] this [of c_baseh] this [of c_incw] this [of c_inch] this [of c_maxw] this [of c_maxh] this [of c_minw] this [of c_minh] this [of c_bw] this [of c_oldbw] this [of c_tags] this [of c_isfixed] this [of c_isfloating] this [of c_neverfocus] this [of c_oldstate] this [of c_isfullscreen] this [of c_isterminal] this [of c_noswallow] this [of c_pid] this [of c_swallowing] this [of c_mon] this [of c_win]
  show
    "c_name (g_clients (focus co s) c) = c_name (g_clients s c)"
    "c_mina (g_clients (focus co s) c) = c_mina (g_clients s c)"
    "c_maxa (g_clients (focus co s) c) = c_maxa (g_clients s c)"
    "c_x (g_clients (focus co s) c) = c_x (g_clients s c)"
    "c_y (g_clients (focus co s) c) = c_y (g_clients s c)"
    "c_w (g_clients (focus co s) c) = c_w (g_clients s c)"
    "c_h (g_clients (focus co s) c) = c_h (g_clients s c)"
    "c_oldx (g_clients (focus co s) c) = c_oldx (g_clients s c)"
    "c_oldy (g_clients (focus co s) c) = c_oldy (g_clients s c)"
    "c_oldw (g_clients (focus co s) c) = c_oldw (g_clients s c)"
    "c_oldh (g_clients (focus co s) c) = c_oldh (g_clients s c)"
    "c_basew (g_clients (focus co s) c) = c_basew (g_clients s c)"
    "c_baseh (g_clients (focus co s) c) = c_baseh (g_clients s c)"
    "c_incw (g_clients (focus co s) c) = c_incw (g_clients s c)"
    "c_inch (g_clients (focus co s) c) = c_inch (g_clients s c)"
    "c_maxw (g_clients (focus co s) c) = c_maxw (g_clients s c)"
    "c_maxh (g_clients (focus co s) c) = c_maxh (g_clients s c)"
    "c_minw (g_clients (focus co s) c) = c_minw (g_clients s c)"
    "c_minh (g_clients (focus co s) c) = c_minh (g_clients s c)"
    "c_bw (g_clients (focus co s) c) = c_bw (g_clients s c)"
    "c_oldbw (g_clients (focus co s) c) = c_oldbw (g_clients s c)"
    "c_tags (g_clients (focus co s) c) = c_tags (g_clients s c)"
    "c_isfixed (g_clients (focus co s) c) = c_isfixed (g_clients s c)"
    "c_isfloating (g_clients (focus co s) c) = c_isfloating (g_clients s c)"
    "c_neverfocus (g_clients (focus co s) c) = c_neverfocus (g_clients s c)"
    "c_oldstate (g_clients (focus co s) c) = c_oldstate (g_clients s c)"
    "c_isfullscreen (g_clients (focus co s) c) = c_isfullscreen (g_clients s c)"
    "c_isterminal (g_clients (focus co s) c) = c_isterminal (g_clients s c)"
    "c_noswallow (g_clients (focus co s) c) = c_noswallow (g_clients s c)"
    "c_pid (g_clients (focus co s) c) = c_pid (g_clients s c)"
    "c_swallowing (g_clients (focus co s) c) = c_swallowing (g_clients s c)"
    "c_mon (g_clients (focus co s) c) = c_mon (g_clients s c)"
    "c_win (g_clients (focus co s) c) = c_win (g_clients s c)"
    by simp_all
qed

lemma focus_mon_fields:
  "m_ltsymbol (g_monitors (focus co s) m) = m_ltsymbol (g_monitors s m)"
  "m_mfact (g_monitors (focus co s) m) = m_mfact (g_monitors s m)"
  "m_nmaster (g_monitors (focus co s) m) = m_nmaster (g_monitors s m)"
  "m_num (g_monitors (focus co s) m) = m_num (g_monitors s m)"
  "m_by (g_monitors (focus co s) m) = m_by (g_monitors s m)"
  "m_ty (g_monitors (focus co s) m) = m_ty (g_monitors s m)"
  "m_mx (g_monitors (focus co s) m) = m_mx (g_monitors s m)"
  "m_my (g_monitors (focus co s) m) = m_my (g_monitors s m)"
  "m_mw (g_monitors (focus co s) m) = m_mw (g_monitors s m)"
  "m_mh (g_monitors (focus co s) m) = m_mh (g_monitors s m)"
  "m_wx (g_monitors (focus co s) m) = m_wx (g_monitors s m)"
  "m_wy (g_monitors (focus co s) m) = m_wy (g_monitors s m)"
  "m_ww (g_monitors (focus co s) m) = m_ww (g_monitors s m)"
  "m_wh (g_monitors (focus co s) m) = m_wh (g_monitors s m)"
  "m_gappih (g_monitors (focus co s) m) = m_gappih (g_monitors s m)"
  "m_gappiv (g_monitors (focus co s) m) = m_gappiv (g_monitors s m)"
  "m_gappoh (g_monitors (focus co s) m) = m_gappoh (g_monitors s m)"
  "m_gappov (g_monitors (focus co s) m) = m_gappov (g_monitors s m)"
  "m_seltags (g_monitors (focus co s) m) = m_seltags (g_monitors s m)"
  "m_sellt (g_monitors (focus co s) m) = m_sellt (g_monitors s m)"
  "m_tagset (g_monitors (focus co s) m) = m_tagset (g_monitors s m)"
  "m_showbar (g_monitors (focus co s) m) = m_showbar (g_monitors s m)"
  "m_showtab (g_monitors (focus co s) m) = m_showtab (g_monitors s m)"
  "m_topbar (g_monitors (focus co s) m) = m_topbar (g_monitors s m)"
  "m_toptab (g_monitors (focus co s) m) = m_toptab (g_monitors s m)"
  "m_clients (g_monitors (focus co s) m) = m_clients (g_monitors s m)"
  "m_barwin (g_monitors (focus co s) m) = m_barwin (g_monitors s m)"
  "m_tabwin (g_monitors (focus co s) m) = m_tabwin (g_monitors s m)"
  "m_lt (g_monitors (focus co s) m) = m_lt (g_monitors s m)"
  "m_pertag (g_monitors (focus co s) m) = m_pertag (g_monitors s m)"
proof -
  have "g_monitors (foc_state (focus co s)) m = g_monitors (foc_state s) m"
    by (simp only: foc_state_focus)
  then have e: "foc_mon (g_monitors (focus co s) m) = foc_mon (g_monitors s m)"
    by simp
  have "\<And>f. f (foc_mon (g_monitors (focus co s) m)) = f (foc_mon (g_monitors s m))"
    using e by simp
  from this [of m_ltsymbol] this [of m_mfact] this [of m_nmaster] this [of m_num] this [of m_by] this [of m_ty] this [of m_mx] this [of m_my] this [of m_mw] this [of m_mh] this [of m_wx] this [of m_wy] this [of m_ww] this [of m_wh] this [of m_gappih] this [of m_gappiv] this [of m_gappoh] this [of m_gappov] this [of m_seltags] this [of m_sellt] this [of m_tagset] this [of m_showbar] this [of m_showtab] this [of m_topbar] this [of m_toptab] this [of m_clients] this [of m_barwin] this [of m_tabwin] this [of m_lt] this [of m_pertag]
  show
    "m_ltsymbol (g_monitors (focus co s) m) = m_ltsymbol (g_monitors s m)"
    "m_mfact (g_monitors (focus co s) m) = m_mfact (g_monitors s m)"
    "m_nmaster (g_monitors (focus co s) m) = m_nmaster (g_monitors s m)"
    "m_num (g_monitors (focus co s) m) = m_num (g_monitors s m)"
    "m_by (g_monitors (focus co s) m) = m_by (g_monitors s m)"
    "m_ty (g_monitors (focus co s) m) = m_ty (g_monitors s m)"
    "m_mx (g_monitors (focus co s) m) = m_mx (g_monitors s m)"
    "m_my (g_monitors (focus co s) m) = m_my (g_monitors s m)"
    "m_mw (g_monitors (focus co s) m) = m_mw (g_monitors s m)"
    "m_mh (g_monitors (focus co s) m) = m_mh (g_monitors s m)"
    "m_wx (g_monitors (focus co s) m) = m_wx (g_monitors s m)"
    "m_wy (g_monitors (focus co s) m) = m_wy (g_monitors s m)"
    "m_ww (g_monitors (focus co s) m) = m_ww (g_monitors s m)"
    "m_wh (g_monitors (focus co s) m) = m_wh (g_monitors s m)"
    "m_gappih (g_monitors (focus co s) m) = m_gappih (g_monitors s m)"
    "m_gappiv (g_monitors (focus co s) m) = m_gappiv (g_monitors s m)"
    "m_gappoh (g_monitors (focus co s) m) = m_gappoh (g_monitors s m)"
    "m_gappov (g_monitors (focus co s) m) = m_gappov (g_monitors s m)"
    "m_seltags (g_monitors (focus co s) m) = m_seltags (g_monitors s m)"
    "m_sellt (g_monitors (focus co s) m) = m_sellt (g_monitors s m)"
    "m_tagset (g_monitors (focus co s) m) = m_tagset (g_monitors s m)"
    "m_showbar (g_monitors (focus co s) m) = m_showbar (g_monitors s m)"
    "m_showtab (g_monitors (focus co s) m) = m_showtab (g_monitors s m)"
    "m_topbar (g_monitors (focus co s) m) = m_topbar (g_monitors s m)"
    "m_toptab (g_monitors (focus co s) m) = m_toptab (g_monitors s m)"
    "m_clients (g_monitors (focus co s) m) = m_clients (g_monitors s m)"
    "m_barwin (g_monitors (focus co s) m) = m_barwin (g_monitors s m)"
    "m_tabwin (g_monitors (focus co s) m) = m_tabwin (g_monitors s m)"
    "m_lt (g_monitors (focus co s) m) = m_lt (g_monitors s m)"
    "m_pertag (g_monitors (focus co s) m) = m_pertag (g_monitors s m)"
    by simp_all
qed

lemma focus_global_fields:
  "g_mons (focus co s) = g_mons s"
  "g_bh (focus co s) = g_bh s"
  "g_th (focus co s) = g_th s"
  "g_sw (focus co s) = g_sw s"
  "g_sh (focus co s) = g_sh s"
  "g_enablegaps (focus co s) = g_enablegaps s"
  "g_xlog (focus co s) = g_xlog s"
  "g_xtitle (focus co s) = g_xtitle s"
  "g_xclass (focus co s) = g_xclass s"
proof -
  have "\<And>f. f (foc_state (focus co s)) = f (foc_state s)"
    by (simp only: foc_state_focus)
  from this [of g_mons] this [of g_bh] this [of g_th] this [of g_sw] this [of g_sh] this [of g_enablegaps] this [of g_xlog] this [of g_xtitle] this [of g_xclass]
  show
    "g_mons (focus co s) = g_mons s"
    "g_bh (focus co s) = g_bh s"
    "g_th (focus co s) = g_th s"
    "g_sw (focus co s) = g_sw s"
    "g_sh (focus co s) = g_sh s"
    "g_enablegaps (focus co s) = g_enablegaps s"
    "g_xlog (focus co s) = g_xlog s"
    "g_xtitle (focus co s) = g_xtitle s"
    "g_xclass (focus co s) = g_xclass s"
    by simp_all
qed

section \<open>Lemmas about the operations\<close>

lemma arr_state_resizeclient: "arr_state (resizeclient c x y w h s) = arr_state s"
  by (rule frame_arr [OF frame_resizeclient [OF frame_refl, of c UNIV]]) simp

lemmas resizeclient_client_fields = arr_state_client_fields [OF arr_state_resizeclient]
lemmas resizeclient_mon_fields = arr_state_mon_fields [OF arr_state_resizeclient]

lemma list_ops_clients [simp]:
  "g_clients (attach c s) = g_clients s"
  "g_clients (attachstack c s) = g_clients s"
  "g_clients (detach c s) = g_clients s"
  "g_clients (detachstack c s) = g_clients s"
  "g_clients (setclientstate c st s) = g_clients s"
  "g_monitors (setclientstate c st s) = g_monitors s"
  by (simp_all add: attach_def attachstack_def detach_def detachstack_def Let_def
        setclientstate_def)

lemma list_ops_xlog [simp]:
  "g_xlog (attach c s) = g_xlog s"
  "g_xlog (attachstack c s) = g_xlog s"
  "g_xlog (detach c s) = g_xlog s"
  "g_xlog (detachstack c s) = g_xlog s"
  "g_xlog (updatetitle c s) = g_xlog s"
  "g_xlog (setclientstate c st s) = g_xlog s @ [SetWMState (c_win (g_clients s c)) st]"
  by (simp_all add: attach_def attachstack_def detach_def detachstack_def Let_def
        updatetitle_def setclientstate_def)

lemma updatetitle_client_fields [simp]:
  "c_win (g_clients (updatetitle c s) c') = c_win (g_clients s c')"
  "c_swallowing (g_clients (updatetitle c s) c') = c_swallowing (g_clients s c')"
  "c_mon (g_clients (updatetitle c s) c') = c_mon (g_clients s c')"
  "c_tags (g_clients (updatetitle c s) c') = c_tags (g_clients s c')"
  "c_x (g_clients (updatetitle c s) c') = c_x (g_clients s c')"
  "c_y (g_clients (updatetitle c s) c') = c_y (g_clients s c')"
  "c_w (g_clients (updatetitle c s) c') = c_w (g_clients s c')"
  "c_h (g_clients (updatetitle c s) c') = c_h (g_clients s c')"
  "g_monitors (updatetitle c s) = g_monitors s"
  by (simp_all add: updatetitle_def)

lemma detach_monitors:
  "m_clients (g_monitors (detach c s) m) =
     (if m = c_mon (g_clients s c) then remove1 c (m_clients (g_monitors s m))
      else m_clients (g_monitors s m))"
  "m_stack (g_monitors (detach c s) m) = m_stack (g_monitors s m)"
  by (simp_all add: detach_def)

lemma detachstack_monitors:
  "m_clients (g_monitors (detachstack c s) m) = m_clients (g_monitors s m)"
  "m_stack (g_monitors (detachstack c s) m) =
     (if m = c_mon (g_clients s c) then remove1 c (m_stack (g_monitors s m))
      else m_stack (g_monitors s m))"
  by (simp_all add: detachstack_def Let_def)

lemma log_from_eq: "g_xlog t = xs \<Longrightarrow> log_from xs t"
  by (simp add: log_from_def)

lemma log_from_focus: "log_from xs t \<Longrightarrow> log_from xs (focus co t)"
  by (simp add: log_from_def focus_global_fields)

lemma swallow_skip:
  "c_noswallow (g_clients s c) \<noteq> 0 \<or> c_isterminal (g_clients s c) \<noteq> 0 \<Longrightarrow> swallow p c s = s"
  by (auto simp: swallow_def)

lemma swallow_effect:
  assumes "c_noswallow (g_clients s c) = 0" and "c_isterminal (g_clients s c) = 0"
  shows "c_win (g_clients (swallow p c s) p) = c_win (g_clients s c)"
    and "c_win (g_clients (swallow p c s) c) = c_win (g_clients s p)"
    and "c_swallowing (g_clients (swallow p c s) p) = Some c"
    and "m_clients (g_monitors (swallow p c s) (c_mon (g_clients s c))) =
           remove1 c (m_clients (g_monitors s (c_mon (g_clients s c))))"
    and "m_stack (g_monitors (swallow p c s) (c_mon (g_clients s c))) =
           remove1 c (m_stack (g_monitors s (c_mon (g_clients s c))))"
    and "log_from (g_xlog s @ [SetWMState (c_win (g_clients s c)) WithdrawnState,
                                XUnmapWindow (c_win (g_clients s p))])
           (swallow p c s)"
proof -
  show "c_win (g_clients (swallow p c s) p) = c_win (g_clients s c)"
    using assms by (simp add: swallow_def Let_def arrange_client_fields)
  show "c_win (g_clients (swallow p c s) c) = c_win (g_clients s p)"
    using assms by (simp add: swallow_def Let_def arrange_client_fields)
  show "c_swallowing (g_clients (swallow p c s) p) = Some c"
    using assms by (simp add: swallow_def Let_def arrange_client_fields)
  show "m_clients (g_monitors (swallow p c s) (c_mon (g_clients s c))) =
           remove1 c (m_clients (g_monitors s (c_mon (g_clients s c))))"
    using assms
    by (simp add: swallow_def Let_def arrange_mon_fields detach_monitors detachstack_monitors)
  show "m_stack (g_monitors (swallow p c s) (c_mon (g_clients s c))) =
           remove1 c (m_stack (g_monitors s (c_mon (g_clients s c))))"
    using assms
    by (simp add: swallow_def Let_def arrange_mon_fields detach_monitors detachstack_monitors)
  show "log_from (g_xlog s @ [SetWMState (c_win (g_clients s c)) WithdrawnState,
                                XUnmapWindow (c_win (g_clients s p))])
           (swallow p c s)"
  proof -
    have n1: "\<not> (c_noswallow (g_clients s c) \<noteq> 0 \<or> c_isterminal (g_clients s c) \<noteq> 0)"
      using assms by simp
    have n2: "\<not> (c_noswallow (g_clients s c) \<noteq> 0 \<and> False
                    \<and> c_isfloating (g_clients s c) \<noteq> 0)"
      by simp
    show ?thesis
      unfolding swallow_def Let_def if_not_P [OF n1] if_not_P [OF n2]
      by (intro arrange_log_from log_from_xdo log_from_eq) (simp_all add: moves_only_def)
  qed
qed


lemma setfullscreen_keeps:
  "c_win (g_clients (setfullscreen c f s) c') = c_win (g_clients s c')"
  "c_swallowing (g_clients (setfullscreen c f s) c') = c_swallowing (g_clients s c')"
  by (simp_all add: setfullscreen_def Let_def arrange_client_fields resizeclient_client_fields)

lemma unswallow_restore_keeps:
  "c_win (g_clients (unswallow_restore c sw s) c) = c_win (g_clients s sw)"
  "c_swallowing (g_clients (unswallow_restore c sw s) c) = None"
  by (simp_all add: unswallow_restore_def Let_def arrange_client_fields setfullscreen_keeps)

lemma unswallow_map_effect:
  "c_win (g_clients (unswallow_map c r) c') = c_win (g_clients r c')"
  "c_swallowing (g_clients (unswallow_map c r) c') = c_swallowing (g_clients r c')"
  "log_from (g_xlog r @ [XMapWindow (c_win (g_clients r c)),
                         XMoveResizeWindow (c_win (g_clients r c)) (c_x (g_clients r c))
                           (c_y (g_clients r c)) (c_w (g_clients r c)) (c_h (g_clients r c)),
                         SetWMState (c_win (g_clients r c)) NormalState])
     (unswallow_map c r)"
proof -
  show "c_win (g_clients (unswallow_map c r) c') = c_win (g_clients r c')"
    and "c_swallowing (g_clients (unswallow_map c r) c') = c_swallowing (g_clients r c')"
    by (simp_all add: unswallow_map_def Let_def arrange_client_fields focus_client_fields)
  show "log_from (g_xlog r @ [XMapWindow (c_win (g_clients r c)),
                         XMoveResizeWindow (c_win (g_clients r c)) (c_x (g_clients r c))
                           (c_y (g_clients r c)) (c_w (g_clients r c)) (c_h (g_clients r c)),
                         SetWMState (c_win (g_clients r c)) NormalState])
     (unswallow_map c r)"
    unfolding unswallow_map_def Let_def
    by (intro arrange_log_from log_from_focus log_from_eq) simp
qed

lemma and_push_bit_1: "((ui::tagmask) AND 2 ^ i = 0) = (\<not> bit ui i)"
  by (rule and_exp_eq_0_iff_not_bit)

lemma first_set_bit_finds:
  "bit ui j \<Longrightarrow> i \<le> j \<Longrightarrow> j < i + fuel
   \<Longrightarrow> \<exists>k. first_set_bit fuel i ui = Some k \<and> i \<le> k \<and> k \<le> j \<and> bit ui k
           \<and> (\<forall>l. i \<le> l \<and> l < k \<longrightarrow> \<not> bit ui l)"
proof (induction fuel arbitrary: i)
  case 0
  then show ?case by simp
next
  case (Suc fuel)
  show ?case
  proof (cases "bit ui i")
    case True
    then show ?thesis
      using Suc.prems by (auto simp: and_push_bit_1)
  next
    case False
    then have "i \<noteq> j"
      using Suc.prems(1) by auto
    then have "Suc i \<le> j" and "j < Suc i + fuel"
      using Suc.prems by simp_all
    from Suc.IH [OF Suc.prems(1) this]
    obtain k where k: "first_set_bit fuel (Suc i) ui = Some k" "Suc i \<le> k" "k \<le> j"
        "bit ui k" "\<forall>l. Suc i \<le> l \<and> l < k \<longrightarrow> \<not> bit ui l"
      by blast
    have "\<forall>l. i \<le> l \<and> l < k \<longrightarrow> \<not> bit ui l"
    proof (intro allI impI)
      fix l assume "i \<le> l \<and> l < k"
      then show "\<not> bit ui l"
        using k(5) False by (cases "l = i") auto
    qed
    then show ?thesis
      using False k by (simp add: and_push_bit_1)
  qed
qed

lemma TAGMASK_mask: "TAGMASK = mask 25"
  by (simp add: TAGMASK_def NTAGS_def mask_eq_exp_minus_1)

lemma TAGMASK_bit:
  assumes "(ui::tagmask) AND TAGMASK \<noteq> 0"
  shows "\<exists>j<25. bit ui j"
proof -
  from assms obtain n where "bit (ui AND mask 25) n"
    by (auto simp: TAGMASK_mask bit_eq_iff)
  then show ?thesis
    by (auto simp: bit_and_iff bit_mask_iff)
qed

lemma view_scan_defined:
  assumes "(ui::tagmask) AND TAGMASK \<noteq> 0"
  shows "\<exists>k<25. first_set_bit 31 0 ui = Some k"
proof -
  from TAGMASK_bit [OF assms] obtain j where j: "j < 25" "bit ui j"
    by blast
  from first_set_bit_finds [of ui j 0 31] j show ?thesis
    by auto
qed

lemma tagview_arrange [simp]:
  "tagview (g_monitors (arrange mo s) m) = tagview (g_monitors s m)"
  by (simp add: tagview_def arrange_mon_fields)

lemma tagview_focus [simp]:
  "tagview (g_monitors (focus co s) m) = tagview (g_monitors s m)"
  by (simp add: tagview_def focus_mon_fields)

lemma arr_state_updatebarpos: "arr_state (updatebarpos m s) = arr_state s"
  by (rule frame_arr [OF frame_updatebarpos [OF frame_refl, of UNIV]])

lemmas updatebarpos_mon_fields = arr_state_mon_fields [OF arr_state_updatebarpos]
lemmas updatebarpos_client_fields = arr_state_client_fields [OF arr_state_updatebarpos]

lemma tagview_togglebar [simp]:
  "tagview (g_monitors (togglebar s) m) = tagview (g_monitors s m)"
  by (simp add: togglebar_def Let_def tagview_def arrange_mon_fields updatebarpos_mon_fields)

lemma tagview_apply_pertag [simp]: "tagview (apply_pertag M) = tagview M"
  by (simp add: apply_pertag_def Let_def tagview_def)

lemma view_same: "ui AND TAGMASK = cur_tagset (g_monitors s (g_selmon s)) \<Longrightarrow> view ui s = Some s"
  by (simp add: view_def)

lemma view_tagview:
  assumes "ui AND TAGMASK \<noteq> cur_tagset (g_monitors s (g_selmon s))"
  shows "\<exists>t. view ui s = Some t
     \<and> tagview (g_monitors t (g_selmon s)) =
         (let M = g_monitors s (g_selmon s) in
          if ui AND TAGMASK \<noteq> 0
          then (m_seltags M XOR 1, (m_tagset M)(m_seltags M XOR 1 := ui AND TAGMASK),
                (if ui = - 1 then 0 else Suc (the (first_set_bit 31 0 ui))),
                pt_curtag (m_pertag M))
          else (m_seltags M XOR 1, m_tagset M, pt_prevtag (m_pertag M), pt_curtag (m_pertag M)))"
proof (cases "ui AND TAGMASK = 0")
  case True
  then show ?thesis
    using assms by (simp add: view_def Let_def) (simp add: tagview_def)
next
  case False
  from view_scan_defined [OF False] obtain k where k: "first_set_bit 31 0 ui = Some k"
    by blast
  show ?thesis
    using assms False k by (simp add: view_def Let_def) (simp add: tagview_def)
qed

subsection \<open>Tags\<close>

lemma bit_tagmask_length: "bit (t::tagmask) n \<Longrightarrow> n < 32"
  using bit_imp_le_length [of t n] by simp

lemma tags_valid_bits: "tags_valid t = (t \<noteq> 0 \<and> (\<forall>n. bit t n \<longrightarrow> n < 25))"
proof -
  have a: "(t AND NOT TAGMASK = 0) = (\<forall>n. bit t n \<longrightarrow> n < 25)"
    by (auto simp: TAGMASK_mask bit_eq_iff bit_and_iff bit_not_iff bit_mask_iff
          dest: bit_tagmask_length)
  have b: "t AND TAGMASK = t" if "\<forall>n. bit t n \<longrightarrow> n < 25"
    using that by (auto simp: TAGMASK_mask bit_eq_iff bit_and_iff bit_mask_iff)
  show ?thesis
    unfolding tags_valid_def a using b by auto
qed

lemma tags_valid_and: "ui AND TAGMASK \<noteq> 0 \<Longrightarrow> tags_valid (ui AND TAGMASK)"
  by (auto simp: tags_valid_bits TAGMASK_mask bit_and_iff bit_mask_iff)

lemma tags_valid_xor:
  "tags_valid t \<Longrightarrow> t XOR (ui AND TAGMASK) \<noteq> 0 \<Longrightarrow> tags_valid (t XOR (ui AND TAGMASK))"
  by (auto simp: tags_valid_bits TAGMASK_mask bit_and_iff bit_xor_iff bit_mask_iff)

lemma bit_tag_exp: "bit ((2::tagmask) ^ d) n = (n = d \<and> d < 32)"
  by (auto simp: bit_exp_iff)

lemma tags_valid_push_bit: "d < 25 \<Longrightarrow> tags_valid (push_bit d 1)"
proof -
  assume d: "d < 25"
  then have "(2::tagmask) ^ d \<noteq> 0"
    by simp
  then show ?thesis
    using d by (simp add: tags_valid_bits bit_tag_exp)
qed

subsection \<open>The renumbering of organizetags\<close>

lemma rank_0 [simp]: "rank occ 0 = 0"
  by (simp add: rank_def)

lemma rank_Suc: "rank occ (Suc i) = rank occ i + (if bit occ i then 1 else 0)"
  by (simp add: rank_def)

lemma rank_le: "rank occ i \<le> i"
  unfolding rank_def using length_filter_le [of "bit occ" "[0..<i]"] by simp




lemma skip_occ_stops:
  assumes "unocc \<le> r" and "r \<le> i" and "\<forall>j. unocc \<le> j \<and> j < r \<longrightarrow> bit occ j"
    and "r < i \<longrightarrow> \<not> bit occ r"
  shows "skip_occ i occ unocc = r"
  using assms
proof (induction i occ unocc rule: skip_occ.induct)
  case (1 i occ unocc)
  show ?case
  proof (cases "unocc = r")
    case True
    then have "\<not> (unocc < i \<and> occ AND push_bit unocc 1 \<noteq> 0)"
      using "1.prems"(2,4) by (auto simp: and_push_bit_1)
    then show ?thesis
      using True by (subst skip_occ.simps) (auto simp del: push_bit_of_1)
  next
    case False
    then have lt: "unocc < r"
      using "1.prems"(1) by simp
    then have c: "unocc < i \<and> occ AND push_bit unocc 1 \<noteq> 0"
      using "1.prems"(2,3) by (simp add: and_push_bit_1)
    have "skip_occ i occ (unocc + 1) = r"
      using lt "1.prems" by (intro "1.IH" [OF c]) auto
    then show ?thesis
      using c by (simp add: skip_occ.simps [of i occ unocc])
  qed
qed

lemma dest_loop_inv:
  assumes "k \<le> 32"
  shows "\<exists>unocc occ td. dest_loop occ0 k = (unocc, occ, td)
     \<and> unocc \<le> rank occ0 k
     \<and> (\<forall>j. unocc \<le> j \<and> j < rank occ0 k \<longrightarrow> bit occ j)
     \<and> (\<forall>j. bit occ j = (j < rank occ0 k \<or> (k \<le> j \<and> bit occ0 j)))
     \<and> (\<forall>i. td i = (if i < k \<and> bit occ0 i then Some (rank occ0 i) else None))"
  using assms
proof (induction k)
  case 0
  then show ?case
    by (simp add: dest_loop_def)
next
  case (Suc k)
  then have "k \<le> 32" by simp
  from Suc.IH [OF this] obtain unocc occ td where
    d: "dest_loop occ0 k = (unocc, occ, td)"
    and u: "unocc \<le> rank occ0 k"
    and f: "\<forall>j. unocc \<le> j \<and> j < rank occ0 k \<longrightarrow> bit occ j"
    and o: "\<forall>j. bit occ j = (j < rank occ0 k \<or> (k \<le> j \<and> bit occ0 j))"
    and t: "\<forall>i. td i = (if i < k \<and> bit occ0 i then Some (rank occ0 i) else None)"
    by blast
  let ?r = "rank occ0 k"
  have rk: "?r \<le> k"
    by (rule rank_le)
  have "?r < k \<longrightarrow> \<not> bit occ ?r"
    using o by auto
  from skip_occ_stops [OF u rk f this] have sk: "skip_occ k occ unocc = ?r" .
  have bk: "bit occ k = bit occ0 k"
    using o rk by auto
  have k32: "k < 32" and r32: "?r < 32"
    using Suc.prems rk by simp_all
  have "dest_loop occ0 (Suc k) =
      (\<lambda>(unocc, occ, tagdest).
             (let unocc1 = skip_occ k occ unocc in
              if occ AND push_bit k 1 \<noteq> 0
              then (unocc1, (occ AND NOT (push_bit k 1)) OR push_bit unocc1 1,
                    tagdest(k \<mapsto> unocc1))
              else (unocc1, occ, tagdest))) (dest_loop occ0 k)"
    by (simp add: dest_loop_def)
  then have step: "dest_loop occ0 (Suc k) =
     (if bit occ0 k then (?r, (occ AND NOT (push_bit k 1)) OR push_bit ?r 1, td(k \<mapsto> ?r))
      else (?r, occ, td))"
    by (simp add: d Let_def and_push_bit_1 bk sk)
  have oj: "bit occ j = (j < ?r \<or> (k \<le> j \<and> bit occ0 j))" for j
    using o by blast
  show ?case
  proof (cases "bit occ0 k")
    case True
    have rs: "rank occ0 (Suc k) = Suc ?r"
      using True by (simp add: rank_Suc)
    have bj: "bit ((occ AND NOT (push_bit k 1)) OR push_bit ?r 1) j
            = (j < Suc ?r \<or> (Suc k \<le> j \<and> bit occ0 j))" for j
    proof -
      have "bit ((occ AND NOT (push_bit k 1)) OR push_bit ?r 1) j
            = ((bit occ j \<and> j \<noteq> k) \<or> j = ?r)"
        using k32 r32 bit_tagmask_length [of occ j]
        by (simp add: bit_or_iff bit_and_iff bit_not_iff bit_tag_exp) blast
      also have "\<dots> = (((j < ?r \<or> (k \<le> j \<and> bit occ0 j)) \<and> j \<noteq> k) \<or> j = ?r)"
        by (simp only: oj)
      also have "\<dots> = (j < Suc ?r \<or> (Suc k \<le> j \<and> bit occ0 j))"
        using rk by (cases "bit occ0 j") (simp_all, linarith+)
      finally show ?thesis .
    qed
    have tj: "(td(k \<mapsto> ?r)) i
            = (if i < Suc k \<and> bit occ0 i then Some (rank occ0 i) else None)" for i
      using True t by (cases "i = k") (simp_all add: less_Suc_eq)
    have "dest_loop occ0 (Suc k)
           = (?r, (occ AND NOT (push_bit k 1)) OR push_bit ?r 1, td(k \<mapsto> ?r))"
      using True step by simp
    moreover have "?r \<le> rank occ0 (Suc k)"
      by (simp add: rs)
    moreover have "\<forall>j. ?r \<le> j \<and> j < rank occ0 (Suc k)
                    \<longrightarrow> bit ((occ AND NOT (push_bit k 1)) OR push_bit ?r 1) j"
      unfolding bj rs by simp
    ultimately show ?thesis
      using bj tj unfolding rs by blast
  next
    case False
    have rs: "rank occ0 (Suc k) = ?r"
      using False by (simp add: rank_Suc)
    have bj: "bit occ j = (j < ?r \<or> (Suc k \<le> j \<and> bit occ0 j))" for j
      unfolding oj using False by (cases "j = k") (simp_all, linarith+)
    have tj: "td i = (if i < Suc k \<and> bit occ0 i then Some (rank occ0 i) else None)" for i
      using False t by (cases "i = k") (simp_all add: less_Suc_eq)
    have "dest_loop occ0 (Suc k) = (?r, occ, td)"
      using False step by simp
    moreover have "\<forall>j. ?r \<le> j \<and> j < ?r \<longrightarrow> bit occ j"
      by auto
    ultimately show ?thesis
      using bj tj unfolding rs by blast
  qed
qed

lemma tags_dest_eq:
  "tags_dest occ0 i = (if i < 25 \<and> bit occ0 i then Some (rank occ0 i) else None)"
proof -
  from dest_loop_inv [of 25 occ0] obtain unocc occ td where
    "dest_loop occ0 25 = (unocc, occ, td)"
    and "\<forall>i. td i = (if i < 25 \<and> bit occ0 i then Some (rank occ0 i) else None)"
    by auto
  then show ?thesis
    by (simp add: tags_dest_def dest_loop_def NTAGS_def)
qed

lemma ffs_valid:
  assumes "t AND TAGMASK \<noteq> 0"
  shows "ffs t = Suc (lowtag t)" and "lowtag t < 25" and "bit t (lowtag t)"
proof -
  from TAGMASK_bit [OF assms] obtain j where j: "j < 25" "bit t j"
    by blast
  from first_set_bit_finds [of t j 0 32] j obtain k where
    k: "first_set_bit 32 0 t = Some k" "k \<le> j" "bit t k"
    by auto
  then have f: "ffs t = Suc k"
    by (simp add: ffs_def)
  then show "ffs t = Suc (lowtag t)"
    by (simp add: lowtag_def)
  show "lowtag t < 25" and "bit t (lowtag t)"
    using f k j by (simp_all add: lowtag_def)
qed

lemma ffs_valid_simps:
  assumes "t AND TAGMASK \<noteq> 0"
  shows "ffs t \<noteq> 0" and "ffs t - 1 = lowtag t" and "ffs t - Suc 0 = lowtag t"
  using ffs_valid(1) [OF assms] by (simp_all add: lowtag_def)


lemma tags_occ_fold:
  assumes "\<forall>c\<in>set cs. c_tags (g_clients s c) AND TAGMASK \<noteq> 0"
  shows "\<exists>occ. fold (\<lambda>c acc. case acc of
                      None \<Rightarrow> None
                    | Some occ \<Rightarrow>
                        if ffs (c_tags (g_clients s c)) = 0 then None
                        else Some (occ OR push_bit (ffs (c_tags (g_clients s c)) - 1) 1))
          cs (Some (a::tagmask)) = Some occ
     \<and> (\<forall>j. bit occ j = (bit a j \<or> (\<exists>c\<in>set cs. lowtag (c_tags (g_clients s c)) = j)))"
  using assms
proof (induction cs arbitrary: a)
  case Nil
  then show ?case by simp
next
  case (Cons c cs)
  have v: "c_tags (g_clients s c) AND TAGMASK \<noteq> 0"
    using Cons.prems by simp
  note fv = ffs_valid [OF v]
  let ?a' = "a OR push_bit (lowtag (c_tags (g_clients s c))) 1"
  from Cons.IH [of ?a'] Cons.prems obtain occ where
    o: "fold (\<lambda>c acc. case acc of
                      None \<Rightarrow> None
                    | Some occ \<Rightarrow>
                        if ffs (c_tags (g_clients s c)) = 0 then None
                        else Some (occ OR push_bit (ffs (c_tags (g_clients s c)) - 1) 1))
          cs (Some ?a') = Some occ"
    and b: "\<forall>j. bit occ j = (bit ?a' j \<or> (\<exists>c\<in>set cs. lowtag (c_tags (g_clients s c)) = j))"
    by auto
  have "bit ?a' j = (bit a j \<or> j = lowtag (c_tags (g_clients s c)))" for j
    using fv(2) by (auto simp: bit_or_iff bit_tag_exp)
  then have "\<forall>j. bit occ j
      = (bit a j \<or> (\<exists>c'\<in>set (c # cs). lowtag (c_tags (g_clients s c')) = j))"
    using b by auto
  moreover have "fold (\<lambda>c acc. case acc of
                      None \<Rightarrow> None
                    | Some occ \<Rightarrow>
                        if ffs (c_tags (g_clients s c)) = 0 then None
                        else Some (occ OR push_bit (ffs (c_tags (g_clients s c)) - 1) 1))
          (c # cs) (Some a) = Some occ"
    using o ffs_valid_simps [OF v] by simp
  ultimately show ?case
    by blast
qed

lemma tags_occ_valid:
  assumes "\<forall>c\<in>set cs. c_tags (g_clients s c) AND TAGMASK \<noteq> 0"
  shows "\<exists>occ. tags_occ s cs = Some occ
     \<and> (\<forall>j. bit occ j = (\<exists>c\<in>set cs. lowtag (c_tags (g_clients s c)) = j))"
  using tags_occ_fold [OF assms, of 0] by (simp add: tags_occ_def)

lemma retag_distinct:
  assumes "distinct cs"
    and "\<forall>c\<in>set cs. c_tags (g_clients s c) AND TAGMASK \<noteq> 0
                    \<and> td (lowtag (c_tags (g_clients s c))) = Some (f (lowtag (c_tags (g_clients s c))))"
  shows "retag td cs s = Some (retagged f cs s)"
  using assms
proof (induction cs arbitrary: s)
  case Nil
  then show ?case
    by (simp add: retag_def retagged_def)
next
  case (Cons c cs)
  let ?s1 = "upd_client c (\<lambda>C. C\<lparr>c_tags := push_bit (f (lowtag (c_tags (g_clients s c)))) 1\<rparr>) s"
  have v: "c_tags (g_clients s c) AND TAGMASK \<noteq> 0"
    and d: "td (lowtag (c_tags (g_clients s c))) = Some (f (lowtag (c_tags (g_clients s c))))"
    using Cons.prems(2) by simp_all
  have nc: "c \<notin> set cs" and dc: "distinct cs"
    using Cons.prems(1) by simp_all
  have same: "g_clients ?s1 c' = g_clients s c'" if "c' \<in> set cs" for c'
    using that nc by auto
  have "retag td cs ?s1 = Some (retagged f cs ?s1)"
    using Cons.prems(2) same by (intro Cons.IH [OF dc]) simp
  moreover have "retagged f cs ?s1 = retagged f (c # cs) s"
    using nc by (auto simp: retagged_def upd_client_def fun_eq_iff)
  moreover have "retag td (c # cs) s = retag td cs ?s1"
    using ffs_valid_simps [OF v] d by (simp add: retag_def)
  ultimately show ?case
    by simp
qed

lemma organizetags_effect:
  assumes d: "distinct (m_clients (g_monitors s (g_selmon s)))"
    and v: "\<forall>c\<in>set (m_clients (g_monitors s (g_selmon s))). c_tags (g_clients s c) AND TAGMASK \<noteq> 0"
  shows "\<exists>occ t. (\<forall>j. bit occ j = (\<exists>c\<in>set (m_clients (g_monitors s (g_selmon s))).
                                     lowtag (c_tags (g_clients s c)) = j))
     \<and> organizetags s = Some t
     \<and> (\<forall>c. c_tags (g_clients t c) =
            (if c \<in> set (m_clients (g_monitors s (g_selmon s)))
             then push_bit (rank occ (lowtag (c_tags (g_clients s c)))) 1
             else c_tags (g_clients s c)))
     \<and> (\<forall>m. m_clients (g_monitors t m) = m_clients (g_monitors s m))
     \<and> g_selmon t = g_selmon s"
proof -
  let ?m = "g_selmon s"
  let ?cs = "m_clients (g_monitors s ?m)"
  from tags_occ_valid [OF v] obtain occ where
    o: "tags_occ s ?cs = Some occ"
    and b: "\<forall>j. bit occ j = (\<exists>c\<in>set ?cs. lowtag (c_tags (g_clients s c)) = j)"
    by blast
  have td: "tags_dest occ (lowtag (c_tags (g_clients s c)))
            = Some (rank occ (lowtag (c_tags (g_clients s c))))" if "c \<in> set ?cs" for c
  proof -
    have "c_tags (g_clients s c) AND TAGMASK \<noteq> 0"
      using v that by blast
    from ffs_valid(2) [OF this] have "lowtag (c_tags (g_clients s c)) < 25" .
    moreover have "bit occ (lowtag (c_tags (g_clients s c)))"
      using b that by blast
    ultimately show ?thesis
      by (simp add: tags_dest_eq)
  qed
  have r: "retag (tags_dest occ) ?cs s = Some (retagged (rank occ) ?cs s)"
    using v td by (intro retag_distinct [OF d]) simp
  define s1 where "s1 = retagged (rank occ) ?cs s"
  define s2 where "s2 = (case m_sel (g_monitors s1 ?m) of
               None \<Rightarrow> s1
             | Some sel \<Rightarrow>
                 upd_mon ?m (\<lambda>M. M\<lparr>m_tagset :=
                   (m_tagset M)(m_seltags M := c_tags (g_clients s1 sel))\<rparr>) s1)"
  define t where "t = arrange (Some ?m) s2"
  have org: "organizetags s = Some t"
    unfolding t_def s2_def s1_def by (simp add: organizetags_def Let_def o r)
  have c2: "g_clients s2 = g_clients s1"
    unfolding s2_def by (cases "m_sel (g_monitors s1 ?m)") simp_all
  have m1: "m_clients (g_monitors s1 m) = m_clients (g_monitors s m)" for m
    by (simp add: s1_def retagged_def)
  have m2: "m_clients (g_monitors s2 m) = m_clients (g_monitors s m)" for m
    unfolding s2_def by (cases "m_sel (g_monitors s1 ?m)") (simp_all add: m1 upd_mon_def)
  have g2: "g_selmon s2 = g_selmon s"
    unfolding s2_def by (cases "m_sel (g_monitors s1 ?m)") (simp_all add: s1_def retagged_def)
  have ct: "c_tags (g_clients t c) =
            (if c \<in> set ?cs
             then push_bit (rank occ (lowtag (c_tags (g_clients s c)))) 1
             else c_tags (g_clients s c))" for c
    unfolding t_def by (simp only: arrange_client_fields c2) (simp add: s1_def retagged_def)
  have mt: "m_clients (g_monitors t m) = m_clients (g_monitors s m)" for m
    unfolding t_def by (simp only: arrange_mon_fields m2)
  have gt: "g_selmon t = g_selmon s"
    unfolding t_def by (simp only: arrange_global_fields g2)
  show ?thesis
    by (rule exI [of _ occ], rule exI [of _ t]) (simp only: b org ct mt gt simp_thms)
qed

lemma apply_rule_effect:
  "g_monitors (apply_rule class instance c r s) = g_monitors s"
  "g_mons (apply_rule class instance c r s) = g_mons s"
  "c' \<noteq> c \<Longrightarrow> g_clients (apply_rule class instance c r s) c' = g_clients s c'"
  "c_name (g_clients (apply_rule class instance c r s) c) = c_name (g_clients s c)"
  "c_tags (g_clients (apply_rule class instance c r s) c) =
     (if rule_matches r (c_name (g_clients s c)) class instance
      then c_tags (g_clients s c) OR r_tags r else c_tags (g_clients s c))"
  by (simp_all add: apply_rule_def Let_def split: option.splits)

lemma fold_apply_rule_effect:
  "g_monitors (fold (apply_rule class instance c) rs s) = g_monitors s"
  "c' \<noteq> c \<Longrightarrow> g_clients (fold (apply_rule class instance c) rs s) c' = g_clients s c'"
  "c_name (g_clients (fold (apply_rule class instance c) rs s) c) = c_name (g_clients s c)"
  by (induction rs arbitrary: s) (simp_all add: apply_rule_effect)

lemma fold_apply_rule_tags:
  assumes "c_tags (g_clients s c) AND TAGMASK = 0"
    and "\<forall>r\<in>set rs. rule_matches r (c_name (g_clients s c)) class instance
                     \<longrightarrow> r_tags r AND TAGMASK = 0"
  shows "c_tags (g_clients (fold (apply_rule class instance c) rs s) c) AND TAGMASK = 0"
  using assms
proof (induction rs arbitrary: s)
  case Nil
  then show ?case by simp
next
  case (Cons r rs)
  have "c_tags (g_clients (apply_rule class instance c r s) c) AND TAGMASK = 0"
    using Cons.prems by (simp add: apply_rule_effect bit.conj_disj_distrib2)
  then show ?case
    using Cons.prems(2) by (simp add: Cons.IH apply_rule_effect)
qed

lemma applyrules_table_effect:
  "g_monitors (applyrules_table rs c s) = g_monitors s"
  "c' \<noteq> c \<Longrightarrow> g_clients (applyrules_table rs c s) c' = g_clients s c'"
  by (simp_all add: applyrules_table_def Let_def fold_apply_rule_effect)

lemma applyrules_table_valid:
  assumes "\<forall>m. tags_valid (cur_tagset (g_monitors s m))"
  shows "tags_valid (c_tags (g_clients (applyrules_table rs c s) c))"
proof -
  define s2 where "s2 = fold (apply_rule
      (case fst (g_xclass s (c_win (g_clients s c))) of None \<Rightarrow> ''broken'' | Some k \<Rightarrow> k)
      (case snd (g_xclass s (c_win (g_clients s c))) of None \<Rightarrow> ''broken'' | Some i \<Rightarrow> i) c)
      rs (upd_client c (\<lambda>C. C\<lparr>c_isfloating := 0, c_tags := 0\<rparr>) s)"
  have m: "g_monitors s2 = g_monitors s"
    by (simp add: s2_def fold_apply_rule_effect)
  have e: "c_tags (g_clients (applyrules_table rs c s) c) =
      (if c_tags (g_clients s2 c) AND TAGMASK \<noteq> 0 then c_tags (g_clients s2 c) AND TAGMASK
       else cur_tagset (g_monitors s (c_mon (g_clients s2 c))))"
    by (simp add: applyrules_table_def Let_def s2_def [symmetric] m)
  show ?thesis
    using assms by (simp add: e tags_valid_and)
qed

lemma applyrules_table_fallback:
  assumes "\<forall>r\<in>set rs. rule_matches r (c_name (g_clients s c))
              (case fst (g_xclass s (c_win (g_clients s c))) of None \<Rightarrow> ''broken'' | Some k \<Rightarrow> k)
              (case snd (g_xclass s (c_win (g_clients s c))) of None \<Rightarrow> ''broken'' | Some i \<Rightarrow> i)
            \<longrightarrow> r_tags r AND TAGMASK = 0"
  shows "c_tags (g_clients (applyrules_table rs c s) c)
         = cur_tagset (g_monitors s (c_mon (g_clients (applyrules_table rs c s) c)))"
proof -
  let ?s1 = "upd_client c (\<lambda>C. C\<lparr>c_isfloating := 0, c_tags := 0\<rparr>) s"
  let ?cl = "case fst (g_xclass s (c_win (g_clients s c))) of None \<Rightarrow> ''broken'' | Some k \<Rightarrow> k"
  let ?inst = "case snd (g_xclass s (c_win (g_clients s c))) of None \<Rightarrow> ''broken'' | Some i \<Rightarrow> i"
  have "c_tags (g_clients (fold (apply_rule ?cl ?inst c) rs ?s1) c) AND TAGMASK = 0"
    using assms by (intro fold_apply_rule_tags) simp_all
  then show ?thesis
    by (simp add: applyrules_table_def Let_def fold_apply_rule_effect)
qed

lemma tag_effect:
  "c_tags (g_clients (tag ui s) c) =
     (if m_sel (g_monitors s (g_selmon s)) = Some c \<and> ui AND TAGMASK \<noteq> 0
      then ui AND TAGMASK else c_tags (g_clients s c))"
  by (simp add: tag_def Let_def arrange_client_fields focus_client_fields split: option.splits)

lemma toggletag_effect:
  "c_tags (g_clients (toggletag ui s) c) =
     (if m_sel (g_monitors s (g_selmon s)) = Some c
         \<and> c_tags (g_clients s c) XOR (ui AND TAGMASK) \<noteq> 0
      then c_tags (g_clients s c) XOR (ui AND TAGMASK) else c_tags (g_clients s c))"
  by (simp add: toggletag_def Let_def arrange_client_fields focus_client_fields
        split: option.splits)

lemma sendmon_effect:
  "c_tags (g_clients (sendmon c m s) c') =
     (if c' = c \<and> c_mon (g_clients s c) \<noteq> m
      then cur_tagset (g_monitors s m) else c_tags (g_clients s c'))"
proof -
  have "cur_tagset (g_monitors (detachstack c (detach c s)) m) = cur_tagset (g_monitors s m)"
    by (simp add: detachstack_def detach_def Let_def cur_tagset_def upd_mon_def)
  then show ?thesis
    by (simp add: sendmon_def Let_def arrange_client_fields focus_client_fields)
qed

lemma organizetags_valid:
  assumes "distinct (m_clients (g_monitors s (g_selmon s)))"
    and "\<forall>c\<in>set (m_clients (g_monitors s (g_selmon s))). c_tags (g_clients s c) AND TAGMASK \<noteq> 0"
    and "tags_valid (c_tags (g_clients s c))"
  shows "\<exists>t. organizetags s = Some t \<and> tags_valid (c_tags (g_clients t c))"
proof -
  let ?cs = "m_clients (g_monitors s (g_selmon s))"
  from organizetags_effect [OF assms(1,2)] obtain occ t where
    org: "organizetags s = Some t"
    and ct: "\<And>c. c_tags (g_clients t c) =
            (if c \<in> set ?cs
             then push_bit (rank occ (lowtag (c_tags (g_clients s c)))) 1
             else c_tags (g_clients s c))"
    by blast
  have "tags_valid (c_tags (g_clients t c))"
  proof (cases "c \<in> set ?cs")
    case True
    then have "c_tags (g_clients s c) AND TAGMASK \<noteq> 0"
      using assms(2) by blast
    from ffs_valid(2) [OF this] rank_le [of occ "lowtag (c_tags (g_clients s c))"]
    have "rank occ (lowtag (c_tags (g_clients s c))) < 25"
      by simp
    from tags_valid_push_bit [OF this] show ?thesis
      using True by (simp only: ct if_True)
  next
    case False
    then show ?thesis
      using assms(3) by (simp only: ct if_False)
  qed
  then show ?thesis
    using org by blast
qed

lemma rules_no_tags: "\<forall>r\<in>set rules. r_tags r AND TAGMASK = 0"
  by (simp add: rules_def)

subsection \<open>Master factor\<close>



subsection \<open>The shares of the tile layout\<close>










subsection \<open>The fullscreen toggle\<close>

lemma old_client_sel [simp]:
  "c_name (old_client C) = c_name C"
  "c_mina (old_client C) = c_mina C"
  "c_maxa (old_client C) = c_maxa C"
  "c_x (old_client C) = c_x C"
  "c_y (old_client C) = c_y C"
  "c_w (old_client C) = c_w C"
  "c_h (old_client C) = c_h C"
  "c_basew (old_client C) = c_basew C"
  "c_baseh (old_client C) = c_baseh C"
  "c_incw (old_client C) = c_incw C"
  "c_inch (old_client C) = c_inch C"
  "c_maxw (old_client C) = c_maxw C"
  "c_maxh (old_client C) = c_maxh C"
  "c_minw (old_client C) = c_minw C"
  "c_minh (old_client C) = c_minh C"
  "c_bw (old_client C) = c_bw C"
  "c_tags (old_client C) = c_tags C"
  "c_isfixed (old_client C) = c_isfixed C"
  "c_isfloating (old_client C) = c_isfloating C"
  "c_isurgent (old_client C) = c_isurgent C"
  "c_neverfocus (old_client C) = c_neverfocus C"
  "c_isfullscreen (old_client C) = c_isfullscreen C"
  "c_isterminal (old_client C) = c_isterminal C"
  "c_noswallow (old_client C) = c_noswallow C"
  "c_pid (old_client C) = c_pid C"
  "c_swallowing (old_client C) = c_swallowing C"
  "c_mon (old_client C) = c_mon C"
  "c_win (old_client C) = c_win C"
  "WIDTH (old_client C) = WIDTH C"
  "HEIGHT (old_client C) = HEIGHT C"
  "old_client (old_client C) = old_client C"
  by (simp_all add: old_client_def WIDTH_def HEIGHT_def)

lemma old_state_sel [simp]:
  "g_clients (old_state s) c = old_client (g_clients s c)"
  "g_monitors (old_state s) = g_monitors s"
  "g_mons (old_state s) = g_mons s"
  "g_selmon (old_state s) = g_selmon s"
  "g_bh (old_state s) = g_bh s"
  "g_th (old_state s) = g_th s"
  "g_sw (old_state s) = g_sw s"
  "g_sh (old_state s) = g_sh s"
  "g_enablegaps (old_state s) = g_enablegaps s"
  "g_xtitle (old_state s) = g_xtitle s"
  "g_xclass (old_state s) = g_xclass s"
  by (simp_all add: old_state_def)

lemma old_state_idem [simp]: "old_state (old_state s) = old_state s"
  by (simp add: old_state_def)

lemma old_state_views [simp]:
  "ISVISIBLE (old_state s) = ISVISIBLE s"
  "nexttiled (old_state s) = nexttiled s"
  "ntiled (old_state s) = ntiled s"
  "getgaps (old_state s) = getgaps s"
  "getfacts (old_state s) = getfacts s"
proof -
  show v: "ISVISIBLE (old_state s) = ISVISIBLE s"
    by (rule ext) (simp add: ISVISIBLE_def)
  show "nexttiled (old_state s) = nexttiled s"
    by (rule ext) (simp add: nexttiled_def v)
  show n: "ntiled (old_state s) = ntiled s"
    by (rule ext) (simp add: ntiled_def v)
  show "getgaps (old_state s) = getgaps s"
    unfolding getgaps_def old_state_sel n by (rule refl)
  show "getfacts (old_state s) = getfacts s"
    unfolding getfacts_def old_state_sel n by (rule refl)
qed

lemma Let_client:
  "Let (old_client X) f = f (old_client X)"
  "Let (g_clients s c) f = f (g_clients s c)"
  by simp_all

lemma old_state_applysizehints [simp]:
  "applysizehints (old_state s) = applysizehints s"
  unfolding applysizehints_def old_state_sel Let_client old_client_sel
  by (rule refl)

lemma old_state_fibonacci_body [simp]:
  "fibonacci_body (old_state s) = fibonacci_body s"
  unfolding fibonacci_body_def old_state_sel
  by (rule refl)

lemma oldeq_refl [simp]: "oldeq s s"
  by (simp add: oldeq_def)

lemma oldeq_old_state [simp]: "oldeq s (old_state s)" "oldeq (old_state s) s"
  by (simp_all add: oldeq_def)

lemma oldeq_sym: "oldeq s t \<Longrightarrow> oldeq t s"
  by (simp add: oldeq_def)

lemma oldeq_trans: "oldeq s t \<Longrightarrow> oldeq t u \<Longrightarrow> oldeq s u"
  by (simp add: oldeq_def)

text \<open>Everything that is read through \<open>old_state\<close> agrees on states related by \<open>oldeq\<close>.\<close>

lemma oldeq_read:
  assumes "oldeq t t'" and "\<And>s. F (old_state s) = F s"
  shows "F t' = F t"
proof -
  have "F t' = F (old_state t')"
    by (simp only: assms(2))
  also have "\<dots> = F (old_state t)"
    using assms(1) by (simp only: oldeq_def)
  also have "\<dots> = F t"
    by (simp only: assms(2))
  finally show ?thesis .
qed

lemma oldeq_reads:
  assumes "oldeq t t'"
  shows "g_monitors t' = g_monitors t"
    "g_mons t' = g_mons t"
    "g_selmon t' = g_selmon t"
    "g_bh t' = g_bh t"
    "g_th t' = g_th t"
    "g_sw t' = g_sw t"
    "g_sh t' = g_sh t"
    "g_enablegaps t' = g_enablegaps t"
    "ISVISIBLE t' = ISVISIBLE t"
    "nexttiled t' = nexttiled t"
    "ntiled t' = ntiled t"
    "getgaps t' = getgaps t"
    "getfacts t' = getfacts t"
    "applysizehints t' = applysizehints t"
    "fibonacci_body t' = fibonacci_body t"
    "old_client (g_clients t' c) = old_client (g_clients t c)"
  by (rule oldeq_read [OF assms], simp)+

lemma oldeq_client_fields:
  assumes "oldeq t t'"
  shows "c_x (g_clients t' c) = c_x (g_clients t c)"
    "c_y (g_clients t' c) = c_y (g_clients t c)"
    "c_w (g_clients t' c) = c_w (g_clients t c)"
    "c_h (g_clients t' c) = c_h (g_clients t c)"
    "c_bw (g_clients t' c) = c_bw (g_clients t c)"
    "c_isfloating (g_clients t' c) = c_isfloating (g_clients t c)"
    "c_isfullscreen (g_clients t' c) = c_isfullscreen (g_clients t c)"
    "c_mon (g_clients t' c) = c_mon (g_clients t c)"
    "c_win (g_clients t' c) = c_win (g_clients t c)"
    "c_tags (g_clients t' c) = c_tags (g_clients t c)"
    "WIDTH (g_clients t' c) = WIDTH (g_clients t c)"
    "HEIGHT (g_clients t' c) = HEIGHT (g_clients t c)"
proof -
  have "\<And>f. f (old_client (g_clients t' c)) = f (old_client (g_clients t c))"
    by (simp only: oldeq_reads(16) [OF assms])
  from this [of c_x] this [of c_y] this [of c_w] this [of c_h] this [of c_bw]
    this [of c_isfloating] this [of c_isfullscreen] this [of c_mon] this [of c_win]
    this [of c_tags] this [of WIDTH] this [of HEIGHT]
  show "c_x (g_clients t' c) = c_x (g_clients t c)"
    "c_y (g_clients t' c) = c_y (g_clients t c)"
    "c_w (g_clients t' c) = c_w (g_clients t c)"
    "c_h (g_clients t' c) = c_h (g_clients t c)"
    "c_bw (g_clients t' c) = c_bw (g_clients t c)"
    "c_isfloating (g_clients t' c) = c_isfloating (g_clients t c)"
    "c_isfullscreen (g_clients t' c) = c_isfullscreen (g_clients t c)"
    "c_mon (g_clients t' c) = c_mon (g_clients t c)"
    "c_win (g_clients t' c) = c_win (g_clients t c)"
    "c_tags (g_clients t' c) = c_tags (g_clients t c)"
    "WIDTH (g_clients t' c) = WIDTH (g_clients t c)"
    "HEIGHT (g_clients t' c) = HEIGHT (g_clients t c)"
    by simp_all
qed

lemma old_state_xdo [simp]: "old_state (xdo r s) = old_state s"
  by (simp add: old_state_def xdo_def)

lemma old_state_upd_mon: "old_state (upd_mon m f s) = upd_mon m f (old_state s)"
  by (simp add: old_state_def upd_mon_def)

lemma old_state_upd_client:
  "old_client (f (g_clients s c)) = g (old_client (g_clients s c))
   \<Longrightarrow> old_state (upd_client c f s) = upd_client c g (old_state s)"
  by (simp add: old_state_def upd_client_def fun_eq_iff)

lemma oldeq_xdo: "oldeq t t' \<Longrightarrow> oldeq (xdo r t) (xdo r' t')"
  by (simp add: oldeq_def)

lemma oldeq_xdo_left: "oldeq t t' \<Longrightarrow> oldeq (xdo r t) t'"
  by (simp add: oldeq_def)

lemma oldeq_upd_mon: "oldeq t t' \<Longrightarrow> oldeq (upd_mon m f t) (upd_mon m f t')"
  by (simp add: oldeq_def old_state_upd_mon)

lemma oldeq_upd_client:
  assumes "oldeq t t'" and "\<And>C. old_client (f C) = g (old_client C)"
  shows "oldeq (upd_client c f t) (upd_client c f t')"
  using assms(1)
  by (simp add: oldeq_def old_state_upd_client [of f _ c g, OF assms(2)])

lemma oldeq_Let: "(\<And>x. oldeq (f x) (g x)) \<Longrightarrow> oldeq (Let a f) (Let a g)"
  by simp

lemma oldeq_case_prod: "(\<And>a b. oldeq (f a b) (g a b)) \<Longrightarrow> oldeq (case_prod f p) (case_prod g p)"
  by (cases p) simp

lemma oldeq_if: "oldeq a a' \<Longrightarrow> oldeq b b' \<Longrightarrow> oldeq (if c then a else b) (if c then a' else b')"
  by simp

lemmas oldeq_struct = oldeq_Let oldeq_case_prod oldeq_if

lemma oldeq_resizeclient:
  assumes "oldeq t t'"
  shows "oldeq (resizeclient c x y w h t) (resizeclient c x y w h t')"
proof -
  let ?f = "\<lambda>C. C\<lparr>c_oldx := c_x C, c_x := x, c_oldy := c_y C, c_y := y,
                     c_oldw := c_w C, c_w := w, c_oldh := c_h C, c_h := h\<rparr>"
  have e1: "oldeq (upd_client c ?f t) (upd_client c ?f t')"
    by (rule oldeq_upd_client [OF assms, where g = "\<lambda>C. C\<lparr>c_x := x, c_y := y, c_w := w, c_h := h\<rparr>"])
       (simp add: old_client_def)
  have e2: "oldeq (upd_client c (\<lambda>C. C\<lparr>c_w := a, c_h := b\<rparr>) (upd_client c ?f t))
                  (upd_client c (\<lambda>C. C\<lparr>c_w := a, c_h := b\<rparr>) (upd_client c ?f t'))" for a b
    by (rule oldeq_upd_client [OF e1, where g = "\<lambda>C. C\<lparr>c_w := a, c_h := b\<rparr>"])
       (simp add: old_client_def)
  show ?thesis
    unfolding resizeclient_def Let_def oldeq_reads [OF e1] oldeq_client_fields [OF e1]
    by (intro oldeq_xdo oldeq_if e1 e2)
qed

lemma oldeq_resize:
  assumes "oldeq t t'"
  shows "oldeq (resize c x y w h i t) (resize c x y w h i t')"
  unfolding resize_def oldeq_reads [OF assms]
  by (intro oldeq_case_prod oldeq_if oldeq_resizeclient assms)

lemma oldeq_resize_rect:
  assumes "oldeq t t'"
  shows "oldeq (resize_rect c r t) (resize_rect c r t')"
  unfolding resize_rect_def
  by (intro oldeq_case_prod oldeq_resize assms)

lemma oldeq_tiled_loop:
  assumes "oldeq t t'"
    and "\<And>v C. body v (old_client C) = body v C"
    and "\<And>v C. step v (old_client C) = step v C"
  shows "oldeq (tiled_loop body step v cs t) (tiled_loop body step v cs t')"
  using assms
proof (induction body step v cs t arbitrary: t' rule: tiled_loop.induct)
  case (1 body step v cs t)
  note e = "1.prems"(1)
  have nt: "nexttiled t' cs = nexttiled t cs"
    by (simp only: oldeq_reads(10) [OF e])
  show ?case
  proof (cases "nexttiled t cs")
    case Nil
    then show ?thesis
      using e nt
      by (simp add: tiled_loop.simps [of body step v cs t] tiled_loop.simps [of body step v cs t'])
  next
    case (Cons c rest)
    have b: "body v (g_clients t' c) = body v (g_clients t c)"
      using "1.prems"(2) [of v "g_clients t' c"] "1.prems"(2) [of v "g_clients t c"]
      by (simp only: oldeq_reads(16) [OF e])
    let ?r = "snd (body v (g_clients t c))"
    have e1: "oldeq (resize_rect c ?r t) (resize_rect c ?r t')"
      by (rule oldeq_resize_rect [OF e])
    have st: "step w (g_clients (resize_rect c ?r t') c) = step w (g_clients (resize_rect c ?r t) c)"
      for w
      using "1.prems"(3) [of w "g_clients (resize_rect c ?r t') c"]
        "1.prems"(3) [of w "g_clients (resize_rect c ?r t) c"]
      by (simp only: oldeq_reads(16) [OF e1])
    have "oldeq
           (tiled_loop body step
              (step (fst (body v (g_clients t c))) (g_clients (resize_rect c ?r t) c))
              rest (resize_rect c ?r t))
           (tiled_loop body step
              (step (fst (body v (g_clients t c))) (g_clients (resize_rect c ?r t) c))
              rest (resize_rect c ?r t'))"
      by (rule "1.IH" [OF Cons e1 "1.prems"(2,3)])
    then show ?thesis
      using Cons nt
      by (simp add: tiled_loop.simps [of body step v cs t] tiled_loop.simps [of body step v cs t']
            b st)
  qed
qed

lemma tile_body_old [simp]:
  "tile_body nm g f v (old_client C) = tile_body nm g f v C"
  by (cases g rule: prod_cases6, cases f rule: prod_cases4, cases v rule: prod_cases3) simp

lemma fibonacci_body_old [simp]:
  "fibonacci_body s M sflag gaps v (old_client C) = fibonacci_body s M sflag gaps v C"
  unfolding fibonacci_body_def old_client_sel by (rule refl)

lemma oldeq_tile:
  assumes "oldeq s s'"
  shows "oldeq (tile m s) (tile m s')"
  unfolding tile_def oldeq_reads [OF assms]
  by (intro oldeq_struct oldeq_tiled_loop oldeq_upd_mon assms) (simp_all add: split_def)

lemma oldeq_deck:
  assumes "oldeq s s'"
  shows "oldeq (deck m s) (deck m s')"
  unfolding deck_def oldeq_reads [OF assms]
  by (intro oldeq_struct oldeq_tiled_loop oldeq_upd_mon assms) (simp_all add: split_def)

lemma oldeq_monocle:
  assumes "oldeq s s'"
  shows "oldeq (monocle m s) (monocle m s')"
  unfolding monocle_def oldeq_reads [OF assms]
  by (intro oldeq_struct oldeq_tiled_loop oldeq_upd_mon assms) (simp_all add: split_def)

lemma oldeq_bstack:
  assumes "oldeq s s'"
  shows "oldeq (bstack m s) (bstack m s')"
  unfolding bstack_def oldeq_reads [OF assms]
  by (intro oldeq_struct oldeq_tiled_loop oldeq_upd_mon assms) (simp_all add: split_def)

lemma oldeq_bstackhoriz:
  assumes "oldeq s s'"
  shows "oldeq (bstackhoriz m s) (bstackhoriz m s')"
  unfolding bstackhoriz_def oldeq_reads [OF assms]
  by (intro oldeq_struct oldeq_tiled_loop oldeq_upd_mon assms) (simp_all add: split_def)

lemma oldeq_centeredmaster:
  assumes "oldeq s s'"
  shows "oldeq (centeredmaster m s) (centeredmaster m s')"
  unfolding centeredmaster_def oldeq_reads [OF assms]
  by (intro oldeq_struct oldeq_tiled_loop oldeq_upd_mon assms) (simp_all add: split_def)

lemma oldeq_grid:
  assumes "oldeq s s'"
  shows "oldeq (grid m s) (grid m s')"
  unfolding grid_def oldeq_reads [OF assms]
  by (intro oldeq_struct oldeq_tiled_loop oldeq_upd_mon assms) (simp_all add: split_def)

lemma oldeq_horizgrid:
  assumes "oldeq s s'"
  shows "oldeq (horizgrid m s) (horizgrid m s')"
  unfolding horizgrid_def oldeq_reads [OF assms]
  by (intro oldeq_struct oldeq_tiled_loop oldeq_upd_mon assms) (simp_all add: split_def)

lemma oldeq_gaplessgrid:
  assumes "oldeq s s'"
  shows "oldeq (gaplessgrid m s) (gaplessgrid m s')"
  unfolding gaplessgrid_def oldeq_reads [OF assms]
  by (intro oldeq_struct oldeq_tiled_loop oldeq_upd_mon assms) (simp_all add: split_def)

lemma oldeq_centeredfloatingmaster:
  assumes "oldeq s s'"
  shows "oldeq (centeredfloatingmaster m s) (centeredfloatingmaster m s')"
  unfolding centeredfloatingmaster_def oldeq_reads [OF assms]
  by (intro oldeq_struct oldeq_tiled_loop oldeq_upd_mon assms) (simp_all add: split_def)

lemma oldeq_fibonacci:
  assumes "oldeq s s'"
  shows "oldeq (fibonacci m sflag s) (fibonacci m sflag s')"
  unfolding fibonacci_def oldeq_reads [OF assms]
  by (intro oldeq_struct oldeq_tiled_loop oldeq_upd_mon assms) simp_all

lemma oldeq_call_arrange:
  assumes "oldeq s s'"
  shows "oldeq (call_arrange f m s) (call_arrange f m s')"
  unfolding call_arrange_def dwindle_def spiral_def
  by (cases f)
     (simp_all add: oldeq_tile oldeq_deck oldeq_monocle oldeq_bstack oldeq_bstackhoriz
        oldeq_centeredmaster oldeq_fibonacci oldeq_grid oldeq_horizgrid oldeq_gaplessgrid
        oldeq_centeredfloatingmaster assms)

lemma oldeq_updatebarpos:
  assumes "oldeq s s'"
  shows "oldeq (updatebarpos m s) (updatebarpos m s')"
  unfolding updatebarpos_def Let_def oldeq_reads [OF assms]
  by (rule oldeq_upd_mon [OF assms])

lemma oldeq_showhide:
  "oldeq t t' \<Longrightarrow> oldeq (showhide cs t) (showhide cs t')"
proof (induction cs arbitrary: t t')
  case Nil
  then show ?case by simp
next
  case (Cons c cs)
  note e = Cons.prems
  have v: "ISVISIBLE t' c = ISVISIBLE t c"
    by (simp only: oldeq_reads(9) [OF e])
  show ?case
  proof (cases "ISVISIBLE t c")
    case True
    show ?thesis
      unfolding showhide.simps v if_P [OF True] Let_def oldeq_reads [OF e]
        oldeq_client_fields [OF e]
      by (intro Cons.IH oldeq_if oldeq_resize oldeq_xdo e)
  next
    case False
    show ?thesis
      unfolding showhide.simps v if_not_P [OF False] Let_def
      by (intro oldeq_xdo Cons.IH e)
  qed
qed

lemma oldeq_arrangemon:
  assumes "oldeq t t'"
  shows "oldeq (arrangemon m t) (arrangemon m t')"
proof -
  let ?u = "\<lambda>t. upd_mon m (\<lambda>M. M\<lparr>m_ltsymbol := take 16 (lt_symbol (cur_lt M))\<rparr>)
             (xdo (XMoveResizeWindow (m_tabwin (g_monitors (updatebarpos m t) m))
                     (m_wx (g_monitors (updatebarpos m t) m))
                     (m_ty (g_monitors (updatebarpos m t) m))
                     (m_ww (g_monitors (updatebarpos m t) m)) (g_th (updatebarpos m t)))
                (updatebarpos m t))"
  have e3: "oldeq (?u t) (?u t')"
    by (intro oldeq_upd_mon oldeq_xdo oldeq_updatebarpos assms)
  have a: "arrangemon m t = (case lt_arrange (cur_lt (g_monitors (?u t) m)) of
                               None \<Rightarrow> ?u t | Some f \<Rightarrow> call_arrange f m (?u t))" for t
    by (simp add: arrangemon_def Let_def)
  show ?thesis
    unfolding a oldeq_reads(1) [OF e3]
    by (cases "lt_arrange (cur_lt (g_monitors (?u t) m))")
       (simp_all add: e3 oldeq_call_arrange [OF e3])
qed

lemma old_state_restack_below [simp]:
  "old_state (restack_below w cs s) = old_state s"
  by (induction cs arbitrary: w s) simp_all

lemma old_state_restack [simp]: "old_state (restack m s) = old_state s"
  by (simp add: restack_def Let_def split: option.splits)

lemma oldeq_arrange_mon:
  assumes "oldeq t t'"
  shows "oldeq (arrange (Some m) t) (arrange (Some m) t')"
proof -
  have "oldeq (arrangemon m (showhide (m_stack (g_monitors t m)) t))
              (arrangemon m (showhide (m_stack (g_monitors t' m)) t'))"
    unfolding oldeq_reads [OF assms]
    by (intro oldeq_arrangemon oldeq_showhide assms)
  then show ?thesis
    by (simp add: arrange_def oldeq_def)
qed

lemma oldeqI:
  assumes "\<And>c. old_client (g_clients a c) = old_client (g_clients b c)"
    and "g_monitors a = g_monitors b" and "g_mons a = g_mons b" and "g_selmon a = g_selmon b"
    and "g_bh a = g_bh b" and "g_th a = g_th b" and "g_sw a = g_sw b" and "g_sh a = g_sh b"
    and "g_enablegaps a = g_enablegaps b" and "g_xtitle a = g_xtitle b"
    and "g_xclass a = g_xclass b"
  shows "oldeq a b"
  using assms by (cases a, cases b) (simp add: oldeq_def old_state_def)

lemma borderless_old [simp]: "borderless (old_state s) = borderless s"
  unfolding borderless_def old_state_sel old_state_views old_client_sel by (rule refl)

lemma oldeq_borderless: "oldeq t t' \<Longrightarrow> borderless t' = borderless t"
  by (rule oldeq_read) simp_all

lemma fs_tuple_old [simp]: "fs_tuple (old_client C) = fs_tuple C"
  by (simp add: fs_tuple_def)

lemma oldeq_fs_tuple: "oldeq t t' \<Longrightarrow> fs_tuple (g_clients t' c) = fs_tuple (g_clients t c)"
  using oldeq_reads(16) [of t t' c] fs_tuple_old [of "g_clients t' c"]
    fs_tuple_old [of "g_clients t c"]
  by simp

text \<open>
  Resizing a client to the rectangle it has, when \<^verbatim>\<open>resizeclient\<close> leaves it its border,
  changes the saved rectangle and the request trace only.
\<close>

lemma resizeclient_same:
  assumes "\<not> borderless t c \<or> c_isfullscreen (g_clients t c) \<noteq> 0
           \<or> c_isfloating (g_clients t c) \<noteq> 0"
  shows "oldeq (resizeclient c (c_x (g_clients t c)) (c_y (g_clients t c))
                  (c_w (g_clients t c)) (c_h (g_clients t c)) t) t"
proof -
  let ?f = "\<lambda>C. C\<lparr>c_oldx := c_x C, c_x := c_x (g_clients t c),
                     c_oldy := c_y C, c_y := c_y (g_clients t c),
                     c_oldw := c_w C, c_w := c_w (g_clients t c),
                     c_oldh := c_h C, c_h := c_h (g_clients t c)\<rparr>"
  let ?t1 = "upd_client c ?f t"
  have e1: "oldeq t ?t1"
    by (rule oldeqI) (simp_all add: old_client_def)
  have nb: "\<not> (borderless ?t1 c \<and> c_isfullscreen (g_clients ?t1 c) = 0
                \<and> c_isfloating (g_clients ?t1 c) = 0)"
    using assms unfolding oldeq_borderless [OF e1] oldeq_client_fields [OF e1] by blast
  have "resizeclient c (c_x (g_clients t c)) (c_y (g_clients t c))
          (c_w (g_clients t c)) (c_h (g_clients t c)) t
        = xdo (XConfigureWindow (c_win (g_clients ?t1 c)) (c_x (g_clients t c))
                 (c_y (g_clients t c)) (c_w (g_clients t c)) (c_h (g_clients t c))
                 (c_bw (g_clients ?t1 c))) ?t1"
    using nb unfolding resizeclient_def borderless_def Let_def by (simp only: if_False)
  then show ?thesis
    using e1 by (simp add: oldeq_def)
qed

lemma setfullscreen_on:
  assumes "c_isfullscreen (g_clients s c) = 0"
  shows "g_clients (setfullscreen c 1 s) =
           (g_clients s)(c := (g_clients s c)
              \<lparr>c_isfullscreen := 1, c_oldstate := c_isfloating (g_clients s c),
               c_oldbw := c_bw (g_clients s c), c_bw := 0, c_isfloating := 1,
               c_oldx := c_x (g_clients s c),
               c_x := m_mx (g_monitors s (c_mon (g_clients s c))),
               c_oldy := c_y (g_clients s c),
               c_y := m_my (g_monitors s (c_mon (g_clients s c))),
               c_oldw := c_w (g_clients s c),
               c_w := m_mw (g_monitors s (c_mon (g_clients s c))),
               c_oldh := c_h (g_clients s c),
               c_h := m_mh (g_monitors s (c_mon (g_clients s c)))\<rparr>)"
    and "g_monitors (setfullscreen c 1 s) = g_monitors s"
    and "g_mons (setfullscreen c 1 s) = g_mons s"
    and "g_selmon (setfullscreen c 1 s) = g_selmon s"
    and "g_bh (setfullscreen c 1 s) = g_bh s"
    and "g_th (setfullscreen c 1 s) = g_th s"
    and "g_sw (setfullscreen c 1 s) = g_sw s"
    and "g_sh (setfullscreen c 1 s) = g_sh s"
    and "g_enablegaps (setfullscreen c 1 s) = g_enablegaps s"
    and "g_xtitle (setfullscreen c 1 s) = g_xtitle s"
    and "g_xclass (setfullscreen c 1 s) = g_xclass s"
proof -
  let ?s2 = "upd_client c (\<lambda>C. C\<lparr>c_isfullscreen := 1, c_oldstate := c_isfloating C,
                                    c_oldbw := c_bw C, c_bw := 0, c_isfloating := 1\<rparr>)
               (xdo (SetNetWMState (c_win (g_clients s c)) True) s)"
  have r: "resizeclient c x y w h ?s2 =
           xdo (XConfigureWindow (c_win (g_clients s c)) x y w h 0)
             (upd_client c (\<lambda>C. C\<lparr>c_oldx := c_x C, c_x := x, c_oldy := c_y C, c_y := y,
                                    c_oldw := c_w C, c_w := w, c_oldh := c_h C, c_h := h\<rparr>) ?s2)"
    for x y w h
    by (simp add: resizeclient_def Let_def)
  have e: "setfullscreen c 1 s =
           xdo (XRaiseWindow (c_win (g_clients s c)))
             (resizeclient c (m_mx (g_monitors s (c_mon (g_clients s c))))
                (m_my (g_monitors s (c_mon (g_clients s c))))
                (m_mw (g_monitors s (c_mon (g_clients s c))))
                (m_mh (g_monitors s (c_mon (g_clients s c)))) ?s2)"
    using assms by (simp add: setfullscreen_def Let_def r)
  show "g_clients (setfullscreen c 1 s) =
           (g_clients s)(c := (g_clients s c)
              \<lparr>c_isfullscreen := 1, c_oldstate := c_isfloating (g_clients s c),
               c_oldbw := c_bw (g_clients s c), c_bw := 0, c_isfloating := 1,
               c_oldx := c_x (g_clients s c),
               c_x := m_mx (g_monitors s (c_mon (g_clients s c))),
               c_oldy := c_y (g_clients s c),
               c_y := m_my (g_monitors s (c_mon (g_clients s c))),
               c_oldw := c_w (g_clients s c),
               c_w := m_mw (g_monitors s (c_mon (g_clients s c))),
               c_oldh := c_h (g_clients s c),
               c_h := m_mh (g_monitors s (c_mon (g_clients s c)))\<rparr>)"
    unfolding e r by simp
  show "g_monitors (setfullscreen c 1 s) = g_monitors s"
    and "g_mons (setfullscreen c 1 s) = g_mons s"
    and "g_selmon (setfullscreen c 1 s) = g_selmon s"
    and "g_bh (setfullscreen c 1 s) = g_bh s"
    and "g_th (setfullscreen c 1 s) = g_th s"
    and "g_sw (setfullscreen c 1 s) = g_sw s"
    and "g_sh (setfullscreen c 1 s) = g_sh s"
    and "g_enablegaps (setfullscreen c 1 s) = g_enablegaps s"
    and "g_xtitle (setfullscreen c 1 s) = g_xtitle s"
    and "g_xclass (setfullscreen c 1 s) = g_xclass s"
    unfolding e r by simp_all
qed

text \<open>
  Fullscreen on and off again is \<^verbatim>\<open>arrange\<close> of the client's monitor, up to the saved
  fields and the request trace, for a client that \<^verbatim>\<open>resizeclient\<close> leaves its border.
\<close>

lemma setfullscreen_toggle:
  assumes nf: "c_isfullscreen (g_clients s c) = 0"
    and nb: "\<not> borderless s c \<or> c_isfloating (g_clients s c) \<noteq> 0"
  shows "oldeq (setfullscreen c 0 (setfullscreen c 1 s))
               (arrange (Some (c_mon (g_clients s c))) s)"
proof -
  define u where "u = setfullscreen c 1 s"
  note on = setfullscreen_on [OF nf, folded u_def]
  define t2 where "t2 = upd_client c
      (\<lambda>C. C\<lparr>c_isfullscreen := 0, c_isfloating := c_oldstate C, c_bw := c_oldbw C,
              c_x := c_oldx C, c_y := c_oldy C, c_w := c_oldw C, c_h := c_oldh C\<rparr>)
      (xdo (SetNetWMState (c_win (g_clients u c)) False) u)"
  define t3 where "t3 = resizeclient c (c_x (g_clients t2 c)) (c_y (g_clients t2 c))
                          (c_w (g_clients t2 c)) (c_h (g_clients t2 c)) t2"
  have e2: "oldeq s t2"
    by (rule oldeqI) (simp_all add: t2_def on old_client_def nf)
  have off: "setfullscreen c 0 u = arrange (Some (c_mon (g_clients t3 c))) t3"
    by (simp add: setfullscreen_def Let_def t3_def t2_def on)
  have "\<not> borderless t2 c \<or> c_isfullscreen (g_clients t2 c) \<noteq> 0
        \<or> c_isfloating (g_clients t2 c) \<noteq> 0"
    using nb unfolding oldeq_borderless [OF e2] oldeq_client_fields [OF e2] by blast
  then have e3: "oldeq t3 t2"
    unfolding t3_def by (rule resizeclient_same)
  have e: "oldeq t3 s"
    by (rule oldeq_trans [OF e3 oldeq_sym [OF e2]])
  have m: "c_mon (g_clients t3 c) = c_mon (g_clients s c)"
    by (rule oldeq_client_fields(8) [OF oldeq_sym [OF e]])
  show ?thesis
    unfolding u_def [symmetric] off m by (rule oldeq_arrange_mon [OF e])
qed

section \<open>Claims\<close>

text \<open>
  C10. \<^verbatim>\<open>togglefloating\<close> is a no-op when no client is selected on the selected monitor or
  when the selected client is fullscreen: the whole state, and with it the client's
  \<^verbatim>\<open>isfloating\<close> flag, its geometry and every monitor, is unchanged.
\<close>

theorem togglefloating_noop:
  assumes "m_sel (g_monitors s (g_selmon s)) = None
           \<or> (\<exists>sel. m_sel (g_monitors s (g_selmon s)) = Some sel
                     \<and> c_isfullscreen (g_clients s sel) \<noteq> 0)"
  shows "togglefloating s = s"
  using assms by (auto simp: togglefloating_def)

theorem togglefloating_noop_witness:
  "m_sel (g_monitors (ex_wm (Some Tile) None) (g_selmon (ex_wm (Some Tile) None))) = None
   \<and> togglefloating (ex_wm (Some Tile) None) = ex_wm (Some Tile) None"
  using togglefloating_noop [of "ex_wm (Some Tile) None"]
  by (simp add: ex_wm_def ex_monitor_def)

text \<open>
  C9. For every monitor \<open>m\<close> and every arrange function \<open>f\<close> of the layout table, the call
  \<open>f(m)\<close> resizes only clients that \<^verbatim>\<open>nexttiled\<close> reaches on the monitor's list: a client
  that is floating, or not visible on the active tagset, or not on the list keeps its
  record, in particular its rectangle \<open>(x, y, w, h)\<close>.
\<close>

theorem layout_resizes_tiled_only:
  assumes "c \<notin> set (m_clients (g_monitors s m)) \<or> c_isfloating (g_clients s c) \<noteq> 0
           \<or> \<not> ISVISIBLE s c"
  shows "g_clients (call_arrange f m s) c = g_clients s c
         \<and> c_x (g_clients (call_arrange f m s) c) = c_x (g_clients s c)
         \<and> c_y (g_clients (call_arrange f m s) c) = c_y (g_clients s c)
         \<and> c_w (g_clients (call_arrange f m s) c) = c_w (g_clients s c)
         \<and> c_h (g_clients (call_arrange f m s) c) = c_h (g_clients s c)"
proof -
  have "frame (tiled_of s m) s (call_arrange f m s)"
    by (rule frame_call_arrange [OF frame_refl]) simp
  moreover have "c \<notin> tiled_of s m"
    using assms by (auto simp: tiled_of_def tiled_def)
  ultimately have "g_clients (call_arrange f m s) c = g_clients s c"
    by (rule frame_same)
  then show ?thesis
    by simp
qed

theorem layout_resizes_tiled_only_witness:
  "c_isfloating (g_clients (ex_wm (Some Tile) (Some 1)) 2) \<noteq> 0
   \<and> c_w (g_clients (call_arrange Tile 0 (ex_wm (Some Tile) (Some 1))) 2) = 640
   \<and> c_h (g_clients (call_arrange Tile 0 (ex_wm (Some Tile) (Some 1))) 2) = 480"
  using layout_resizes_tiled_only [of 2 "ex_wm (Some Tile) (Some 1)" 0 Tile]
  by (simp add: ex_wm_def ex_client_def)

text \<open>
  C4. \<^verbatim>\<open>swallow(p, c)\<close> returns at once, leaving the whole state as it is, when the child
  has \<^verbatim>\<open>noswallow\<close> or \<^verbatim>\<open>isterminal\<close> set, and only then. In every other case the state
  changes: the child is unlinked from the client list and the focus stack of its monitor,
  its window's \<^verbatim>\<open>WM_STATE\<close> is set to withdrawn, the terminal's window is unmapped (the
  requests after these two only move, resize or restack windows), the two window handles
  are exchanged and \<^verbatim>\<open>p -> swallowing\<close> is the child.
\<close>

theorem swallow_cases:
  "(c_noswallow (g_clients s c) \<noteq> 0 \<or> c_isterminal (g_clients s c) \<noteq> 0
      \<longrightarrow> swallow p c s = s)
   \<and> (c_noswallow (g_clients s c) = 0 \<and> c_isterminal (g_clients s c) = 0
      \<longrightarrow> swallow p c s \<noteq> s
        \<and> m_clients (g_monitors (swallow p c s) (c_mon (g_clients s c))) =
            remove1 c (m_clients (g_monitors s (c_mon (g_clients s c))))
        \<and> m_stack (g_monitors (swallow p c s) (c_mon (g_clients s c))) =
            remove1 c (m_stack (g_monitors s (c_mon (g_clients s c))))
        \<and> (\<exists>l. g_xlog (swallow p c s) =
                  g_xlog s @ [SetWMState (c_win (g_clients s c)) WithdrawnState,
                              XUnmapWindow (c_win (g_clients s p))] @ l
                \<and> list_all moves_only l)
        \<and> c_win (g_clients (swallow p c s) p) = c_win (g_clients s c)
        \<and> c_win (g_clients (swallow p c s) c) = c_win (g_clients s p)
        \<and> c_swallowing (g_clients (swallow p c s) p) = Some c)"
proof (intro conjI impI)
  assume "c_noswallow (g_clients s c) \<noteq> 0 \<or> c_isterminal (g_clients s c) \<noteq> 0"
  then show "swallow p c s = s"
    by (rule swallow_skip)
next
  assume a: "c_noswallow (g_clients s c) = 0 \<and> c_isterminal (g_clients s c) = 0"
  note sw = swallow_effect [of s c p, OF conjunct1 [OF a] conjunct2 [OF a]]
  show lg: "\<exists>l. g_xlog (swallow p c s) =
                  g_xlog s @ [SetWMState (c_win (g_clients s c)) WithdrawnState,
                              XUnmapWindow (c_win (g_clients s p))] @ l
                \<and> list_all moves_only l"
    using sw(6) by (simp add: log_from_def)
  then show "swallow p c s \<noteq> s"
    by auto
qed (use swallow_effect [of s c p] in simp_all)

text \<open>
  C2. For a child \<open>c\<close> with \<^verbatim>\<open>noswallow = 0\<close> and \<^verbatim>\<open>isterminal = 0\<close>, \<^verbatim>\<open>swallow(p, c)\<close>
  followed at once by \<^verbatim>\<open>unswallow(p)\<close> returns a state in which the window handle of \<open>p\<close>
  is the one it had before the swallow and \<^verbatim>\<open>p -> swallowing\<close> is null; on the way
  \<^verbatim>\<open>unswallow\<close> maps that window, resizes it to the rectangle stored in \<open>p\<close> at that moment
  and sets its \<^verbatim>\<open>WM_STATE\<close> to normal, and every later request only moves, resizes or
  restacks windows. (\<open>unswallow_restore\<close> is the state in which these three requests are
  issued.)
\<close>

theorem swallow_unswallow:
  assumes "c_noswallow (g_clients s c) = 0" and "c_isterminal (g_clients s c) = 0"
  shows "\<exists>t. unswallow p (swallow p c s) = Some t
           \<and> c_win (g_clients t p) = c_win (g_clients s p)
           \<and> c_swallowing (g_clients t p) = None
           \<and> (\<exists>l. g_xlog t =
                  g_xlog (unswallow_restore p c (swallow p c s))
                  @ [XMapWindow (c_win (g_clients s p)),
                     XMoveResizeWindow (c_win (g_clients s p))
                       (c_x (g_clients (unswallow_restore p c (swallow p c s)) p))
                       (c_y (g_clients (unswallow_restore p c (swallow p c s)) p))
                       (c_w (g_clients (unswallow_restore p c (swallow p c s)) p))
                       (c_h (g_clients (unswallow_restore p c (swallow p c s)) p)),
                     SetWMState (c_win (g_clients s p)) NormalState] @ l
                \<and> list_all moves_only l)"
proof -
  note sw = swallow_effect [OF assms, of p]
  let ?r = "unswallow_restore p c (swallow p c s)"
  have u: "unswallow p (swallow p c s) = Some (unswallow_map p ?r)"
    by (simp add: unswallow_def sw(3))
  have w: "c_win (g_clients ?r p) = c_win (g_clients s p)"
    by (simp add: unswallow_restore_keeps sw(2))
  show ?thesis
    using unswallow_map_effect(3) [of ?r p]
    by (simp add: u unswallow_map_effect(1,2) unswallow_restore_keeps w sw(2) log_from_def)
qed

theorem swallow_cases_witness:
  "c_noswallow (g_clients (ex_wm (Some Tile) (Some 1)) 4) = 0
   \<and> c_isterminal (g_clients (ex_wm (Some Tile) (Some 1)) 4) = 0
   \<and> swallow 1 4 (ex_wm (Some Tile) (Some 1)) \<noteq> ex_wm (Some Tile) (Some 1)
   \<and> c_win (g_clients (swallow 1 4 (ex_wm (Some Tile) (Some 1))) 1) = 4
   \<and> c_win (g_clients (swallow 1 4 (ex_wm (Some Tile) (Some 1))) 4) = 1
   \<and> c_swallowing (g_clients (swallow 1 4 (ex_wm (Some Tile) (Some 1))) 1) = Some 4
   \<and> m_clients (g_monitors (swallow 1 2 (ex_wm (Some Tile) (Some 1))) 0) = [1, 3]"
  using swallow_cases [of "ex_wm (Some Tile) (Some 1)" 4 1]
    swallow_cases [of "ex_wm (Some Tile) (Some 1)" 2 1]
  by (simp add: ex_wm_def ex_client_def ex_monitor_def)

theorem swallow_unswallow_witness:
  "c_noswallow (g_clients (ex_wm (Some Tile) (Some 1)) 2) = 0
   \<and> c_isterminal (g_clients (ex_wm (Some Tile) (Some 1)) 2) = 0
   \<and> (\<exists>t. unswallow 1 (swallow 1 2 (ex_wm (Some Tile) (Some 1))) = Some t
          \<and> c_win (g_clients t 1) = 1 \<and> c_swallowing (g_clients t 1) = None)"
  using swallow_unswallow [of "ex_wm (Some Tile) (Some 1)" 2 1]
  by (auto simp: ex_wm_def ex_client_def)

text \<open>
  C1. Let \<open>m\<close> be the selected monitor. If \<open>ui & TAGMASK\<close> is its active tagset,
  \<^verbatim>\<open>view\<close> changes nothing. Otherwise \<^verbatim>\<open>view\<close> returns and \<^verbatim>\<open>seltags\<close> is flipped; when
  \<open>ui & TAGMASK\<close> is not zero the newly active slot holds \<open>ui & TAGMASK\<close>, which is then
  the active tagset, and \<^verbatim>\<open>prevtag\<close> is the former \<^verbatim>\<open>curtag\<close>; when it is zero, \<^verbatim>\<open>curtag\<close>
  and \<^verbatim>\<open>prevtag\<close> are exchanged, both slots keep their values and the active tagset is
  what the other slot stored.
\<close>

theorem view_cases:
  "(ui AND TAGMASK = cur_tagset (g_monitors s (g_selmon s)) \<longrightarrow> view ui s = Some s)
   \<and> (ui AND TAGMASK \<noteq> cur_tagset (g_monitors s (g_selmon s)) \<longrightarrow>
       (\<exists>t. view ui s = Some t
          \<and> m_seltags (g_monitors t (g_selmon s)) = m_seltags (g_monitors s (g_selmon s)) XOR 1
          \<and> (ui AND TAGMASK \<noteq> 0 \<longrightarrow>
               m_tagset (g_monitors t (g_selmon s)) (m_seltags (g_monitors t (g_selmon s)))
                 = ui AND TAGMASK
             \<and> cur_tagset (g_monitors t (g_selmon s)) = ui AND TAGMASK
             \<and> pt_prevtag (m_pertag (g_monitors t (g_selmon s)))
                 = pt_curtag (m_pertag (g_monitors s (g_selmon s))))
          \<and> (ui AND TAGMASK = 0 \<longrightarrow>
               pt_curtag (m_pertag (g_monitors t (g_selmon s)))
                 = pt_prevtag (m_pertag (g_monitors s (g_selmon s)))
             \<and> pt_prevtag (m_pertag (g_monitors t (g_selmon s)))
                 = pt_curtag (m_pertag (g_monitors s (g_selmon s)))
             \<and> m_tagset (g_monitors t (g_selmon s)) = m_tagset (g_monitors s (g_selmon s))
             \<and> cur_tagset (g_monitors t (g_selmon s))
                 = m_tagset (g_monitors s (g_selmon s))
                     (m_seltags (g_monitors s (g_selmon s)) XOR 1))))"
proof (intro conjI impI)
  assume "ui AND TAGMASK = cur_tagset (g_monitors s (g_selmon s))"
  then show "view ui s = Some s"
    by (rule view_same)
next
  assume "ui AND TAGMASK \<noteq> cur_tagset (g_monitors s (g_selmon s))"
  from view_tagview [OF this] obtain t where t: "view ui s = Some t"
    and tv: "tagview (g_monitors t (g_selmon s)) =
         (let M = g_monitors s (g_selmon s) in
          if ui AND TAGMASK \<noteq> 0
          then (m_seltags M XOR 1, (m_tagset M)(m_seltags M XOR 1 := ui AND TAGMASK),
                (if ui = - 1 then 0 else Suc (the (first_set_bit 31 0 ui))),
                pt_curtag (m_pertag M))
          else (m_seltags M XOR 1, m_tagset M, pt_prevtag (m_pertag M), pt_curtag (m_pertag M)))"
    by blast
  show "\<exists>t. view ui s = Some t
          \<and> m_seltags (g_monitors t (g_selmon s)) = m_seltags (g_monitors s (g_selmon s)) XOR 1
          \<and> (ui AND TAGMASK \<noteq> 0 \<longrightarrow>
               m_tagset (g_monitors t (g_selmon s)) (m_seltags (g_monitors t (g_selmon s)))
                 = ui AND TAGMASK
             \<and> cur_tagset (g_monitors t (g_selmon s)) = ui AND TAGMASK
             \<and> pt_prevtag (m_pertag (g_monitors t (g_selmon s)))
                 = pt_curtag (m_pertag (g_monitors s (g_selmon s))))
          \<and> (ui AND TAGMASK = 0 \<longrightarrow>
               pt_curtag (m_pertag (g_monitors t (g_selmon s)))
                 = pt_prevtag (m_pertag (g_monitors s (g_selmon s)))
             \<and> pt_prevtag (m_pertag (g_monitors t (g_selmon s)))
                 = pt_curtag (m_pertag (g_monitors s (g_selmon s)))
             \<and> m_tagset (g_monitors t (g_selmon s)) = m_tagset (g_monitors s (g_selmon s))
             \<and> cur_tagset (g_monitors t (g_selmon s))
                 = m_tagset (g_monitors s (g_selmon s))
                     (m_seltags (g_monitors s (g_selmon s)) XOR 1))"
    using tv
    by (intro exI [of _ t]) (auto simp: t tagview_def Let_def cur_tagset_def split: if_splits)
qed

theorem view_cases_witness:
  "2 AND TAGMASK \<noteq> cur_tagset (g_monitors (ex_wm (Some Tile) (Some 1)) 0)
   \<and> 2 AND TAGMASK \<noteq> 0
   \<and> (\<exists>t. view 2 (ex_wm (Some Tile) (Some 1)) = Some t
          \<and> m_seltags (g_monitors t 0) = 1
          \<and> cur_tagset (g_monitors t 0) = 2
          \<and> pt_prevtag (m_pertag (g_monitors t 0)) = 1)"
  using view_cases [of 2 "ex_wm (Some Tile) (Some 1)"]
  by (auto simp: ex_wm_def ex_monitor_def ex_pertag_def cur_tagset_def TAGMASK_def NTAGS_def)



text \<open>
  C7. Let the active tagset of every monitor be a valid tag mask (not zero, only bits
  \<open>0..N-1\<close>). Then the client handed to \<^verbatim>\<open>applyrules\<close> has a valid tag mask afterwards,
  for every rule table; and a client whose tag mask is valid keeps a valid tag mask under
  \<^verbatim>\<open>applyrules\<close> (of any client), \<^verbatim>\<open>tag\<close>, \<^verbatim>\<open>toggletag\<close>, \<^verbatim>\<open>sendmon\<close> (of any client to any
  monitor) and \<^verbatim>\<open>organizetags\<close>, which returns when the client list of the selected monitor
  has no repetition and its clients carry a tag below \<open>N\<close>. In particular: \<^verbatim>\<open>toggletag\<close>
  changes nothing when the XOR is zero; \<^verbatim>\<open>tag\<close> changes nothing when \<open>ui & TAGMASK\<close> is
  zero and otherwise assigns \<open>ui & TAGMASK\<close>; \<^verbatim>\<open>applyrules\<close> assigns the active tagset of
  the client's monitor when no matching rule has a tag within \<^verbatim>\<open>TAGMASK\<close>, which is always
  so for the table of config.h; and \<^verbatim>\<open>sendmon\<close> assigns the active tagset of the target
  monitor.
\<close>

theorem tags_stay_valid:
  assumes "\<forall>m. tags_valid (cur_tagset (g_monitors s m))"
  shows
   "tags_valid (c_tags (g_clients (applyrules_table rs c s) c))
    \<and> tags_valid (c_tags (g_clients (applyrules c s) c))
    \<and> (tags_valid (c_tags (g_clients s c)) \<longrightarrow>
          tags_valid (c_tags (g_clients (applyrules_table rs c' s) c))
        \<and> tags_valid (c_tags (g_clients (tag ui s) c))
        \<and> tags_valid (c_tags (g_clients (toggletag ui s) c))
        \<and> tags_valid (c_tags (g_clients (sendmon c' m s) c))
        \<and> (distinct (m_clients (g_monitors s (g_selmon s)))
             \<and> (\<forall>c'\<in>set (m_clients (g_monitors s (g_selmon s))).
                    c_tags (g_clients s c') AND TAGMASK \<noteq> 0)
            \<longrightarrow> (\<exists>t. organizetags s = Some t \<and> tags_valid (c_tags (g_clients t c)))))
    \<and> (m_sel (g_monitors s (g_selmon s)) = Some c
         \<and> c_tags (g_clients s c) XOR (ui AND TAGMASK) = 0 \<longrightarrow> toggletag ui s = s)
    \<and> (ui AND TAGMASK = 0 \<longrightarrow> tag ui s = s)
    \<and> (m_sel (g_monitors s (g_selmon s)) = Some c \<and> ui AND TAGMASK \<noteq> 0
         \<longrightarrow> c_tags (g_clients (tag ui s) c) = ui AND TAGMASK)
    \<and> ((\<forall>r\<in>set rs. rule_matches r (c_name (g_clients s c))
              (case fst (g_xclass s (c_win (g_clients s c))) of None \<Rightarrow> ''broken'' | Some k \<Rightarrow> k)
              (case snd (g_xclass s (c_win (g_clients s c))) of None \<Rightarrow> ''broken'' | Some i \<Rightarrow> i)
            \<longrightarrow> r_tags r AND TAGMASK = 0)
         \<longrightarrow> c_tags (g_clients (applyrules_table rs c s) c)
             = cur_tagset (g_monitors s (c_mon (g_clients (applyrules_table rs c s) c))))
    \<and> c_tags (g_clients (applyrules c s) c)
        = cur_tagset (g_monitors s (c_mon (g_clients (applyrules c s) c)))
    \<and> (c_mon (g_clients s c) \<noteq> m
         \<longrightarrow> c_tags (g_clients (sendmon c m s) c) = cur_tagset (g_monitors s m))"
proof (intro conjI impI)
  show "tags_valid (c_tags (g_clients (applyrules_table rs c s) c))"
    by (rule applyrules_table_valid [OF assms])
  show "tags_valid (c_tags (g_clients (applyrules c s) c))"
    unfolding applyrules_def by (rule applyrules_table_valid [OF assms])
  show "c_tags (g_clients (applyrules c s) c)
        = cur_tagset (g_monitors s (c_mon (g_clients (applyrules c s) c)))"
    unfolding applyrules_def using rules_no_tags by (intro applyrules_table_fallback) blast
next
  assume v: "tags_valid (c_tags (g_clients s c))"
  show "tags_valid (c_tags (g_clients (applyrules_table rs c' s) c))"
    using v applyrules_table_valid [OF assms, of rs c]
    by (cases "c = c'") (simp_all add: applyrules_table_effect)
  show "tags_valid (c_tags (g_clients (tag ui s) c))"
    using v by (simp add: tag_effect tags_valid_and)
  show "tags_valid (c_tags (g_clients (toggletag ui s) c))"
    using v by (simp add: toggletag_effect tags_valid_xor)
  show "tags_valid (c_tags (g_clients (sendmon c' m s) c))"
    using v assms by (simp add: sendmon_effect)
  assume "distinct (m_clients (g_monitors s (g_selmon s)))
             \<and> (\<forall>c'\<in>set (m_clients (g_monitors s (g_selmon s))).
                    c_tags (g_clients s c') AND TAGMASK \<noteq> 0)"
  then show "\<exists>t. organizetags s = Some t \<and> tags_valid (c_tags (g_clients t c))"
    using v by (intro organizetags_valid) simp_all
next
  assume "m_sel (g_monitors s (g_selmon s)) = Some c
         \<and> c_tags (g_clients s c) XOR (ui AND TAGMASK) = 0"
  then show "toggletag ui s = s"
    by (simp add: toggletag_def Let_def)
next
  assume "ui AND TAGMASK = 0"
  then show "tag ui s = s"
    by (simp add: tag_def split: option.splits)
next
  assume "m_sel (g_monitors s (g_selmon s)) = Some c \<and> ui AND TAGMASK \<noteq> 0"
  then show "c_tags (g_clients (tag ui s) c) = ui AND TAGMASK"
    by (simp add: tag_effect)
next
  assume "\<forall>r\<in>set rs. rule_matches r (c_name (g_clients s c))
              (case fst (g_xclass s (c_win (g_clients s c))) of None \<Rightarrow> ''broken'' | Some k \<Rightarrow> k)
              (case snd (g_xclass s (c_win (g_clients s c))) of None \<Rightarrow> ''broken'' | Some i \<Rightarrow> i)
            \<longrightarrow> r_tags r AND TAGMASK = 0"
  then show "c_tags (g_clients (applyrules_table rs c s) c)
             = cur_tagset (g_monitors s (c_mon (g_clients (applyrules_table rs c s) c)))"
    by (rule applyrules_table_fallback)
next
  assume "c_mon (g_clients s c) \<noteq> m"
  then show "c_tags (g_clients (sendmon c m s) c) = cur_tagset (g_monitors s m)"
    by (simp add: sendmon_effect)
qed

theorem tags_stay_valid_witness:
  "(\<forall>m. tags_valid (cur_tagset (g_monitors (ex_wm (Some Tile) (Some 1)) m)))
   \<and> tags_valid (c_tags (g_clients (ex_wm (Some Tile) (Some 1)) 1))
   \<and> m_sel (g_monitors (ex_wm (Some Tile) (Some 1)) (g_selmon (ex_wm (Some Tile) (Some 1)))) = Some 1
   \<and> c_tags (g_clients (ex_wm (Some Tile) (Some 1)) 1) XOR (1 AND TAGMASK) = 0
   \<and> toggletag 1 (ex_wm (Some Tile) (Some 1)) = ex_wm (Some Tile) (Some 1)
   \<and> tags_valid (c_tags (g_clients (toggletag 2 (ex_wm (Some Tile) (Some 1))) 1))
   \<and> c_tags (g_clients (tag 4 (ex_wm (Some Tile) (Some 1))) 1) = 4
   \<and> c_tags (g_clients (applyrules 3 (ex_wm (Some Tile) (Some 1))) 3) = 1
   \<and> c_tags (g_clients (sendmon 3 1 (ex_wm (Some Tile) (Some 1))) 3) = 1"
  using tags_stay_valid [where s = "ex_wm (Some Tile) (Some 1)" and c = 1 and ui = 1
      and rs = rules and c' = 3 and m = 0]
    tags_stay_valid [where s = "ex_wm (Some Tile) (Some 1)" and c = 1 and ui = 2
      and rs = rules and c' = 3 and m = 0]
    tags_stay_valid [where s = "ex_wm (Some Tile) (Some 1)" and c = 1 and ui = 4
      and rs = rules and c' = 3 and m = 0]
    tags_stay_valid [where s = "ex_wm (Some Tile) (Some 1)" and c = 3 and ui = 4
      and rs = rules and c' = 3 and m = 1]
  by (simp add: ex_wm_def ex_monitor_def ex_client_def cur_tagset_def tags_valid_def
        TAGMASK_def NTAGS_def)







text \<open>
  C3. The call \<^verbatim>\<open>setfullscreen(c, 0)\<close> ends in \<^verbatim>\<open>arrange(c -> mon)\<close>, and \<^verbatim>\<open>setfullscreen(c, 1)\<close>
  does not arrange. In \<open>ex_arranged\<close> every client has the rectangle that \<^verbatim>\<open>arrange\<close> gives
  it; after \<^verbatim>\<open>setfullscreen(1, 1)\<close> there, client 2 is neither fullscreen nor floating nor of
  fixed size, it keeps its border, and it still has its place in the stack column. Fullscreen
  on and off for client 2 then moves it into the master column.
\<close>

theorem fullscreen_toggle_rearranges:
  "fs_tuple (g_clients (arrange (Some 0) ex_arranged) 1) = fs_tuple (g_clients ex_arranged 1)
   \<and> fs_tuple (g_clients (arrange (Some 0) ex_arranged) 2) = fs_tuple (g_clients ex_arranged 2)
   \<and> fs_tuple (g_clients (arrange (Some 0) ex_arranged) 3) = fs_tuple (g_clients ex_arranged 3)
   \<and> c_isfullscreen (g_clients ex_pending 2) = 0
   \<and> c_isfloating (g_clients ex_pending 2) = 0
   \<and> c_isfixed (g_clients ex_pending 2) = 0
   \<and> \<not> borderless ex_pending 2
   \<and> fs_tuple (g_clients ex_pending 2) = (0, 2, 965, 30, 941, 511)
   \<and> fs_tuple (g_clients (setfullscreen 2 0 (setfullscreen 2 1 ex_pending)) 2)
       = (0, 2, 10, 30, 941, 1036)
   \<and> fs_tuple (g_clients (setfullscreen 2 0 (setfullscreen 2 1 ex_pending)) 2)
       \<noteq> fs_tuple (g_clients ex_pending 2)"
  by code_simp

text \<open>
  C3, as the code has it. Let \<open>c\<close> be a client that is neither fullscreen nor floating and
  to which \<^verbatim>\<open>resizeclient\<close> leaves its border (it is not the only tiled client of its monitor,
  and the layout is not monocle). Then \<^verbatim>\<open>setfullscreen(c, 1)\<close> followed by
  \<^verbatim>\<open>setfullscreen(c, 0)\<close> leaves in \<open>(isfloating, bw, x, y, w, h)\<close> of \<open>c\<close> what
  \<^verbatim>\<open>arrange(c -> mon)\<close> alone would leave there. So the tuple is the one before the first call
  whenever that \<^verbatim>\<open>arrange\<close> would not change it; in particular for a client that is not
  visible.
\<close>

theorem fullscreen_involution:
  assumes "c_isfullscreen (g_clients s c) = 0" and "c_isfloating (g_clients s c) = 0"
    and "\<not> borderless s c"
  shows "fs_tuple (g_clients (setfullscreen c 0 (setfullscreen c 1 s)) c)
           = fs_tuple (g_clients (arrange (Some (c_mon (g_clients s c))) s) c)
         \<and> (fs_tuple (g_clients (arrange (Some (c_mon (g_clients s c))) s) c)
              = fs_tuple (g_clients s c)
            \<longrightarrow> fs_tuple (g_clients (setfullscreen c 0 (setfullscreen c 1 s)) c)
                  = fs_tuple (g_clients s c))
         \<and> (\<not> ISVISIBLE s c
            \<longrightarrow> fs_tuple (g_clients (setfullscreen c 0 (setfullscreen c 1 s)) c)
                  = fs_tuple (g_clients s c))"
proof -
  have "oldeq (arrange (Some (c_mon (g_clients s c))) s)
              (setfullscreen c 0 (setfullscreen c 1 s))"
    by (rule oldeq_sym, rule setfullscreen_toggle) (use assms in simp_all)
  from oldeq_fs_tuple [OF this, of c]
  have t: "fs_tuple (g_clients (setfullscreen c 0 (setfullscreen c 1 s)) c)
           = fs_tuple (g_clients (arrange (Some (c_mon (g_clients s c))) s) c)" .
  show ?thesis
    using t arrange_hidden [of s c "Some (c_mon (g_clients s c))"] by simp
qed

theorem fullscreen_involution_witness:
  "c_isfullscreen (g_clients ex_arranged 2) = 0
   \<and> c_isfloating (g_clients ex_arranged 2) = 0
   \<and> \<not> borderless ex_arranged 2
   \<and> fs_tuple (g_clients (arrange (Some (c_mon (g_clients ex_arranged 2))) ex_arranged) 2)
       = fs_tuple (g_clients ex_arranged 2)
   \<and> fs_tuple (g_clients (setfullscreen 2 0 (setfullscreen 2 1 ex_arranged)) 2)
       = (0, 2, 965, 30, 941, 511)
   \<and> \<not> ISVISIBLE (ex_wm (Some Tile) (Some 1)) 3
   \<and> fs_tuple (g_clients (setfullscreen 3 0 (setfullscreen 3 1 (ex_wm (Some Tile) (Some 1)))) 3)
       = (0, 2, 0, 20, 640, 480)"
proof -
  have a: "c_isfullscreen (g_clients ex_arranged 2) = 0"
    "c_isfloating (g_clients ex_arranged 2) = 0" "\<not> borderless ex_arranged 2"
    by code_simp+
  have st: "fs_tuple (g_clients (arrange (Some (c_mon (g_clients ex_arranged 2))) ex_arranged) 2)
            = fs_tuple (g_clients ex_arranged 2)"
    by code_simp
  have v: "fs_tuple (g_clients ex_arranged 2) = (0, 2, 965, 30, 941, 511)"
    by code_simp
  have b: "c_isfullscreen (g_clients (ex_wm (Some Tile) (Some 1)) 3) = 0"
    "c_isfloating (g_clients (ex_wm (Some Tile) (Some 1)) 3) = 0"
    "\<not> borderless (ex_wm (Some Tile) (Some 1)) 3"
    "\<not> ISVISIBLE (ex_wm (Some Tile) (Some 1)) 3"
    "fs_tuple (g_clients (ex_wm (Some Tile) (Some 1)) 3) = (0, 2, 0, 20, 640, 480)"
    by code_simp+
  have r2: "fs_tuple (g_clients (setfullscreen 2 0 (setfullscreen 2 1 ex_arranged)) 2)
            = (0, 2, 965, 30, 941, 511)"
    using conjunct1 [OF fullscreen_involution [OF a]] by (simp only: st v)
  have r3: "fs_tuple (g_clients (setfullscreen 3 0 (setfullscreen 3 1 (ex_wm (Some Tile) (Some 1)))) 3)
            = (0, 2, 0, 20, 640, 480)"
    using mp [OF conjunct2 [OF conjunct2 [OF fullscreen_involution [OF b(1-3)]]] b(4)]
    by (simp only: b(5))
  show ?thesis
    by (simp only: a b(4) st r2 r3 simp_thms)
qed

end
